(* ===== verification/Etcd_Prelude.thy ===== *)
theory Etcd_Prelude
  imports
    Main
    "HOL-Library.AList"
    "HOL-Library.Sublist"
    "HOL-Library.Multiset"
    "HOL-Library.Word"
begin

text \<open>
  Shared vocabulary of the development: the outcome type of a Go call, the few functions of
  the Go packages \<open>strings\<close> and \<open>fmt\<close> that the sources use, buffered channels, Go maps as
  association lists in the order a \<open>range\<close> loop visits them, and the contracts (locales)
  that several components share: bounded retry loops, invariants of step relations and
  bounded queues.
\<close>

named_theorems go_string \<open>facts on the string functions\<close>
named_theorems go_chan \<open>facts on channel operations\<close>

section \<open>Outcome of a call\<close>

text \<open>
  A Go function returning \<open>(T, error)\<close> yields a value or an error; some calls panic, which
  ends the process and is therefore not an error the caller can handle.
\<close>

datatype ('e, 'a) gores = GoOk 'a | GoErr 'e | GoPanic

fun gores_bind :: "('e, 'a) gores \<Rightarrow> ('a \<Rightarrow> ('e, 'b) gores) \<Rightarrow> ('e, 'b) gores" where
  "gores_bind (GoOk a) f = f a"
| "gores_bind (GoErr e) f = GoErr e"
| "gores_bind GoPanic f = GoPanic"

section \<open>Strings\<close>

text \<open>\<open>strings.Split(s, sep)\<close> for a separator of one byte: always at least one field.\<close>

fun split_on :: "char \<Rightarrow> string \<Rightarrow> string list" where
  "split_on c [] = [[]]"
| "split_on c (x # xs) =
     (if x = c then [] # split_on c xs
      else (case split_on c xs of [] \<Rightarrow> [[x]] | y # ys \<Rightarrow> (x # y) # ys))"

text \<open>\<open>strings.Join(xs, sep)\<close>.\<close>

fun join :: "string \<Rightarrow> string list \<Rightarrow> string" where
  "join sep [] = []"
| "join sep [x] = x"
| "join sep (x # y # ys) = x @ sep @ join sep (y # ys)"

text \<open>\<open>strings.TrimSpace\<close> on the ASCII white space \<open>\t \n \v \f \r\<close> and space.\<close>

definition is_space :: "char \<Rightarrow> bool" where
  "is_space c \<longleftrightarrow> c \<in> {CHR 0x09, CHR 0x0A, CHR 0x0B, CHR 0x0C, CHR 0x0D, CHR 0x20}"

definition trim_space :: "string \<Rightarrow> string" where
  "trim_space s = rev (dropWhile is_space (rev (dropWhile is_space s)))"

text \<open>\<open>strings.Contains(s, sub)\<close>.\<close>

abbreviation str_contains :: "string \<Rightarrow> string \<Rightarrow> bool" where
  "str_contains s sub \<equiv> sublist sub s"

text \<open>\<open>fmt.Sprintf("%d", n)\<close> and the value of a string of digits.\<close>

definition digit_char :: "nat \<Rightarrow> char" where
  "digit_char d = char_of (48 + d)"

fun dec :: "nat \<Rightarrow> string" where
  "dec n = (if n < 10 then [digit_char n] else dec (n div 10) @ [digit_char (n mod 10)])"

declare dec.simps [simp del]

definition is_digit :: "char \<Rightarrow> bool" where
  "is_digit c \<longleftrightarrow> 48 \<le> (of_char c :: nat) \<and> (of_char c :: nat) \<le> 57"

definition digit_val :: "char \<Rightarrow> nat" where
  "digit_val c = of_char c - 48"

definition dec_val :: "string \<Rightarrow> nat" where
  "dec_val s = foldl (\<lambda>a c. 10 * a + digit_val c) 0 s"

lemma split_on_nonempty [simp]: "split_on c s \<noteq> []"
  by (induction s) (auto split: list.splits)

lemma split_on_append_sep:
  "c \<notin> set x \<Longrightarrow> split_on c (x @ c # rest) = x # split_on c rest"
  by (induction x) auto

lemma split_on_no_sep: "c \<notin> set x \<Longrightarrow> split_on c x = [x]"
  by (induction x) auto

lemma split_on_fields: "f \<in> set (split_on c s) \<Longrightarrow> c \<notin> set f"
  by (induction s arbitrary: f) (fastforce split: if_splits list.splits)+

text \<open>Splitting undoes joining when no field holds the separator.\<close>

lemma split_on_join [go_string]:
  "xs \<noteq> [] \<Longrightarrow> \<forall>x \<in> set xs. c \<notin> set x \<Longrightarrow> split_on c (join [c] xs) = xs"
proof (induction "[c]" xs rule: join.induct)
  case (3 x y ys)
  then show ?case using split_on_append_sep [of c x] by simp
qed (auto simp: split_on_no_sep)

lemma trim_space_id [go_string]: "\<forall>c \<in> set s. \<not> is_space c \<Longrightarrow> trim_space s = s"
proof -
  assume none: "\<forall>c \<in> set s. \<not> is_space c"
  have "dropWhile is_space s = s"
    using none by (cases s) auto
  moreover have "dropWhile is_space (rev s) = rev s"
    using none by (cases "rev s") (auto simp: dropWhile_eq_self_iff dest: arg_cong [of _ _ set])
  ultimately show ?thesis by (simp add: trim_space_def)
qed

text \<open>Only the ends matter to \<open>TrimSpace\<close>.\<close>

lemma trim_ends [go_string]:
  assumes "s \<noteq> []" and "\<not> is_space (hd s)" and "\<not> is_space (last s)"
  shows "trim_space s = s"
proof -
  have "dropWhile is_space s = s" using assms(1,2) by (cases s) auto
  moreover have "dropWhile is_space (rev s) = rev s"
    using assms(1,3) by (cases s rule: rev_cases) auto
  ultimately show ?thesis by (simp add: trim_space_def)
qed

lemma digit_char_facts:
  assumes "d < 10"
  shows "digit_val (digit_char d) = d" and "is_digit (digit_char d)"
proof -
  have "(of_char (digit_char d) :: nat) = 48 + d"
    using assms by (simp add: digit_char_def)
  then show "digit_val (digit_char d) = d" and "is_digit (digit_char d)"
    using assms by (simp_all add: digit_val_def is_digit_def)
qed

lemma dec_val_snoc: "dec_val (s @ [c]) = 10 * dec_val s + digit_val c"
  by (simp add: dec_val_def)

lemma dec_nonempty [simp]: "dec n \<noteq> []"
  by (subst dec.simps) simp

lemma dec_digits: "\<forall>c \<in> set (dec n). is_digit c"
proof (induction n rule: dec.induct)
  case (1 n)
  then show ?case
    by (subst dec.simps) (auto simp: digit_char_facts)
qed

lemma dec_val_dec [go_string]: "dec_val (dec n) = n"
proof (induction n rule: dec.induct)
  case (1 n)
  show ?case
  proof (cases "n < 10")
    case True
    then show ?thesis
      by (simp add: dec.simps [of n] dec_val_def digit_char_facts)
  next
    case False
    with "1.IH" show ?thesis
      by (simp add: dec.simps [of n] dec_val_snoc digit_char_facts)
  qed
qed

section \<open>Go maps\<close>

text \<open>
  A Go map that the code ranges over is an association list with distinct keys, whose order
  stands for the unspecified order of the \<open>range\<close> loop; results that must not depend on
  that order are stated over \<open>map_of\<close>. Stores are \<open>AList.update\<close>, deletions
  \<open>AList.delete\<close>, \<open>len\<close> is the length of the list.
\<close>

type_synonym ('k, 'v) gomap = "('k \<times> 'v) list"

abbreviation gokeys :: "('k, 'v) gomap \<Rightarrow> 'k list" where
  "gokeys m \<equiv> map fst m"

abbreviation gowf :: "('k, 'v) gomap \<Rightarrow> bool" where
  "gowf m \<equiv> distinct (gokeys m)"

lemma gowf_update [simp]: "gowf m \<Longrightarrow> gowf (AList.update k v m)"
  by (simp add: distinct_update)

lemma gowf_delete [simp]: "gowf m \<Longrightarrow> gowf (AList.delete k m)"
  by (simp add: distinct_delete)

lemma map_of_None_keys: "map_of m k = None \<longleftrightarrow> k \<notin> set (gokeys m)"
  by (simp add: map_of_eq_None_iff)

lemma gokeys_card: "gowf m \<Longrightarrow> card (dom (map_of m)) = length m"
  using distinct_card [of "gokeys m"] by (simp add: dom_map_of_conv_image_fst)

lemma nth_upd: "j < length xs \<Longrightarrow> xs[i := x] ! j = (if i = j then x else xs ! j)"
  by (cases "i = j") auto

section \<open>Channels\<close>

text \<open>A buffered channel: capacity, buffered messages (oldest first), closed flag.\<close>

record 'm chan =
  cap :: nat
  buf :: "'m list"
  closed :: bool

definition make_chan :: "nat \<Rightarrow> 'm chan" where
  "make_chan n = \<lparr>cap = n, buf = [], closed = False\<rparr>"

text \<open>A send succeeds, finds the buffer full (the sender blocks, or takes its \<open>default\<close>
  case), or panics on a closed channel.\<close>

datatype 'm send_result = Sent "'m chan" | SendFull | SendPanic

definition chan_send :: "'m \<Rightarrow> 'm chan \<Rightarrow> 'm send_result" where
  "chan_send x c =
     (if closed c then SendPanic
      else if length (buf c) < cap c then Sent (c\<lparr>buf := buf c @ [x]\<rparr>)
      else SendFull)"

text \<open>\<open>select { case c <- x: default: }\<close> drops the message when the buffer is full.\<close>

definition chan_offer :: "'m \<Rightarrow> 'm chan \<Rightarrow> 'm chan" where
  "chan_offer x c = (case chan_send x c of Sent c' \<Rightarrow> c' | SendFull \<Rightarrow> c | SendPanic \<Rightarrow> c)"

text \<open>A receive takes the oldest message, blocks on an empty open channel, and reports
  \<open>ok = false\<close> on a drained closed one.\<close>

datatype 'm recv_result = Received 'm "'m chan" | RecvBlocked | RecvClosed

definition chan_recv :: "'m chan \<Rightarrow> 'm recv_result" where
  "chan_recv c =
     (case buf c of
        x # xs \<Rightarrow> Received x (c\<lparr>buf := xs\<rparr>)
      | [] \<Rightarrow> (if closed c then RecvClosed else RecvBlocked))"

definition chan_wf :: "'m chan \<Rightarrow> bool" where
  "chan_wf c \<longleftrightarrow> length (buf c) \<le> cap c"

lemma chan_wf_make [go_chan]: "chan_wf (make_chan n)"
  by (simp add: chan_wf_def make_chan_def)

lemma chan_offer_buf [go_chan]:
  "buf (chan_offer x c) =
     (if \<not> closed c \<and> length (buf c) < cap c then buf c @ [x] else buf c)"
  by (simp add: chan_offer_def chan_send_def)

lemma chan_offer_cap [go_chan]:
  "cap (chan_offer x c) = cap c" "closed (chan_offer x c) = closed c"
  by (simp_all add: chan_offer_def chan_send_def)

lemma chan_wf_offer [go_chan]: "chan_wf c \<Longrightarrow> chan_wf (chan_offer x c)"
  by (simp add: chan_wf_def chan_offer_buf chan_offer_cap)

section \<open>Contracts shared by the components\<close>

subsection \<open>Bounded retry\<close>

text \<open>
  A loop that repeats an attempt at most \<open>n\<close> times until one yields a result. \<open>loop\<close> is the
  code's loop, \<open>attempt\<close> one iteration of its body.
\<close>

fun attempts :: "('s \<Rightarrow> 'r option \<times> 's) \<Rightarrow> nat \<Rightarrow> 's \<Rightarrow> 's" where
  "attempts f 0 s = s"
| "attempts f (Suc k) s = attempts f k (snd (f s))"

locale bounded_retry =
  fixes attempt :: "'s \<Rightarrow> 'r option \<times> 's"
    and loop :: "nat \<Rightarrow> 's \<Rightarrow> 'r option \<times> 's"
  assumes loop_0: "loop 0 s = (None, s)"
    and loop_Suc: "loop (Suc n) s =
      (case attempt s of (Some r, s') \<Rightarrow> (Some r, s') | (None, s') \<Rightarrow> loop n s')"
begin

text \<open>The loop stops at the first attempt that yields a result.\<close>

lemma loop_Some:
  "loop n s = (Some r, t) \<Longrightarrow>
     \<exists>k < n. attempt (attempts attempt k s) = (Some r, t) \<and>
       (\<forall>j < k. fst (attempt (attempts attempt j s)) = None)"
proof (induction n arbitrary: s)
  case 0
  then show ?case by (simp add: loop_0)
next
  case (Suc n)
  show ?case
  proof (cases "attempt s")
    case (Pair o' s')
    show ?thesis
    proof (cases o')
      case None
      with Pair Suc.prems have "loop n s' = (Some r, t)" by (simp add: loop_Suc)
      from Suc.IH [OF this] obtain k where k: "k < n"
        and hit: "attempt (attempts attempt k s') = (Some r, t)"
        and miss: "\<forall>j < k. fst (attempt (attempts attempt j s')) = None" by blast
      have "\<forall>j < Suc k. fst (attempt (attempts attempt j s)) = None"
      proof (intro allI impI)
        fix j assume "j < Suc k"
        then show "fst (attempt (attempts attempt j s)) = None"
          using miss Pair None by (cases j) auto
      qed
      with k hit Pair None show ?thesis by (intro exI [of _ "Suc k"]) auto
    next
      case (Some r')
      with Pair Suc.prems show ?thesis by (intro exI [of _ 0]) (simp add: loop_Suc)
    qed
  qed
qed

text \<open>It gives up only after \<open>n\<close> attempts without a result.\<close>

lemma loop_None:
  "loop n s = (None, t) \<longleftrightarrow>
     t = attempts attempt n s \<and> (\<forall>k < n. fst (attempt (attempts attempt k s)) = None)"
proof (induction n arbitrary: s)
  case 0
  then show ?case by (auto simp: loop_0)
next
  case (Suc n)
  obtain o' s' where at: "attempt s = (o', s')" by (cases "attempt s")
  show ?case
  proof (cases o')
    case None
    with at Suc.IH [of s'] show ?thesis
      by (auto simp: loop_Suc less_Suc_eq_0_disj)
  next
    case (Some r)
    with at show ?thesis by (auto simp: loop_Suc)
  qed
qed

text \<open>What every attempt keeps, the loop keeps.\<close>

lemma loop_invariant:
  assumes "P s" and "\<And>s. P s \<Longrightarrow> P (snd (attempt s))"
  shows "P (snd (loop n s))"
  using assms(1)
proof (induction n arbitrary: s)
  case 0
  then show ?case by (simp add: loop_0)
next
  case (Suc n)
  have "P (snd (attempt s))" using Suc.prems by (rule assms(2))
  then show ?case
    using Suc.IH by (cases "attempt s") (auto simp: loop_Suc split: option.splits)
qed

end

subsection \<open>Invariants of step relations\<close>

inductive reach :: "('s \<Rightarrow> bool) \<Rightarrow> ('s \<Rightarrow> 's \<Rightarrow> bool) \<Rightarrow> 's \<Rightarrow> bool"
  for start :: "'s \<Rightarrow> bool" and step :: "'s \<Rightarrow> 's \<Rightarrow> bool" where
  reach_start: "start s \<Longrightarrow> reach start step s"
| reach_step: "reach start step s \<Longrightarrow> step s t \<Longrightarrow> reach start step t"

locale invariant_system =
  fixes start :: "'s \<Rightarrow> bool"
    and step :: "'s \<Rightarrow> 's \<Rightarrow> bool"
    and inv :: "'s \<Rightarrow> bool"
  assumes inv_start: "start s \<Longrightarrow> inv s"
    and inv_step: "inv s \<Longrightarrow> step s t \<Longrightarrow> inv t"
begin

lemma reach_inv: "reach start step s \<Longrightarrow> inv s"
  by (induction rule: reach.induct) (auto intro: inv_start inv_step)

lemma steps_inv: "step\<^sup>*\<^sup>* s t \<Longrightarrow> inv s \<Longrightarrow> inv t"
  by (induction rule: rtranclp_induct) (auto intro: inv_step)

end

subsection \<open>Bounded mailboxes\<close>

text \<open>
  What a sender may rely on when it offers messages to a bounded buffer: the contents are the
  oldest \<open>capacity\<close> messages offered since the buffer was last read, in order.
\<close>

locale mailbox =
  fixes ok :: "'q \<Rightarrow> bool"
    and put :: "'m \<Rightarrow> 'q \<Rightarrow> 'q"
    and contents :: "'q \<Rightarrow> 'm list"
    and capacity :: nat
  assumes ok_put: "ok q \<Longrightarrow> ok (put x q)"
    and ok_bound: "ok q \<Longrightarrow> length (contents q) \<le> capacity"
    and contents_put: "ok q \<Longrightarrow> contents (put x q) = take capacity (contents q @ [x])"
begin

lemma ok_put_all: "ok q \<Longrightarrow> ok (fold put xs q)"
  by (induction xs arbitrary: q) (auto intro: ok_put)

lemma contents_put_all: "ok q \<Longrightarrow> contents (fold put xs q) = take capacity (contents q @ xs)"
proof (induction xs arbitrary: q)
  case Nil
  then show ?case using ok_bound by simp
next
  case (Cons x xs)
  have "contents (fold put (x # xs) q) = take capacity (take capacity (contents q @ [x]) @ xs)"
    using Cons by (simp add: ok_put contents_put)
  also have "\<dots> = take capacity (contents q @ x # xs)"
    by (simp add: take_Cons')
  finally show ?case .
qed

lemma put_keeps_head: "ok q \<Longrightarrow> contents q \<noteq> [] \<Longrightarrow> hd (contents (put x q)) = hd (contents q)"
  using ok_bound by (cases "contents q") (auto simp: contents_put take_Cons')

lemma put_nonempty: "ok q \<Longrightarrow> 0 < capacity \<Longrightarrow> contents (put x q) \<noteq> []"
  by (simp add: contents_put)

end

end
