(* ===== verification/Node_Ctrl.thy ===== *)
theory Node_Ctrl
  imports Etcd_Prelude
begin

text \<open>
  \<open>pkg/controller/node.go\<close>: the controller that scales the StatefulSet with the number of
  nodes. The Kubernetes API is a parameter (the record \<open>sts_api\<close> over an arbitrary state), and so
  is \<open>labels.Selector.Matches\<close>. \<open>replicas\<close> of a StatefulSet is a 32-bit integer in the API and
  an \<open>int\<close> in the configuration; the conversion \<open>int32(...)\<close> is \<open>word_of_int\<close>.
\<close>

section \<open>Configuration\<close>

type_synonym labels = "(string, string) gomap"

record NodeConfig =
  ExcludeLabels :: labels
  IncludeLabels :: labels
  StatefulSetName :: string
  StatefulSetNamespace :: string
  MinReplicas :: int
  MaxReplicas :: int

datatype node_cfg_error =
  NoStatefulSetName | NoStatefulSetNamespace | MinNotPositive | MaxNotPositive | MinAboveMax | BothLabels

definition NodeConfig_Valid :: "NodeConfig \<Rightarrow> node_cfg_error option" where
  "NodeConfig_Valid c =
     (if StatefulSetName c = [] then Some NoStatefulSetName
      else if StatefulSetNamespace c = [] then Some NoStatefulSetNamespace
      else if MinReplicas c \<le> 0 then Some MinNotPositive
      else if MaxReplicas c \<le> 0 then Some MaxNotPositive
      else if MaxReplicas c < MinReplicas c then Some MinAboveMax
      else if 0 < length (IncludeLabels c) \<and> 0 < length (ExcludeLabels c) then Some BothLabels
      else None)"

definition NodeConfig_SetDefaults :: "NodeConfig \<Rightarrow> NodeConfig" where
  "NodeConfig_SetDefaults c =
     (let c1 = (if MinReplicas c \<le> 0 then c\<lparr>MinReplicas := 3\<rparr> else c)
      in if MaxReplicas c1 \<le> 0 then c1\<lparr>MaxReplicas := 5\<rparr> else c1)"

section \<open>The controller's state\<close>

record NodeCtrl =
  nd_config :: NodeConfig
  nd_trigger :: "unit chan"
  labelSelector :: "labels option"
  inclusive :: bool

definition NewNodeCtrl :: "NodeConfig \<Rightarrow> NodeCtrl" where
  "NewNodeCtrl c =
     \<lparr>nd_config = c, nd_trigger = make_chan 10,
      labelSelector = (if 0 < length (IncludeLabels c) then Some (IncludeLabels c)
        else if 0 < length (ExcludeLabels c) then Some (ExcludeLabels c) else None),
      inclusive = (0 < length (IncludeLabels c))\<rparr>"

text \<open>The event predicate, and the mapping of StatefulSet events to a request name.\<close>

definition node_predicate :: "(labels \<Rightarrow> labels \<Rightarrow> bool) \<Rightarrow> NodeCtrl \<Rightarrow> labels \<Rightarrow> bool" where
  "node_predicate sel n ls =
     (case labelSelector n of
        None \<Rightarrow> True
      | Some s \<Rightarrow> (if inclusive n then sel s ls else \<not> sel s ls))"

definition sts_request :: "NodeConfig \<Rightarrow> string \<Rightarrow> string \<Rightarrow> string option" where
  "sts_request c name ns =
     (if name = StatefulSetName c \<and> ns = StatefulSetNamespace c then Some ''__sts__'' else None)"

fun count_loop :: "(labels \<Rightarrow> labels \<Rightarrow> bool) \<Rightarrow> bool \<Rightarrow> labels \<Rightarrow> labels list \<Rightarrow> nat \<Rightarrow> nat" where
  "count_loop sel incl s [] cnt = cnt"
| "count_loop sel incl s (ls # nodes) cnt =
     count_loop sel incl s nodes
       (if incl then (if sel s ls then Suc cnt else cnt) else (if \<not> sel s ls then Suc cnt else cnt))"

text \<open>A node is represented by its labels.\<close>

definition countNodes :: "(labels \<Rightarrow> labels \<Rightarrow> bool) \<Rightarrow> NodeCtrl \<Rightarrow> labels list \<Rightarrow> nat" where
  "countNodes sel n nodes =
     (case labelSelector n of None \<Rightarrow> length nodes | Some s \<Rightarrow> count_loop sel (inclusive n) s nodes 0)"

section \<open>Triggers\<close>

text \<open>A send in a \<open>select\<close> with a \<open>default\<close>; on a closed channel it panics all the same.\<close>

definition triggerSync :: "NodeCtrl \<Rightarrow> (unit, NodeCtrl) gores" where
  "triggerSync n =
     (case chan_send () (nd_trigger n) of
        Sent c \<Rightarrow> GoOk (n\<lparr>nd_trigger := c\<rparr>)
      | SendFull \<Rightarrow> GoOk n
      | SendPanic \<Rightarrow> GoPanic)"

datatype node_get = NodeFound bool | NodeNotFound | NodeGetFailed

text \<open>\<open>NodeFound d\<close>: the node exists, and \<open>d\<close> tells whether it has a deletion timestamp.\<close>

definition Node_Reconcile :: "string \<Rightarrow> node_get \<Rightarrow> NodeCtrl \<Rightarrow> (unit, NodeCtrl) gores" where
  "Node_Reconcile req got n =
     (if req = ''__sts__'' then triggerSync n
      else (case got of
              NodeNotFound \<Rightarrow> triggerSync n
            | NodeGetFailed \<Rightarrow> GoOk n
            | NodeFound deleting \<Rightarrow> (if deleting then triggerSync n else triggerSync n)))"

section \<open>Scaling\<close>

record 'o sts =
  Replicas :: "32 word option"
  sts_rest :: 'o

datatype 'o sts_get = StsFound "'o sts" | StsNotFound | StsGetFailed
datatype sts_update = StsUpdated | StsConflict | StsUpdateFailed

record ('e, 'o) sts_api =
  api_nodes :: "'e \<Rightarrow> labels list option"
  api_get :: "'e \<Rightarrow> 'o sts_get \<times> 'e"
  api_update :: "'o sts \<Rightarrow> 'e \<Rightarrow> sts_update \<times> 'e"

datatype sync_result =
  NodesNotListed | SetMissing | SetNotRead | ReplicasNil | NoChange | Scaled | ScaleFailed | RetriesExhausted

text \<open>The desired count from the number of nodes.\<close>

definition desired_replicas :: "NodeConfig \<Rightarrow> nat \<Rightarrow> 32 word" where
  "desired_replicas c cnt =
     (if int cnt < MaxReplicas c then word_of_int (MinReplicas c) else word_of_int (MaxReplicas c))"

text \<open>One turn of the retry loop; \<open>None\<close> is the \<open>continue\<close> after a conflict.\<close>

definition sync_attempt :: "('e, 'o) sts_api \<Rightarrow> 32 word \<Rightarrow> 'e \<Rightarrow> sync_result option \<times> 'e" where
  "sync_attempt api desired e =
     (case api_get api e of
        (StsNotFound, e1) \<Rightarrow> (Some SetMissing, e1)
      | (StsGetFailed, e1) \<Rightarrow> (Some SetNotRead, e1)
      | (StsFound s, e1) \<Rightarrow>
          (case Replicas s of
             None \<Rightarrow> (Some ReplicasNil, e1)
           | Some current \<Rightarrow>
               (if current = desired then (Some NoChange, e1)
                else (case api_update api (s\<lparr>Replicas := Some desired\<rparr>) e1 of
                        (StsUpdated, e2) \<Rightarrow> (Some Scaled, e2)
                      | (StsConflict, e2) \<Rightarrow> (None, e2)
                      | (StsUpdateFailed, e2) \<Rightarrow> (Some ScaleFailed, e2)))))"

fun sync_loop :: "('e, 'o) sts_api \<Rightarrow> 32 word \<Rightarrow> nat \<Rightarrow> 'e \<Rightarrow> sync_result option \<times> 'e" where
  "sync_loop api desired 0 e = (None, e)"
| "sync_loop api desired (Suc k) e =
     (case sync_attempt api desired e of
        (Some r, e') \<Rightarrow> (Some r, e')
      | (None, e') \<Rightarrow> sync_loop api desired k e')"

definition syncReplicas ::
    "(labels \<Rightarrow> labels \<Rightarrow> bool) \<Rightarrow> ('e, 'o) sts_api \<Rightarrow> NodeCtrl \<Rightarrow> 'e \<Rightarrow> sync_result \<times> 'e" where
  "syncReplicas sel api n e =
     (case api_nodes api e of
        None \<Rightarrow> (NodesNotListed, e)
      | Some nodes \<Rightarrow>
          (case sync_loop api (desired_replicas (nd_config n) (countNodes sel n nodes)) 3 e of
             (Some r, e') \<Rightarrow> (r, e')
           | (None, e') \<Rightarrow> (RetriesExhausted, e')))"

text \<open>
  The controller at work: reconciliations, the goroutine of \<open>Start\<close> taking triggers until it
  sees that the context has ended and closes the channel, and changes made by others.
\<close>

inductive node_step ::
    "(labels \<Rightarrow> labels \<Rightarrow> bool) \<Rightarrow> ('e, 'o) sts_api \<Rightarrow> NodeCtrl \<times> 'e \<Rightarrow> NodeCtrl \<times> 'e \<Rightarrow> bool"
  for sel :: "labels \<Rightarrow> labels \<Rightarrow> bool" and api :: "('e, 'o) sts_api" where
  node_handle: "Node_Reconcile req got n = GoOk n' \<Longrightarrow> node_step sel api (n, e) (n', e)"
| node_work: "\<not> closed (nd_trigger n) \<Longrightarrow> chan_recv (nd_trigger n) = Received () c \<Longrightarrow>
    node_step sel api (n, e) (n\<lparr>nd_trigger := c\<rparr>, snd (syncReplicas sel api n e))"
| node_stop: "\<not> closed (nd_trigger n) \<Longrightarrow>
    node_step sel api (n, e) (n\<lparr>nd_trigger := (nd_trigger n)\<lparr>closed := True\<rparr>\<rparr>, e)"
| node_world: "node_step sel api (n, e) (n, e')"

section \<open>Lemmas\<close>

lemma SetDefaults_positive:
  "0 < MinReplicas (NodeConfig_SetDefaults c) \<and> 0 < MaxReplicas (NodeConfig_SetDefaults c)"
  by (simp add: NodeConfig_SetDefaults_def Let_def)

lemma Valid_bounds:
  "NodeConfig_Valid c = None \<Longrightarrow> 0 < MinReplicas c \<and> MinReplicas c \<le> MaxReplicas c \<and>
     (IncludeLabels c = [] \<or> ExcludeLabels c = [])"
  by (auto simp: NodeConfig_Valid_def split: if_splits)

lemma count_loop_filter:
  "count_loop sel incl s nodes cnt = cnt + length (filter (\<lambda>ls. sel s ls = incl) nodes)"
  by (induction nodes arbitrary: cnt) auto

lemma countNodes_filter: "countNodes sel n nodes = length (filter (node_predicate sel n) nodes)"
proof (cases "labelSelector n")
  case (Some s)
  have "(\<lambda>ls. sel s ls = inclusive n) = node_predicate sel n"
    using Some by (auto simp: node_predicate_def fun_eq_iff)
  with Some show ?thesis by (simp add: countNodes_def count_loop_filter)
qed (simp add: countNodes_def node_predicate_def)

interpretation scaling: bounded_retry "sync_attempt api desired" "sync_loop api desired" for api desired
  by unfold_locales (auto split: prod.splits option.splits)

text \<open>The trigger channel of the running controller as a mailbox of ten wake-ups.\<close>

definition trigger_open :: "unit chan \<Rightarrow> bool" where
  "trigger_open c \<longleftrightarrow> \<not> closed c \<and> cap c = 10 \<and> length (buf c) \<le> 10"

interpretation trigger_box: mailbox trigger_open chan_offer buf 10
  by unfold_locales (auto simp: trigger_open_def chan_offer_buf chan_offer_cap)

lemma triggerSync_open:
  "trigger_open (nd_trigger n) \<Longrightarrow> triggerSync n = GoOk (n\<lparr>nd_trigger := chan_offer () (nd_trigger n)\<rparr>)"
  by (auto simp: triggerSync_def trigger_open_def chan_send_def chan_offer_def)

text \<open>The trigger channel keeps its bound, and the configuration never changes.\<close>

definition node_inv :: "NodeConfig \<Rightarrow> NodeCtrl \<times> 'e \<Rightarrow> bool" where
  "node_inv c = (\<lambda>(n, e). nd_config n = c \<and> cap (nd_trigger n) = 10 \<and> length (buf (nd_trigger n)) \<le> 10)"

lemma triggerSync_inv: "triggerSync n = GoOk n' \<Longrightarrow> node_inv c (n, e) \<Longrightarrow> node_inv c (n', e')"
  by (auto simp: triggerSync_def node_inv_def chan_send_def split: if_splits)

interpretation node_system: invariant_system "\<lambda>(n, e). n = NewNodeCtrl c" "node_step sel api" "node_inv c"
  for c sel api
proof unfold_locales
  show "node_inv c s" if "case s of (n, e) \<Rightarrow> n = NewNodeCtrl c" for s :: "NodeCtrl \<times> 'a"
    using that by (auto simp: node_inv_def NewNodeCtrl_def make_chan_def)
  show "node_inv c t" if "node_inv c s" and "node_step sel api s t" for s t :: "NodeCtrl \<times> 'a"
    using that(2,1)
  proof (cases rule: node_step.cases)
    case (node_handle req got n n' e)
    then have "triggerSync n = GoOk n' \<or> n' = n"
      by (auto simp: Node_Reconcile_def split: if_splits node_get.splits)
    then show ?thesis
      using that(1) triggerSync_inv [of n n' c e e] unfolding node_handle(1,2) by auto
  qed (auto simp: node_inv_def chan_recv_def split: list.splits if_splits)
qed

text \<open>After the channel is closed, the reconciliation of a node that is read panics.\<close>

lemma stopped_reconcile_panics:
  "closed (nd_trigger n) \<Longrightarrow> req = ''__sts__'' \<or> got \<noteq> NodeGetFailed \<Longrightarrow> Node_Reconcile req got n = GoPanic"
  by (cases got) (auto simp: Node_Reconcile_def triggerSync_def chan_send_def)

text \<open>A valid API: reading does not change it, and a successful update stores the replicas.\<close>

definition sts_laws :: "('e, 'o) sts_api \<Rightarrow> bool" where
  "sts_laws api \<longleftrightarrow>
     (\<forall>e. snd (api_get api e) = e) \<and>
     (\<forall>s e e'. api_update api s e = (StsUpdated, e') \<longrightarrow>
        (\<exists>s'. api_get api e' = (StsFound s', e') \<and> Replicas s' = Replicas s))"

lemma sync_attempt_reached:
  assumes "sts_laws api" and "sync_attempt api d e = (Some r, e')" and "r \<in> {NoChange, Scaled}"
  shows "\<exists>s. api_get api e' = (StsFound s, e') \<and> Replicas s = Some d"
proof -
  obtain g e1 where g: "api_get api e = (g, e1)" by (cases "api_get api e")
  then have [simp]: "e1 = e" using assms(1) by (metis snd_conv sts_laws_def)
  obtain s cur where s: "g = StsFound s" and cur: "Replicas s = Some cur"
    using assms(2,3) g by (auto simp: sync_attempt_def split: sts_get.splits option.splits)
  show ?thesis
  proof (cases "cur = d")
    case True
    then show ?thesis using assms(2) g s cur by (auto simp: sync_attempt_def)
  next
    case False
    then have "api_update api (s\<lparr>Replicas := Some d\<rparr>) e = (StsUpdated, e')"
      using assms(2,3) g s cur by (auto simp: sync_attempt_def split: prod.splits sts_update.splits)
    with assms(1) show ?thesis unfolding sts_laws_def by force
  qed
qed

lemma sint_int32: "0 < x \<Longrightarrow> x < 2 ^ 31 \<Longrightarrow> sint (word_of_int x :: 32 word) = x"
  unfolding int_word_sint by simp

section \<open>Properties\<close>

text \<open>
  For a valid configuration with a maximum below \<open>2^31\<close>, whenever \<open>syncReplicas\<close> reports
  that the StatefulSet needed no change or has been scaled, its stored replica count is the
  maximum if at least that many nodes pass the node predicate, and the minimum otherwise.
\<close>

lemma scaling_reaches_desired:
  assumes "sts_laws api" and "NodeConfig_Valid (nd_config n) = None" and "MaxReplicas (nd_config n) < 2 ^ 31"
    and "syncReplicas sel api n e = (r, e')" and "r \<in> {NoChange, Scaled}"
  shows "\<exists>nodes s d. api_nodes api e = Some nodes \<and> api_get api e' = (StsFound s, e') \<and>
    Replicas s = Some d \<and>
    sint d = (if int (length (filter (node_predicate sel n) nodes)) < MaxReplicas (nd_config n)
      then MinReplicas (nd_config n) else MaxReplicas (nd_config n))"
proof -
  obtain nodes where nodes: "api_nodes api e = Some nodes"
    using assms(4,5) by (auto simp: syncReplicas_def split: option.splits)
  let ?d = "desired_replicas (nd_config n) (countNodes sel n nodes)"
  have "sync_loop api ?d 3 e = (Some r, e')"
    using assms(4,5) nodes by (auto simp: syncReplicas_def split: prod.splits option.splits)
  then obtain k where "sync_attempt api ?d (attempts (sync_attempt api ?d) k e) = (Some r, e')"
    by (blast dest: scaling.loop_Some)
  from sync_attempt_reached [OF assms(1) this assms(5)]
  obtain s where s: "api_get api e' = (StsFound s, e')" "Replicas s = Some ?d" by blast
  have "sint ?d = (if int (length (filter (node_predicate sel n) nodes)) < MaxReplicas (nd_config n)
      then MinReplicas (nd_config n) else MaxReplicas (nd_config n))"
    using Valid_bounds [OF assms(2)] assms(3)
    by (simp add: desired_replicas_def countNodes_filter sint_int32)
  with nodes s show ?thesis by blast
qed

text \<open>A configuration for the witnesses.\<close>

definition demo_node_cfg :: NodeConfig where
  "demo_node_cfg = \<lparr>ExcludeLabels = [], IncludeLabels = [], StatefulSetName = ''etcd'',
     StatefulSetNamespace = ''ns'', MinReplicas = 3, MaxReplicas = 5\<rparr>"

text \<open>
  C40: The conversion to 32 bits makes the desired count wrong exactly for limits the field
  cannot hold: under a valid configuration the count written is the intended one if and only
  if that is below \<open>2^31\<close>, and \<open>Valid\<close> does not exclude the others.
\<close>

theorem desired_exact_iff_int32:
  assumes "NodeConfig_Valid c = None" and "MaxReplicas c < 2 ^ 63"
  shows "sint (desired_replicas c cnt) = (if int cnt < MaxReplicas c then MinReplicas c else MaxReplicas c) \<longleftrightarrow>
    (if int cnt < MaxReplicas c then MinReplicas c else MaxReplicas c) < 2 ^ 31"
proof -
  let ?x = "if int cnt < MaxReplicas c then MinReplicas c else MaxReplicas c"
  have d: "desired_replicas c cnt = word_of_int ?x" by (simp add: desired_replicas_def)
  have "sint (word_of_int ?x :: 32 word) < 2 ^ 31" using sint_lt [of "word_of_int ?x :: 32 word"] by simp
  moreover have "0 < ?x" using Valid_bounds [OF assms(1)] by auto
  moreover have "sint (word_of_int ?x :: 32 word) = ?x" if "?x < 2 ^ 31"
    by (rule sint_int32) (use \<open>0 < ?x\<close> that in auto)
  ultimately show ?thesis unfolding d by auto
qed

theorem desired_exact_iff_int32_witness:
  "NodeConfig_Valid (demo_node_cfg\<lparr>MaxReplicas := 2 ^ 32 + 1\<rparr>) = None \<and>
   sint (desired_replicas (demo_node_cfg\<lparr>MaxReplicas := 2 ^ 32 + 1\<rparr>) (2 ^ 33)) \<noteq> 2 ^ 32 + 1"
proof -
  have v: "NodeConfig_Valid (demo_node_cfg\<lparr>MaxReplicas := 2 ^ 32 + 1\<rparr>) = None" by code_simp
  have "MaxReplicas (demo_node_cfg\<lparr>MaxReplicas := 2 ^ 32 + 1\<rparr>) < 2 ^ 63" by simp
  from desired_exact_iff_int32 [OF v this, of "2 ^ 33"] v show ?thesis by simp
qed

end
