(* ===== verification/Node_Scaling.thy ===== *)
theory Node_Scaling
  imports Node_Ctrl
begin

text \<open>
  The scaling controller of \<open>pkg/controller/node.go\<close> at work in a changing cluster: nodes and the
  StatefulSet change, the watches of \<open>NewNodeCtrl\<close> put requests into the work queue,
  reconciliations turn them into triggers, and the goroutine of \<open>Start\<close> lists the nodes and then
  updates the StatefulSet. Listing and updating are two steps, so that the cluster may change in
  between.
\<close>

section \<open>The cluster and the watches\<close>

text \<open>
  The API together with what it shows: the nodes by name with their labels, the StatefulSet if it
  exists, and in which states the API answers without errors.
\<close>

record ('e, 'o) kube =
  kb_api :: "('e, 'o) sts_api"
  kb_nodes :: "'e \<Rightarrow> (string \<rightharpoonup> labels)"
  kb_sts :: "'e \<Rightarrow> 'o sts option"
  kb_healthy :: "'e \<Rightarrow> bool"

definition kube_laws :: "('e, 'o) kube \<Rightarrow> bool" where
  "kube_laws kb \<longleftrightarrow>
     (\<forall>e ls. api_nodes (kb_api kb) e = Some ls \<longrightarrow>
        (\<exists>ks. distinct ks \<and> set ks = dom (kb_nodes kb e) \<and> ls = map (the \<circ> kb_nodes kb e) ks)) \<and>
     (\<forall>e. snd (api_get (kb_api kb) e) = e) \<and>
     (\<forall>e s. fst (api_get (kb_api kb) e) = StsFound s \<longrightarrow> kb_sts kb e = Some s) \<and>
     (\<forall>e. fst (api_get (kb_api kb) e) = StsNotFound \<longrightarrow> kb_sts kb e = None) \<and>
     (\<forall>e s. kb_nodes kb (snd (api_update (kb_api kb) s e)) = kb_nodes kb e) \<and>
     (\<forall>e s. fst (api_update (kb_api kb) s e) = StsUpdated \<longrightarrow>
        (\<exists>s'. kb_sts kb (snd (api_update (kb_api kb) s e)) = Some s' \<and> Replicas s' = Replicas s)) \<and>
     (\<forall>e. kb_healthy kb e \<longrightarrow> api_nodes (kb_api kb) e \<noteq> None \<and>
        fst (api_get (kb_api kb) e) = (case kb_sts kb e of None \<Rightarrow> StsNotFound | Some s \<Rightarrow> StsFound s) \<and>
        (\<forall>s. kb_sts kb e \<noteq> None \<and> Replicas s \<noteq> None \<longrightarrow> fst (api_update (kb_api kb) s e) = StsUpdated \<and>
           kb_healthy kb (snd (api_update (kb_api kb) s e))))"

record 'e scaling =
  sc_ctrl :: NodeCtrl
  sc_queue :: "string list"
  sc_syncing :: "32 word option"
  sc_lost :: bool
  sc_cluster :: 'e

text \<open>
  A change of node \<open>k\<close> from \<open>old\<close> to \<open>new\<close> becomes a request if the predicate accepts the new
  object, or the deleted one (\<open>predicate.NewPredicateFuncs\<close>). The StatefulSet's events are not
  filtered; nothing happens while it stays as it is.
\<close>

definition node_event ::
    "(labels \<Rightarrow> labels \<Rightarrow> bool) \<Rightarrow> NodeCtrl \<Rightarrow> string \<Rightarrow> labels option \<Rightarrow> labels option \<Rightarrow> string list \<Rightarrow> string list" where
  "node_event sel n k old new q =
     (case new of
        Some ls \<Rightarrow> (if node_predicate sel n ls then List.insert k q else q)
      | None \<Rightarrow> (case old of
                   Some ls \<Rightarrow> (if node_predicate sel n ls then List.insert k q else q)
                 | None \<Rightarrow> q))"

definition sts_event :: "NodeCtrl \<Rightarrow> 'o sts option \<Rightarrow> 'o sts option \<Rightarrow> string list \<Rightarrow> string list" where
  "sts_event n old new q =
     (if new = old then q
      else case sts_request (nd_config n) (StatefulSetName (nd_config n)) (StatefulSetNamespace (nd_config n)) of
             Some r \<Rightarrow> List.insert r q
           | None \<Rightarrow> q)"

section \<open>Steps\<close>

text \<open>
  A reconciliation of a queued request. \<open>sc_lost\<close> only serves the statements: since the last
  listing of the nodes, a failed read or update has been dropped (neither is ever retried).
\<close>

definition handle_request :: "string \<Rightarrow> node_get \<Rightarrow> 'e scaling \<Rightarrow> (unit, 'e scaling) gores" where
  "handle_request req got s =
     (case Node_Reconcile req got (sc_ctrl s) of
        GoOk n \<Rightarrow> GoOk (s\<lparr>sc_ctrl := n, sc_queue := remove1 req (sc_queue s),
          sc_lost := (sc_lost s \<or> req \<noteq> ''__sts__'' \<and> got = NodeGetFailed)\<rparr>)
      | GoErr e \<Rightarrow> GoErr e
      | GoPanic \<Rightarrow> GoPanic)"

text \<open>\<open>syncReplicas\<close> up to the desired count, and from the lock on.\<close>

definition list_nodes ::
    "(labels \<Rightarrow> labels \<Rightarrow> bool) \<Rightarrow> ('e, 'o) kube \<Rightarrow> 'e scaling \<Rightarrow> 'e scaling option" where
  "list_nodes sel kb s =
     (case (sc_syncing s, chan_recv (nd_trigger (sc_ctrl s))) of
        (None, Received u c) \<Rightarrow>
          (let n = (sc_ctrl s)\<lparr>nd_trigger := c\<rparr>
           in case api_nodes (kb_api kb) (sc_cluster s) of
                None \<Rightarrow> Some (s\<lparr>sc_ctrl := n, sc_lost := True\<rparr>)
              | Some ls \<Rightarrow> Some (s\<lparr>sc_ctrl := n, sc_lost := False,
                  sc_syncing := Some (desired_replicas (nd_config n) (countNodes sel n ls))\<rparr>))
      | _ \<Rightarrow> None)"

definition conclusive :: "sync_result option \<Rightarrow> bool" where
  "conclusive r \<longleftrightarrow> r \<in> {Some NoChange, Some Scaled, Some SetMissing, Some ReplicasNil}"

definition apply_sync :: "('e, 'o) kube \<Rightarrow> 'e scaling \<Rightarrow> 'e scaling option" where
  "apply_sync kb s =
     (case sc_syncing s of
        None \<Rightarrow> None
      | Some d \<Rightarrow>
          (let (r, e) = sync_loop (kb_api kb) d 3 (sc_cluster s)
           in Some (s\<lparr>sc_syncing := None, sc_cluster := e, sc_lost := (sc_lost s \<or> \<not> conclusive r),
                sc_queue := sts_event (sc_ctrl s) (kb_sts kb (sc_cluster s)) (kb_sts kb e) (sc_queue s)\<rparr>)))"

text \<open>The controller's own steps, no read being lost.\<close>

inductive scaling_work ::
    "(labels \<Rightarrow> labels \<Rightarrow> bool) \<Rightarrow> ('e, 'o) kube \<Rightarrow> 'e scaling \<Rightarrow> 'e scaling \<Rightarrow> bool"
  for sel :: "labels \<Rightarrow> labels \<Rightarrow> bool" and kb :: "('e, 'o) kube" where
  work_request: "req \<in> set (sc_queue s) \<Longrightarrow> got \<noteq> NodeGetFailed \<Longrightarrow> handle_request req got s = GoOk t \<Longrightarrow>
    scaling_work sel kb s t"
| work_list: "list_nodes sel kb s = Some t \<Longrightarrow> scaling_work sel kb s t"
| work_apply: "apply_sync kb s = Some t \<Longrightarrow> scaling_work sel kb s t"

text \<open>
  All steps. With \<open>relabel\<close> unset, an update does not turn a node that the predicate accepts
  into one that it rejects. Others may change the StatefulSet and the health of the API.
\<close>

inductive scaling_step ::
    "bool \<Rightarrow> (labels \<Rightarrow> labels \<Rightarrow> bool) \<Rightarrow> ('e, 'o) kube \<Rightarrow> 'e scaling \<Rightarrow> 'e scaling \<Rightarrow> bool"
  for relabel :: bool and sel :: "labels \<Rightarrow> labels \<Rightarrow> bool" and kb :: "('e, 'o) kube" where
  step_node: "kb_nodes kb e = (kb_nodes kb (sc_cluster s))(k := new) \<Longrightarrow> kb_sts kb e = kb_sts kb (sc_cluster s) \<Longrightarrow>
    relabel \<or> (\<forall>ls ls'. kb_nodes kb (sc_cluster s) k = Some ls \<longrightarrow> new = Some ls' \<longrightarrow>
      node_predicate sel (sc_ctrl s) ls \<longrightarrow> node_predicate sel (sc_ctrl s) ls') \<Longrightarrow>
    scaling_step relabel sel kb s
      (s\<lparr>sc_cluster := e, sc_queue := node_event sel (sc_ctrl s) k (kb_nodes kb (sc_cluster s) k) new (sc_queue s)\<rparr>)"
| step_others: "kb_nodes kb e = kb_nodes kb (sc_cluster s) \<Longrightarrow>
    scaling_step relabel sel kb s
      (s\<lparr>sc_cluster := e, sc_queue := sts_event (sc_ctrl s) (kb_sts kb (sc_cluster s)) (kb_sts kb e) (sc_queue s)\<rparr>)"
| step_request: "req \<in> set (sc_queue s) \<Longrightarrow> handle_request req got s = GoOk t \<Longrightarrow> scaling_step relabel sel kb s t"
| step_list: "list_nodes sel kb s = Some t \<Longrightarrow> scaling_step relabel sel kb s t"
| step_apply: "apply_sync kb s = Some t \<Longrightarrow> scaling_step relabel sel kb s t"

text \<open>The names of the nodes that the predicate accepts; the start, with the informers' first events.\<close>

definition accepted :: "(labels \<Rightarrow> labels \<Rightarrow> bool) \<Rightarrow> NodeCtrl \<Rightarrow> (string \<rightharpoonup> labels) \<Rightarrow> string set" where
  "accepted sel n m = {k. \<exists>ls. m k = Some ls \<and> node_predicate sel n ls}"

definition scaling_start ::
    "NodeConfig \<Rightarrow> (labels \<Rightarrow> labels \<Rightarrow> bool) \<Rightarrow> ('e, 'o) kube \<Rightarrow> 'e scaling \<Rightarrow> bool" where
  "scaling_start c sel kb s \<longleftrightarrow>
     sc_ctrl s = NewNodeCtrl c \<and> sc_syncing s = None \<and> \<not> sc_lost s \<and>
     accepted sel (NewNodeCtrl c) (kb_nodes kb (sc_cluster s)) \<subseteq> set (sc_queue s) \<and>
     (kb_sts kb (sc_cluster s) \<noteq> None \<longrightarrow> ''__sts__'' \<in> set (sc_queue s))"

section \<open>Lemmas\<close>

text \<open>Without a change in between, the two halves are \<open>syncReplicas\<close>.\<close>

lemma syncReplicas_halves:
  assumes "sc_syncing s = None" and "chan_recv (nd_trigger (sc_ctrl s)) = Received () c"
    and "api_nodes (kb_api kb) (sc_cluster s) = Some ls"
  shows "\<exists>t u. list_nodes sel kb s = Some t \<and> apply_sync kb t = Some u \<and>
    sc_cluster u = snd (syncReplicas sel (kb_api kb) ((sc_ctrl s)\<lparr>nd_trigger := c\<rparr>) (sc_cluster s))"
  using assms by (auto simp: list_nodes_def apply_sync_def syncReplicas_def Let_def split: prod.splits option.splits)

lemma predicate_config:
  "labelSelector n' = labelSelector n \<Longrightarrow> inclusive n' = inclusive n \<Longrightarrow> node_predicate sel n' = node_predicate sel n"
  by (auto simp: node_predicate_def fun_eq_iff split: option.split)

text \<open>The fields of the controller that never change, and an open trigger channel.\<close>

definition same_ctrl :: "NodeConfig \<Rightarrow> NodeCtrl \<Rightarrow> bool" where
  "same_ctrl c n \<longleftrightarrow> trigger_open (nd_trigger n) \<and> nd_config n = c \<and>
     labelSelector n = labelSelector (NewNodeCtrl c) \<and> inclusive n = inclusive (NewNodeCtrl c)"

lemma same_ctrl_predicate: "same_ctrl c n \<Longrightarrow> node_predicate sel n = node_predicate sel (NewNodeCtrl c)"
  unfolding same_ctrl_def by (intro predicate_config) simp_all

lemma same_ctrl_new: "same_ctrl c (NewNodeCtrl c)"
  by (simp add: same_ctrl_def NewNodeCtrl_def trigger_open_def make_chan_def)

lemma same_ctrl_trigger: "same_ctrl c n \<Longrightarrow> trigger_open ch \<Longrightarrow> same_ctrl c (n\<lparr>nd_trigger := ch\<rparr>)"
  by (simp add: same_ctrl_def)

lemma Node_Reconcile_open:
  assumes "trigger_open (nd_trigger n)"
  shows "Node_Reconcile req got n =
    (if req \<noteq> ''__sts__'' \<and> got = NodeGetFailed then GoOk n
     else GoOk (n\<lparr>nd_trigger := chan_offer () (nd_trigger n)\<rparr>))"
  using triggerSync_open [OF assms] by (cases got) (auto simp: Node_Reconcile_def)

lemma handle_request_cases:
  assumes "same_ctrl c (sc_ctrl s)" and "handle_request req got s = GoOk t"
  obtains (dropped) "req \<noteq> ''__sts__''" "got = NodeGetFailed" "t = s\<lparr>sc_queue := remove1 req (sc_queue s), sc_lost := True\<rparr>"
  | (triggered) "req = ''__sts__'' \<or> got \<noteq> NodeGetFailed"
      "t = s\<lparr>sc_ctrl := (sc_ctrl s)\<lparr>nd_trigger := chan_offer () (nd_trigger (sc_ctrl s))\<rparr>, sc_queue := remove1 req (sc_queue s)\<rparr>"
proof -
  have "trigger_open (nd_trigger (sc_ctrl s))" using assms(1) by (simp add: same_ctrl_def)
  note rec = Node_Reconcile_open [OF this, of req got]
  show thesis
  proof (cases "req \<noteq> ''__sts__'' \<and> got = NodeGetFailed")
    case True
    with assms(2) rec show thesis by (intro dropped) (auto simp: handle_request_def)
  next
    case False
    with assms(2) rec show thesis by (intro triggered) (auto simp: handle_request_def)
  qed
qed

lemma list_nodes_cases:
  assumes "list_nodes sel kb s = Some t"
  obtains (unlisted) ch where "sc_syncing s = None" "chan_recv (nd_trigger (sc_ctrl s)) = Received () ch"
      "api_nodes (kb_api kb) (sc_cluster s) = None" "t = s\<lparr>sc_ctrl := (sc_ctrl s)\<lparr>nd_trigger := ch\<rparr>, sc_lost := True\<rparr>"
  | (listed) ch ls where "sc_syncing s = None" "chan_recv (nd_trigger (sc_ctrl s)) = Received () ch"
      "api_nodes (kb_api kb) (sc_cluster s) = Some ls"
      "t = s\<lparr>sc_ctrl := (sc_ctrl s)\<lparr>nd_trigger := ch\<rparr>, sc_lost := False,
         sc_syncing := Some (desired_replicas (nd_config (sc_ctrl s)) (countNodes sel (sc_ctrl s) ls))\<rparr>"
proof -
  have cn: "countNodes sel (n\<lparr>nd_trigger := ch\<rparr>) ls = countNodes sel n ls" for n ch ls
    by (simp add: countNodes_def split: option.split)
  from assms show thesis
    by (auto simp: list_nodes_def Let_def cn intro: unlisted listed split: option.splits recv_result.splits)
qed

lemma apply_sync_cases:
  assumes "apply_sync kb s = Some t"
  obtains d r e where "sc_syncing s = Some d" "sync_loop (kb_api kb) d 3 (sc_cluster s) = (r, e)"
    "t = s\<lparr>sc_syncing := None, sc_cluster := e, sc_lost := (sc_lost s \<or> \<not> conclusive r),
       sc_queue := sts_event (sc_ctrl s) (kb_sts kb (sc_cluster s)) (kb_sts kb e) (sc_queue s)\<rparr>"
  using assms by (auto simp: apply_sync_def Let_def split: option.splits prod.splits)

subsection \<open>What is stored after an update\<close>

text \<open>The stored count is \<open>d\<close>, where there is a count.\<close>

definition stored_is :: "('e, 'o) kube \<Rightarrow> 32 word \<Rightarrow> 'e \<Rightarrow> bool" where
  "stored_is kb d e \<longleftrightarrow> (\<forall>s x. kb_sts kb e = Some s \<longrightarrow> Replicas s = Some x \<longrightarrow> x = d)"

lemma kube_law_get:
  assumes "kube_laws kb" and "api_get (kb_api kb) e = (g, e')"
  shows "e' = e" and "g = StsFound s \<Longrightarrow> kb_sts kb e = Some s" and "g = StsNotFound \<Longrightarrow> kb_sts kb e = None"
  using assms unfolding kube_laws_def by (metis snd_conv, metis fst_conv, metis fst_conv)

lemma kube_law_update:
  assumes "kube_laws kb" and "api_update (kb_api kb) s e = (r, e')"
  shows "kb_nodes kb e' = kb_nodes kb e"
    and "r = StsUpdated \<Longrightarrow> \<exists>s'. kb_sts kb e' = Some s' \<and> Replicas s' = Replicas s"
  using assms unfolding kube_laws_def by (metis snd_conv, metis fst_conv snd_conv)

lemma sync_attempt_nodes:
  assumes "kube_laws kb"
  shows "kb_nodes kb (snd (sync_attempt (kb_api kb) d e)) = kb_nodes kb e"
proof -
  obtain g e1 where g: "api_get (kb_api kb) e = (g, e1)" by (cases "api_get (kb_api kb) e")
  have e1: "e1 = e" by (rule kube_law_get(1) [OF assms g])
  show ?thesis using g e1 kube_law_update(1) [OF assms]
    by (auto simp: sync_attempt_def split: sts_get.split option.split prod.split sts_update.split)
qed

lemma sync_loop_nodes:
  assumes "kube_laws kb"
  shows "kb_nodes kb (snd (sync_loop (kb_api kb) d k e)) = kb_nodes kb e"
  using sync_attempt_nodes [OF assms]
  by (intro scaling.loop_invariant [where P = "\<lambda>x. kb_nodes kb x = kb_nodes kb e"]) auto

lemma sync_attempt_stored:
  assumes laws: "kube_laws kb" and run: "sync_attempt (kb_api kb) d e = (Some r, e')" and ok: "conclusive (Some r)"
  shows "stored_is kb d e'"
proof -
  obtain g e1 where g: "api_get (kb_api kb) e = (g, e1)" by (cases "api_get (kb_api kb) e")
  have e1: "e1 = e" by (rule kube_law_get(1) [OF laws g])
  show ?thesis
  proof (cases g)
    case (StsFound s)
    have now: "kb_sts kb e = Some s" using kube_law_get(2) [OF laws g] StsFound by blast
    show ?thesis
    proof (cases "Replicas s = Some d \<or> Replicas s = None")
      case True
      then have "e' = e" using run g StsFound e1 by (auto simp: sync_attempt_def)
      with True now show ?thesis by (auto simp: stored_is_def)
    next
      case False
      then obtain u where "api_update (kb_api kb) (s\<lparr>Replicas := Some d\<rparr>) e = (u, e')" "u = StsUpdated"
        using run ok g StsFound e1
        by (auto simp: sync_attempt_def conclusive_def split: option.splits prod.splits sts_update.splits if_splits)
      from kube_law_update(2) [OF laws this] show ?thesis by (auto simp: stored_is_def)
    qed
  next
    case StsNotFound
    then have "e' = e" "kb_sts kb e = None" using run g e1 kube_law_get(3) [OF laws g] by (auto simp: sync_attempt_def)
    then show ?thesis by (simp add: stored_is_def)
  next
    case StsGetFailed
    then show ?thesis using run ok g by (auto simp: sync_attempt_def conclusive_def)
  qed
qed

lemma sync_loop_stored:
  assumes "kube_laws kb" and "sync_loop (kb_api kb) d k e = (r, e')" and "conclusive r"
  shows "stored_is kb d e'"
proof -
  obtain x where "r = Some x" using assms(3) by (auto simp: conclusive_def)
  then obtain j where "sync_attempt (kb_api kb) d (attempts (sync_attempt (kb_api kb) d) j e) = (Some x, e')"
    using assms(2) by (blast dest: scaling.loop_Some)
  from sync_attempt_stored [OF assms(1) this] assms(3) \<open>r = Some x\<close> show ?thesis by blast
qed

subsection \<open>The invariant\<close>

text \<open>The count that the configuration wants for the nodes there are.\<close>

definition wanted :: "NodeConfig \<Rightarrow> (labels \<Rightarrow> labels \<Rightarrow> bool) \<Rightarrow> (string \<rightharpoonup> labels) \<Rightarrow> 32 word" where
  "wanted c sel m = desired_replicas c (card (accepted sel (NewNodeCtrl c) m))"

lemma listed_count:
  assumes "kube_laws kb" and "api_nodes (kb_api kb) e = Some ls" and "same_ctrl c n"
  shows "desired_replicas (nd_config n) (countNodes sel n ls) = wanted c sel (kb_nodes kb e)"
proof -
  let ?m = "kb_nodes kb e" and ?P = "node_predicate sel (NewNodeCtrl c)"
  obtain ks where ks: "distinct ks" "set ks = dom ?m" "ls = map (the \<circ> ?m) ks"
    using assms(1,2) unfolding kube_laws_def by blast
  have "countNodes sel n ls = length (filter ?P ls)"
    using same_ctrl_predicate [OF assms(3)] by (simp add: countNodes_filter)
  also have "\<dots> = length (filter (?P \<circ> (the \<circ> ?m)) ks)" by (simp add: ks(3) filter_map)
  also have "\<dots> = card (set (filter (?P \<circ> (the \<circ> ?m)) ks))" by (rule distinct_card [symmetric]) (simp add: ks(1))
  also have "set (filter (?P \<circ> (the \<circ> ?m)) ks) = accepted sel (NewNodeCtrl c) ?m"
    using ks(2) by (auto simp: accepted_def)
  finally show ?thesis using assms(3) by (simp add: wanted_def same_ctrl_def)
qed

definition due :: "'e scaling \<Rightarrow> bool" where
  "due s \<longleftrightarrow> sc_queue s \<noteq> [] \<or> buf (nd_trigger (sc_ctrl s)) \<noteq> [] \<or> sc_lost s"

definition scaling_inv ::
    "NodeConfig \<Rightarrow> (labels \<Rightarrow> labels \<Rightarrow> bool) \<Rightarrow> ('e, 'o) kube \<Rightarrow> 'e scaling \<Rightarrow> bool" where
  "scaling_inv c sel kb s \<longleftrightarrow> same_ctrl c (sc_ctrl s) \<and>
     (due s \<or> (let w = wanted c sel (kb_nodes kb (sc_cluster s))
       in case sc_syncing s of Some d \<Rightarrow> d = w | None \<Rightarrow> stored_is kb w (sc_cluster s)))"

lemma insert_nonempty [simp]: "List.insert x xs \<noteq> []"
  by (auto simp: List.insert_def)

lemma sts_event_own:
  "same_ctrl c n \<Longrightarrow> sts_event n old new q = (if new = old then q else List.insert ''__sts__'' q)"
  by (simp add: sts_event_def sts_request_def same_ctrl_def)

lemma stored_is_sts: "kb_sts kb e' = kb_sts kb e \<Longrightarrow> stored_is kb d e' = stored_is kb d e"
  by (simp add: stored_is_def)

lemma node_event_due:
  assumes "node_event sel n k old new q = []"
    and "\<forall>ls ls'. old = Some ls \<longrightarrow> new = Some ls' \<longrightarrow> node_predicate sel n ls \<longrightarrow> node_predicate sel n ls'"
    and "m k = old"
  shows "accepted sel n (m(k := new)) = accepted sel n m" and "q = []"
  using assms by (auto simp: node_event_def accepted_def split: option.splits if_splits)

lemma scaling_inv_start: "scaling_start c sel kb s \<Longrightarrow> scaling_inv c sel kb s"
proof -
  assume start: "scaling_start c sel kb s"
  then have "due s \<or> kb_sts kb (sc_cluster s) = None" by (auto simp: scaling_start_def due_def)
  then show ?thesis using start same_ctrl_new
    by (auto simp: scaling_inv_def scaling_start_def stored_is_def)
qed

lemma trigger_taken:
  "chan_recv ch = Received u ch' \<Longrightarrow> trigger_open ch \<Longrightarrow> trigger_open ch' \<and> length (buf ch) = Suc (length (buf ch'))"
  by (auto simp: chan_recv_def trigger_open_def split: list.splits if_splits)

lemma scaling_inv_step:
  assumes laws: "kube_laws kb" and inv: "scaling_inv c sel kb s" and step: "scaling_step False sel kb s t"
  shows "scaling_inv c sel kb t"
proof -
  have ctrl: "same_ctrl c (sc_ctrl s)" using inv by (simp add: scaling_inv_def)
  then have open_s: "trigger_open (nd_trigger (sc_ctrl s))" by (simp add: same_ctrl_def)
  from step show ?thesis
  proof cases
    case (step_node e k new)
    have pred: "node_predicate sel (sc_ctrl s) = node_predicate sel (NewNodeCtrl c)" by (rule same_ctrl_predicate [OF ctrl])
    then have acc: "accepted sel (sc_ctrl s) m = accepted sel (NewNodeCtrl c) m" for m by (simp add: accepted_def)
    show ?thesis
    proof (cases "due t")
      case True
      then show ?thesis using ctrl step_node(1) by (simp add: scaling_inv_def)
    next
      case False
      then have "node_event sel (sc_ctrl s) k (kb_nodes kb (sc_cluster s) k) new (sc_queue s) = []"
        using step_node(1) by (simp add: due_def)
      from node_event_due [OF this, of "kb_nodes kb (sc_cluster s)"] step_node(4)
      have same: "accepted sel (NewNodeCtrl c) (kb_nodes kb e) = accepted sel (NewNodeCtrl c) (kb_nodes kb (sc_cluster s))"
        and "sc_queue s = []" by (simp_all add: acc step_node(2))
      then have "\<not> due s" using False step_node(1) by (simp add: due_def)
      then show ?thesis using inv step_node(1) stored_is_sts [OF step_node(3)]
        by (simp add: scaling_inv_def wanted_def same Let_def split: option.splits)
    qed
  next
    case (step_others e)
    show ?thesis
    proof (cases "kb_sts kb e = kb_sts kb (sc_cluster s)")
      case True
      then show ?thesis using inv step_others stored_is_sts [OF True]
        by (simp add: scaling_inv_def due_def sts_event_own [OF ctrl] Let_def split: option.splits)
    next
      case False
      then show ?thesis using ctrl step_others by (simp add: scaling_inv_def due_def sts_event_own [OF ctrl])
    qed
  next
    case (step_request req got)
    from ctrl step_request(2) show ?thesis
    proof (cases rule: handle_request_cases)
      case dropped
      then show ?thesis using ctrl by (simp add: scaling_inv_def due_def)
    next
      case triggered
      then have "due t" using trigger_box.put_nonempty [OF open_s, of "()"]
        by (cases "buf (nd_trigger (sc_ctrl s))") (use open_s in \<open>auto simp: due_def chan_offer_buf trigger_open_def\<close>)
      moreover have "same_ctrl c (sc_ctrl t)"
        using triggered same_ctrl_trigger [OF ctrl trigger_box.ok_put [OF open_s]] by simp
      ultimately show ?thesis by (simp add: scaling_inv_def)
    qed
  next
    case step_list
    then show ?thesis
    proof (cases rule: list_nodes_cases)
      case (unlisted ch)
      then show ?thesis using same_ctrl_trigger [OF ctrl conjunct1 [OF trigger_taken [OF _ open_s]]]
        by (simp add: scaling_inv_def due_def)
    next
      case (listed ch ls)
      then show ?thesis using same_ctrl_trigger [OF ctrl conjunct1 [OF trigger_taken [OF _ open_s]]]
          listed_count [OF laws listed(3) ctrl] by (simp add: scaling_inv_def)
    qed
  next
    case step_apply
    then obtain d r e where a: "sc_syncing s = Some d" "sync_loop (kb_api kb) d 3 (sc_cluster s) = (r, e)"
      and t: "t = s\<lparr>sc_syncing := None, sc_cluster := e, sc_lost := (sc_lost s \<or> \<not> conclusive r),
        sc_queue := sts_event (sc_ctrl s) (kb_sts kb (sc_cluster s)) (kb_sts kb e) (sc_queue s)\<rparr>"
      by (rule apply_sync_cases)
    show ?thesis
    proof (cases "due t")
      case True
      then show ?thesis using ctrl t by (simp add: scaling_inv_def)
    next
      case False
      then have ok: "conclusive r" and "\<not> due s"
        by (auto simp: due_def t sts_event_own [OF ctrl] split: if_splits)
      then have d: "d = wanted c sel (kb_nodes kb (sc_cluster s))" using inv a(1) by (simp add: scaling_inv_def)
      have "kb_nodes kb e = kb_nodes kb (sc_cluster s)"
        using sync_loop_nodes [OF laws, of d 3 "sc_cluster s"] a(2) by simp
      then show ?thesis using sync_loop_stored [OF laws a(2) ok] d ctrl by (simp add: scaling_inv_def t)
    qed
  qed
qed

interpretation scaling_system: invariant_system
  "\<lambda>s. kube_laws kb \<and> scaling_start c sel kb s" "scaling_step False sel kb" "\<lambda>s. kube_laws kb \<and> scaling_inv c sel kb s"
  for c sel kb
  by unfold_locales (auto intro: scaling_inv_start scaling_inv_step)

subsection \<open>Progress\<close>

text \<open>Does the stored count differ from \<open>d\<close>; and how many changes of it are still to come.\<close>

definition off :: "('e, 'o) kube \<Rightarrow> 32 word \<Rightarrow> 'e \<Rightarrow> nat" where
  "off kb d e = (if stored_is kb d e then 0 else 1)"

definition changes_due :: "NodeConfig \<Rightarrow> (labels \<Rightarrow> labels \<Rightarrow> bool) \<Rightarrow> ('e, 'o) kube \<Rightarrow> 'e scaling \<Rightarrow> nat" where
  "changes_due c sel kb s =
     (let w = wanted c sel (kb_nodes kb (sc_cluster s))
      in case sc_syncing s of
           None \<Rightarrow> off kb w (sc_cluster s)
         | Some d \<Rightarrow> off kb d (sc_cluster s) + (if d = w then 0 else 1))"

definition work_left :: "NodeConfig \<Rightarrow> (labels \<Rightarrow> labels \<Rightarrow> bool) \<Rightarrow> ('e, 'o) kube \<Rightarrow> 'e scaling \<Rightarrow> nat" where
  "work_left c sel kb s = 3 * length (sc_queue s) + 2 * length (buf (nd_trigger (sc_ctrl s))) +
     (if sc_syncing s = None then 0 else 1) + 3 * changes_due c sel kb s"

lemma work_left_bound:
  assumes "same_ctrl c (sc_ctrl s)"
  shows "work_left c sel kb s \<le> 3 * length (sc_queue s) + 27"
proof -
  have "changes_due c sel kb s \<le> (if sc_syncing s = None then 1 else 2)"
    by (simp add: changes_due_def off_def Let_def split: option.split)
  moreover have "length (buf (nd_trigger (sc_ctrl s))) \<le> 10" using assms by (simp add: same_ctrl_def trigger_open_def)
  ultimately show ?thesis by (auto simp: work_left_def split: if_splits)
qed

text \<open>A synchronisation while the API is healthy: the count is stored and the nodes stay.\<close>

lemma kube_law_healthy:
  assumes "kube_laws kb" and "kb_healthy kb e"
  shows "api_nodes (kb_api kb) e \<noteq> None"
    and "api_get (kb_api kb) e = ((case kb_sts kb e of None \<Rightarrow> StsNotFound | Some s \<Rightarrow> StsFound s), e)"
    and "kb_sts kb e \<noteq> None \<Longrightarrow> Replicas s \<noteq> None \<Longrightarrow> api_update (kb_api kb) s e = (u, e') \<Longrightarrow> u = StsUpdated \<and> kb_healthy kb e'"
proof -
  have h: "api_nodes (kb_api kb) e \<noteq> None \<and>
      fst (api_get (kb_api kb) e) = (case kb_sts kb e of None \<Rightarrow> StsNotFound | Some s \<Rightarrow> StsFound s) \<and>
      (\<forall>s. kb_sts kb e \<noteq> None \<and> Replicas s \<noteq> None \<longrightarrow> fst (api_update (kb_api kb) s e) = StsUpdated \<and>
         kb_healthy kb (snd (api_update (kb_api kb) s e)))"
    using assms unfolding kube_laws_def by blast
  have g: "snd (api_get (kb_api kb) e) = e" using assms(1) unfolding kube_laws_def by blast
  show "api_nodes (kb_api kb) e \<noteq> None" using h by blast
  show "api_get (kb_api kb) e = ((case kb_sts kb e of None \<Rightarrow> StsNotFound | Some s \<Rightarrow> StsFound s), e)"
    using h g by (metis prod.collapse)
  show "kb_sts kb e \<noteq> None \<Longrightarrow> Replicas s \<noteq> None \<Longrightarrow> api_update (kb_api kb) s e = (u, e') \<Longrightarrow> u = StsUpdated \<and> kb_healthy kb e'"
    using h by (metis fst_conv snd_conv)
qed

lemma healthy_sync:
  assumes laws: "kube_laws kb" and ok: "kb_healthy kb e" and run: "sync_loop (kb_api kb) d (Suc k) e = (r, e')"
  shows "conclusive r" and "kb_healthy kb e'" and "off kb d e = 0 \<Longrightarrow> e' = e"
proof -
  have "conclusive r \<and> kb_healthy kb e' \<and> (off kb d e = 0 \<longrightarrow> e' = e)"
  proof (cases "kb_sts kb e")
    case None
    then show ?thesis using run ok kube_law_healthy(2) [OF laws ok]
      by (auto simp: sync_attempt_def conclusive_def)
  next
    case (Some s)
    have get: "api_get (kb_api kb) e = (StsFound s, e)" using kube_law_healthy(2) [OF laws ok] Some by simp
    show ?thesis
    proof (cases "Replicas s = Some d \<or> Replicas s = None")
      case True
      then show ?thesis using run ok get by (auto simp: sync_attempt_def conclusive_def)
    next
      case False
      obtain u e1 where u: "api_update (kb_api kb) (s\<lparr>Replicas := Some d\<rparr>) e = (u, e1)"
        by (cases "api_update (kb_api kb) (s\<lparr>Replicas := Some d\<rparr>) e")
      have "u = StsUpdated" "kb_healthy kb e1" using kube_law_healthy(3) [OF laws ok _ _ u] Some by simp_all
      moreover have "off kb d e = 1" using False Some by (auto simp: off_def stored_is_def)
      ultimately show ?thesis using run get False u by (auto simp: sync_attempt_def conclusive_def)
    qed
  qed
  then show "conclusive r" and "kb_healthy kb e'" and "off kb d e = 0 \<Longrightarrow> e' = e" by simp_all
qed

text \<open>Every own step leaves less work, loses nothing and keeps the nodes and the health.\<close>

definition calm :: "NodeConfig \<Rightarrow> (labels \<Rightarrow> labels \<Rightarrow> bool) \<Rightarrow> ('e, 'o) kube \<Rightarrow> (string \<rightharpoonup> labels) \<Rightarrow> 'e scaling \<Rightarrow> bool" where
  "calm c sel kb m s \<longleftrightarrow> scaling_inv c sel kb s \<and> kb_healthy kb (sc_cluster s) \<and> \<not> sc_lost s \<and>
     kb_nodes kb (sc_cluster s) = m"

lemma work_is_step: "scaling_work sel kb s t \<Longrightarrow> scaling_step relabel sel kb s t"
  by (induction rule: scaling_work.induct) (auto intro: scaling_step.intros)

lemma insert_length: "length (List.insert x xs) \<le> Suc (length xs)"
  by (simp add: List.insert_def)

lemma work_step:
  assumes laws: "kube_laws kb" and calm: "calm c sel kb m s" and work: "scaling_work sel kb s t"
  shows "calm c sel kb m t \<and> work_left c sel kb t < work_left c sel kb s"
proof -
  have inv: "scaling_inv c sel kb t"
    using scaling_inv_step [OF laws _ work_is_step [OF work]] calm by (simp add: calm_def)
  have ctrl: "same_ctrl c (sc_ctrl s)" using calm by (simp add: calm_def scaling_inv_def)
  then have open_s: "trigger_open (nd_trigger (sc_ctrl s))" by (simp add: same_ctrl_def)
  have ok: "kb_healthy kb (sc_cluster s)" using calm by (simp add: calm_def)
  from work show ?thesis
  proof cases
    case (work_request req got)
    from ctrl work_request(3) show ?thesis
    proof (cases rule: handle_request_cases)
      case dropped
      then show ?thesis using work_request(2) by simp
    next
      case triggered
      have "length (sc_queue s) = Suc (length (remove1 req (sc_queue s)))"
        using work_request(1) length_pos_if_in_set [OF work_request(1)] by (simp add: length_remove1)
      moreover have "length (buf (chan_offer () (nd_trigger (sc_ctrl s)))) \<le> Suc (length (buf (nd_trigger (sc_ctrl s))))"
        by (simp add: chan_offer_buf)
      moreover have "changes_due c sel kb t = changes_due c sel kb s"
        using triggered by (simp add: changes_due_def Let_def split: option.split)
      ultimately show ?thesis using inv calm triggered by (simp add: calm_def work_left_def)
    qed
  next
    case work_list
    then show ?thesis
    proof (cases rule: list_nodes_cases)
      case (unlisted ch)
      then show ?thesis using kube_law_healthy(1) [OF laws ok] by simp
    next
      case (listed ch ls)
      have "changes_due c sel kb t = changes_due c sel kb s"
        using listed listed_count [OF laws listed(3) ctrl] by (simp add: changes_due_def)
      then show ?thesis using inv calm listed trigger_taken [OF listed(2) open_s] by (simp add: calm_def work_left_def)
    qed
  next
    case work_apply
    then obtain d r e where a: "sc_syncing s = Some d" "sync_loop (kb_api kb) d 3 (sc_cluster s) = (r, e)"
      and t: "t = s\<lparr>sc_syncing := None, sc_cluster := e, sc_lost := (sc_lost s \<or> \<not> conclusive r),
        sc_queue := sts_event (sc_ctrl s) (kb_sts kb (sc_cluster s)) (kb_sts kb e) (sc_queue s)\<rparr>"
      by (rule apply_sync_cases)
    have three: "(3::nat) = Suc 2" by simp
    note h = healthy_sync [OF laws ok a(2) [unfolded three]]
    have nodes: "kb_nodes kb e = kb_nodes kb (sc_cluster s)"
      using sync_loop_nodes [OF laws, of d 3 "sc_cluster s"] a(2) by simp
    let ?w = "wanted c sel (kb_nodes kb (sc_cluster s))"
    have "stored_is kb d e" by (rule sync_loop_stored [OF laws a(2) h(1)])
    then have after: "off kb ?w e \<le> (if d = ?w then 0 else 1)" by (auto simp: off_def)
    have "3 * length (sc_queue t) + 3 * changes_due c sel kb t \<le> 3 * length (sc_queue s) + 3 * changes_due c sel kb s"
    proof (cases "off kb d (sc_cluster s) = 0")
      case True
      then show ?thesis using h(3) after by (simp add: t a(1) changes_due_def sts_event_def)
    next
      case False
      then have "off kb d (sc_cluster s) = 1" by (simp add: off_def split: if_splits)
      moreover have "length (sc_queue t) \<le> Suc (length (sc_queue s))"
        using insert_length [of "''__sts__''" "sc_queue s"] by (simp add: t sts_event_own [OF ctrl])
      ultimately show ?thesis using after by (simp add: t a(1) changes_due_def nodes)
    qed
    then have "work_left c sel kb t < work_left c sel kb s" by (simp add: work_left_def t a(1))
    moreover have "sc_cluster t = e" "\<not> sc_lost t" using h(1) calm by (simp_all add: t calm_def)
    ultimately show ?thesis using inv calm h(2) nodes by (simp add: calm_def)
  qed
qed

lemma work_run:
  assumes "kube_laws kb" and "calm c sel kb m s" and "(scaling_work sel kb ^^ k) s t"
  shows "calm c sel kb m t \<and> k + work_left c sel kb t \<le> work_left c sel kb s"
  using assms(3)
proof (induction k arbitrary: t)
  case 0
  then show ?case using assms(2) by simp
next
  case (Suc k)
  then obtain u where "(scaling_work sel kb ^^ k) s u" "scaling_work sel kb u t" by auto
  with Suc.IH [of u] work_step [OF assms(1), of c sel m u t] show ?case by fastforce
qed

text \<open>A state without an own step has nothing due.\<close>

lemma work_possible:
  assumes "same_ctrl c (sc_ctrl s)" and "\<nexists>t. scaling_work sel kb s t"
  shows "sc_queue s = []" and "buf (nd_trigger (sc_ctrl s)) = []" and "sc_syncing s = None"
proof -
  have o: "trigger_open (nd_trigger (sc_ctrl s))" using assms(1) by (simp add: same_ctrl_def)
  show idle: "sc_syncing s = None"
  proof (rule ccontr)
    assume "sc_syncing s \<noteq> None"
    then have "apply_sync kb s \<noteq> None" by (auto simp: apply_sync_def Let_def split: prod.splits)
    then show False using assms(2) work_apply by blast
  qed
  show "sc_queue s = []"
  proof (rule ccontr)
    assume "sc_queue s \<noteq> []"
    then have "hd (sc_queue s) \<in> set (sc_queue s)" by simp
    moreover obtain t where "handle_request (hd (sc_queue s)) NodeNotFound s = GoOk t"
      using Node_Reconcile_open [OF o, of "hd (sc_queue s)" NodeNotFound] by (simp add: handle_request_def)
    ultimately show False using assms(2) work_request [of "hd (sc_queue s)" s NodeNotFound] by blast
  qed
  show "buf (nd_trigger (sc_ctrl s)) = []"
  proof (rule ccontr)
    assume "buf (nd_trigger (sc_ctrl s)) \<noteq> []"
    then have "list_nodes sel kb s \<noteq> None" using idle
      by (cases "buf (nd_trigger (sc_ctrl s))") (auto simp: list_nodes_def chan_recv_def Let_def split: option.splits)
    then show False using assms(2) work_list by blast
  qed
qed

lemma drains:
  assumes "kube_laws kb" and "calm c sel kb m s"
  shows "\<exists>k t. (scaling_work sel kb ^^ k) s t \<and> (\<nexists>u. scaling_work sel kb t u)"
  using assms(2)
proof (induction "work_left c sel kb s" arbitrary: s rule: less_induct)
  case less
  show ?case
  proof (cases "\<exists>t. scaling_work sel kb s t")
    case True
    then obtain t where t: "scaling_work sel kb s t" by blast
    from work_step [OF assms(1) less.prems t] less.hyps [of t]
    obtain k u where "(scaling_work sel kb ^^ k) t u" "\<nexists>v. scaling_work sel kb u v" by blast
    with t have "(scaling_work sel kb ^^ Suc k) s u" by (metis relpowp_Suc_I2)
    then show ?thesis using \<open>\<nexists>v. scaling_work sel kb u v\<close> by blast
  next
    case False
    then show ?thesis by (intro exI [of _ 0]) auto
  qed
qed

section \<open>Properties\<close>


text \<open>
  A relabelling that takes a node out of the selection is not noticed: the predicate sees only the
  new labels. A controller at rest stays at rest although one node fewer counts, and the replica
  count stays that of before until some other event.
\<close>

lemma relabelled_node_unnoticed:
  assumes "\<nexists>u. scaling_work sel kb s u"
    and "kb_nodes kb (sc_cluster s) k = Some old" "node_predicate sel (sc_ctrl s) old" "\<not> node_predicate sel (sc_ctrl s) new"
    and "kb_nodes kb e = (kb_nodes kb (sc_cluster s))(k \<mapsto> new)" "kb_sts kb e = kb_sts kb (sc_cluster s)"
    and "same_ctrl c (sc_ctrl s)"
  shows "scaling_step True sel kb s (s\<lparr>sc_cluster := e\<rparr>) \<and> (\<nexists>u. scaling_work sel kb (s\<lparr>sc_cluster := e\<rparr>) u) \<and>
    accepted sel (sc_ctrl s) (kb_nodes kb e) = accepted sel (sc_ctrl s) (kb_nodes kb (sc_cluster s)) - {k}"
proof -
  note rest = work_possible [OF assms(7,1)]
  have "node_event sel (sc_ctrl s) k (Some old) (Some new) (sc_queue s) = sc_queue s"
    using assms(4) by (simp add: node_event_def)
  then have "scaling_step True sel kb s (s\<lparr>sc_cluster := e\<rparr>)"
    using step_node [of kb e s k "Some new" True sel] assms(2,5,6) by simp
  moreover have "\<not> scaling_work sel kb (s\<lparr>sc_cluster := e\<rparr>) u" for u
  proof
    assume "scaling_work sel kb (s\<lparr>sc_cluster := e\<rparr>) u"
    then show False
      by cases (use rest in \<open>auto simp: list_nodes_def apply_sync_def chan_recv_def split: recv_result.splits if_splits\<close>)
  qed
  moreover have "accepted sel (sc_ctrl s) (kb_nodes kb e) = accepted sel (sc_ctrl s) (kb_nodes kb (sc_cluster s)) - {k}"
    using assms(4,5) by (auto simp: accepted_def)
  ultimately show ?thesis by blast
qed

text \<open>One node and a StatefulSet of one replica, which comes to the minimum of three.\<close>

definition demo_kube :: "((string, labels) gomap \<times> 32 word, unit) kube" where
  "demo_kube = \<lparr>kb_api = \<lparr>api_nodes = (\<lambda>e. Some (map (the \<circ> map_of (fst e)) (remdups (map fst (fst e))))),
       api_get = (\<lambda>e. (StsFound \<lparr>Replicas = Some (snd e), sts_rest = ()\<rparr>, e)),
       api_update = (\<lambda>s e. case Replicas s of Some d \<Rightarrow> (StsUpdated, fst e, d) | None \<Rightarrow> (StsUpdateFailed, e))\<rparr>,
     kb_nodes = (\<lambda>e. map_of (fst e)), kb_sts = (\<lambda>e. Some \<lparr>Replicas = Some (snd e), sts_rest = ()\<rparr>),
     kb_healthy = (\<lambda>e. True)\<rparr>"

lemma demo_kube_laws: "kube_laws demo_kube"
proof -
  have "\<exists>ks. distinct ks \<and> set ks = dom (map_of m) \<and>
      map (the \<circ> map_of m) (remdups (map fst m)) = map (the \<circ> map_of m) ks" for m :: "(string, labels) gomap"
    by (rule exI [of _ "remdups (map fst m)"]) (simp add: dom_map_of_conv_image_fst)
  then show ?thesis by (auto simp: kube_laws_def demo_kube_def split: option.splits)
qed

definition demo_scaling :: "((string, labels) gomap \<times> 32 word) scaling" where
  "demo_scaling = \<lparr>sc_ctrl = NewNodeCtrl demo_node_cfg, sc_queue = [''n1'', ''__sts__''], sc_syncing = None,
     sc_lost = False, sc_cluster = ([(''n1'', [])], 1)\<rparr>"


end
