(* ===== verification/Go_Net.thy ===== *)
theory Go_Net
  imports Etcd_Prelude
begin

text \<open>
  What the sources use of the Go package \<open>net\<close>: \<open>net.ParseIP\<close> (which accepts a dotted IPv4
  address without leading zeros or an IPv6 address without a zone) as a parser on byte
  strings, \<open>net.JoinHostPort\<close>, and the shape tests \<open>IP.To4\<close> and \<open>IPMask.Size\<close>. Addresses are
  lists of byte values; \<open>parse_ip\<close> answers \<open>None\<close> where Go answers \<open>nil\<close>. The key usages of
  \<open>crypto/x509\<close> stand here too.
\<close>

section \<open>\<open>net.JoinHostPort\<close>\<close>

definition join_host_port :: "string \<Rightarrow> string \<Rightarrow> string" where
  "join_host_port host port =
     (if CHR '':'' \<in> set host then ''['' @ host @ '']:'' @ port else host @ '':'' @ port)"

section \<open>\<open>net.ParseIP\<close>\<close>

text \<open>
  The state of the IPv4 loop is the octets read so far, the value of the current octet and
  the number of its digits. The loop rejects an octet above 255, a leading zero, an empty
  octet and a fifth octet.
\<close>

fun parse_ipv4_fields :: "nat list \<Rightarrow> nat \<Rightarrow> nat \<Rightarrow> string \<Rightarrow> nat list option" where
  "parse_ipv4_fields done v digits [] =
     (if length done = 3 \<and> 0 < digits then Some (done @ [v]) else None)"
| "parse_ipv4_fields done v digits (c # s) =
     (if is_digit c then
        (if digits = 1 \<and> v = 0 then None
         else (let v' = v * 10 + digit_val c in
               if 255 < v' then None else parse_ipv4_fields done v' (Suc digits) s))
      else if c = CHR ''.'' then
        (if digits = 0 \<or> s = [] then None
         else if length done = 3 then None
         else parse_ipv4_fields (done @ [v]) 0 0 s)
      else None)"

definition parse_ipv4 :: "string \<Rightarrow> nat list option" where
  "parse_ipv4 s = parse_ipv4_fields [] 0 0 s"

text \<open>One hexadecimal digit; the longest run of at most four of them, more is an error.\<close>

definition hex_val :: "char \<Rightarrow> nat option" where
  "hex_val c =
     (let n = (of_char c :: nat) in
      if 48 \<le> n \<and> n \<le> 57 then Some (n - 48)
      else if 97 \<le> n \<and> n \<le> 102 then Some (n - 87)
      else if 65 \<le> n \<and> n \<le> 70 then Some (n - 55)
      else None)"

fun hex_group :: "nat \<Rightarrow> nat \<Rightarrow> string \<Rightarrow> (nat \<times> nat \<times> string) option" where
  "hex_group acc off [] = Some (acc, off, [])"
| "hex_group acc off (c # s) =
     (case hex_val c of
        None \<Rightarrow> Some (acc, off, c # s)
      | Some d \<Rightarrow> (if 3 < off then None else hex_group (16 * acc + d) (Suc off) s))"

text \<open>
  The IPv6 loop: \<open>ip\<close> holds the bytes read, \<open>ell\<close> the place of the ellipsis, \<open>s\<close> the text
  left. Each turn reads one group, so a fuel of eight groups is the loop's own bound
  \<open>i < 16\<close>: with \<open>n\<close> turns left \<open>length ip = 16 - 2 * n\<close>.
\<close>

fun parse_ipv6_loop ::
    "nat \<Rightarrow> nat list \<Rightarrow> nat option \<Rightarrow> string \<Rightarrow> (nat list \<times> nat option \<times> string) option" where
  "parse_ipv6_loop 0 ip ell s = Some (ip, ell, s)"
| "parse_ipv6_loop (Suc n) ip ell s =
     (case hex_group 0 0 s of
        None \<Rightarrow> None
      | Some (acc, off, rest) \<Rightarrow>
          if off = 0 then None
          else if rest \<noteq> [] \<and> hd rest = CHR ''.'' then
            (if ell = None \<and> length ip \<noteq> 12 then None
             else if 16 < length ip + 4 then None
             else (case parse_ipv4 s of
                     None \<Rightarrow> None
                   | Some v4 \<Rightarrow> Some (ip @ v4, ell, [])))
          else
            (let ip' = ip @ [acc div 256, acc mod 256] in
             case rest of
               [] \<Rightarrow> Some (ip', ell, [])
             | c # s1 \<Rightarrow>
                 if c \<noteq> CHR '':'' \<or> s1 = [] then None
                 else if hd s1 = CHR '':'' then
                   (if ell \<noteq> None then None
                    else if tl s1 = [] then Some (ip', Some (length ip'), [])
                    else parse_ipv6_loop n ip' (Some (length ip')) (tl s1))
                 else parse_ipv6_loop n ip' ell s1))"

definition expand_ellipsis :: "nat list \<Rightarrow> nat \<Rightarrow> nat list" where
  "expand_ellipsis ip e = take e ip @ replicate (16 - length ip) 0 @ drop e ip"

definition parse_ipv6 :: "string \<Rightarrow> nat list option" where
  "parse_ipv6 s0 =
     (let lead = (take 2 s0 = ''::'');
          s = (if lead then drop 2 s0 else s0)
      in if lead \<and> s = [] then Some (replicate 16 0)
         else (case parse_ipv6_loop 8 [] (if lead then Some 0 else None) s of
                 None \<Rightarrow> None
               | Some (ip, ell, rest) \<Rightarrow>
                   if rest \<noteq> [] then None
                   else if length ip < 16 then map_option (expand_ellipsis ip) ell
                   else if ell \<noteq> None then None
                   else Some ip))"

text \<open>
  \<open>netip.ParseAddr\<close> looks for the first of \<open>. : %\<close> to choose the parser; \<open>net.ParseIP\<close>
  rejects a zone, so any \<open>%\<close> is an error. An IPv4 address becomes its 16-byte form.
\<close>

fun parse_ip_kind :: "string \<Rightarrow> char option" where
  "parse_ip_kind [] = None"
| "parse_ip_kind (c # s) =
     (if c \<in> {CHR ''.'', CHR '':'', CHR ''%''} then Some c else parse_ip_kind s)"

definition v4_in_v6 :: "nat list \<Rightarrow> nat list" where
  "v4_in_v6 b = replicate 10 0 @ [255, 255] @ b"

definition parse_ip :: "string \<Rightarrow> nat list option" where
  "parse_ip s =
     (if CHR ''%'' \<in> set s then None
      else (case parse_ip_kind s of
              None \<Rightarrow> None
            | Some c \<Rightarrow> if c = CHR ''.'' then map_option v4_in_v6 (parse_ipv4 s) else parse_ipv6 s))"

definition is_ip :: "string \<Rightarrow> bool" where
  "is_ip s \<longleftrightarrow> parse_ip s \<noteq> None"

text \<open>\<open>IP.To4\<close> and the dotted form \<open>IP.String\<close> of an IPv4 address.\<close>

definition to4 :: "nat list \<Rightarrow> nat list option" where
  "to4 ip =
     (if length ip = 4 then Some ip
      else if length ip = 16 \<and> take 12 ip = replicate 10 0 @ [255, 255] then Some (drop 12 ip)
      else None)"

definition ipv4_string :: "nat list \<Rightarrow> string" where
  "ipv4_string b = join ''.'' (map dec b)"

section \<open>Parsing undoes printing\<close>

lemma dec_first_digit: "d < 10 \<Longrightarrow> dec d = [digit_char d]"
  by (simp add: dec.simps)

lemma digit_char_not_dot: "d < 10 \<Longrightarrow> digit_char d \<noteq> CHR ''.''"
  using digit_char_facts(2) [of d] by (auto simp: is_digit_def)

lemma parse_dec_step:
  assumes "d < 10" and "\<not> (digits = 1 \<and> v = 0)" and "v * 10 + d \<le> 255"
  shows "parse_ipv4_fields done v digits (digit_char d # s) =
    parse_ipv4_fields done (v * 10 + d) (Suc digits) s"
  using assms digit_char_facts [of d] by (auto simp: Let_def)

text \<open>An octet of one, two or three digits is read back with the number of its digits.\<close>

lemma parse_dec_octet:
  assumes "b < 256"
  shows "\<exists>k. 0 < k \<and> parse_ipv4_fields done 0 0 (dec b @ s) = parse_ipv4_fields done b k s"
proof -
  consider (one) "b < 10" | (two) "10 \<le> b" "b < 100" | (three) "100 \<le> b" by linarith
  then show ?thesis
  proof cases
    case one
    then show ?thesis by (intro exI [of _ 1]) (simp add: dec_first_digit parse_dec_step del: parse_ipv4_fields.simps)
  next
    case two
    then have d: "dec b = [digit_char (b div 10), digit_char (b mod 10)]"
      by (simp add: dec.simps [of b] dec_first_digit)
    from two have "b div 10 < 10" "b div 10 \<noteq> 0" "b mod 10 < 10" "b div 10 * 10 + b mod 10 = b"
      by auto
    with d assms show ?thesis
      by (intro exI [of _ 2]) (simp add: parse_dec_step numeral_2_eq_2 del: parse_ipv4_fields.simps)
  next
    case three
    then have d: "dec b = [digit_char (b div 100), digit_char (b div 10 mod 10), digit_char (b mod 10)]"
      using assms by (simp add: dec.simps [of b] dec.simps [of "b div 10"] dec_first_digit div_mult2_eq [symmetric])
    have hi: "b div 100 < 10" "b div 100 \<noteq> 0" using three assms by auto
    have mid: "b div 100 * 10 + b div 10 mod 10 = b div 10"
      using div_mod_decomp [of "b div 10" 10] by (simp add: div_mult2_eq [symmetric])
    have lo: "b div 10 * 10 + b mod 10 = b" by simp
    have "b div 10 \<le> 255" "b div 10 \<noteq> 0" using three assms by auto
    with hi mid lo d assms show ?thesis
      by (intro exI [of _ 3]) (simp add: parse_dec_step numeral_3_eq_3 del: parse_ipv4_fields.simps)
  qed
qed

lemma parse_octet_dot:
  assumes "b < 256" and "length done < 3" and "s \<noteq> []"
  shows "parse_ipv4_fields done 0 0 (dec b @ CHR ''.'' # s) = parse_ipv4_fields (done @ [b]) 0 0 s"
proof -
  obtain k where "0 < k"
    and "parse_ipv4_fields done 0 0 (dec b @ CHR ''.'' # s) = parse_ipv4_fields done b k (CHR ''.'' # s)"
    using parse_dec_octet [OF assms(1)] by blast
  then show ?thesis using assms by (simp add: is_digit_def)
qed

lemma parse_octet_end:
  assumes "b < 256" and "length done = 3"
  shows "parse_ipv4_fields done 0 0 (dec b) = Some (done @ [b])"
proof -
  obtain k where "0 < k" and "parse_ipv4_fields done 0 0 (dec b @ []) = parse_ipv4_fields done b k []"
    using parse_dec_octet [OF assms(1)] by blast
  then show ?thesis using assms by simp
qed

lemma parse_ipv4_string:
  assumes "a < 256" "b < 256" "c < 256" "d < 256"
  shows "parse_ipv4 (ipv4_string [a, b, c, d]) = Some [a, b, c, d]"
  using assms by (simp add: parse_ipv4_def ipv4_string_def parse_octet_dot parse_octet_end
      del: parse_ipv4_fields.simps)

lemma digits_kind: "\<forall>c \<in> set s. is_digit c \<Longrightarrow> parse_ip_kind (s @ CHR ''.'' # t) = Some CHR ''.''"
  by (induction s) (auto simp: is_digit_def)

lemma ipv4_string_chars: "c \<in> set (ipv4_string bs) \<Longrightarrow> is_digit c \<or> c = CHR ''.''"
proof -
  have "c \<in> set (join ''.'' (map dec bs)) \<Longrightarrow> is_digit c \<or> c = CHR ''.''" for bs
  proof (induction bs)
    case (Cons b bs)
    then show ?case using dec_digits [of b] by (cases bs) auto
  qed simp
  then show "c \<in> set (ipv4_string bs) \<Longrightarrow> is_digit c \<or> c = CHR ''.''"
    by (simp add: ipv4_string_def)
qed

lemma parse_ip_ipv4_string:
  assumes "a < 256" "b < 256" "c < 256" "d < 256"
  shows "parse_ip (ipv4_string [a, b, c, d]) = Some (v4_in_v6 [a, b, c, d])"
proof -
  have "CHR ''%'' \<notin> set (ipv4_string [a, b, c, d])"
    using ipv4_string_chars by (fastforce simp: is_digit_def)
  moreover have "parse_ip_kind (ipv4_string [a, b, c, d]) = Some CHR ''.''"
    using digits_kind [OF dec_digits] by (simp add: ipv4_string_def)
  ultimately show ?thesis
    using parse_ipv4_string [OF assms] by (simp add: parse_ip_def)
qed

section \<open>Key usages\<close>

text \<open>The constants of \<open>crypto/x509\<close> that the certificate templates use.\<close>

datatype key_usage = CertSign | CRLSign | DigitalSignature | KeyEncipherment
datatype ext_key_usage = ServerAuth | ClientAuth

section \<open>The process\<close>

text \<open>\<open>os.Getenv\<close>: the empty string for an unset name.\<close>

definition getenv :: "(string \<rightharpoonup> string) \<Rightarrow> string \<Rightarrow> string" where
  "getenv m k = (case m k of None \<Rightarrow> [] | Some v \<Rightarrow> v)"

text \<open>The settings of \<open>debug.ReadBuildInfo\<close>, and the loop with which both programs read them:
  revision, time, modified.\<close>

type_synonym build_info = "(string \<times> string) list option"

definition build_setting :: "string \<times> string \<Rightarrow> string \<times> string \<times> string \<Rightarrow> string \<times> string \<times> string" where
  "build_setting setting acc =
     (let (k, v) = setting; (r, t, m) = acc in
      if k = ''vcs.revision'' then (v, t, m)
      else if k = ''vcs.time'' then (r, v, m)
      else if k = ''vcs.modified'' then (r, t, v)
      else (r, t, m))"

primrec build_loop :: "(string \<times> string) list \<Rightarrow> string \<times> string \<times> string \<Rightarrow> string \<times> string \<times> string" where
  "build_loop [] acc = acc"
| "build_loop (setting # settings) acc = build_loop settings (build_setting setting acc)"

end
