(* ===== verification/Util_Tool.thy ===== *)
theory Util_Tool
  imports Etcd_Prelude
begin

text \<open>
  \<open>pkg/util/tool.go\<close> and the part of the operating system it and its callers use: a file
  system whose paths are the lists of components handed to \<open>filepath.Join\<close>, with the faults
  that \<open>os.Stat\<close>, \<open>os.ReadFile\<close> and \<open>os.RemoveAll\<close> can report.
\<close>

section \<open>Files\<close>

type_synonym path = "string list"

text \<open>
  What the operating system says of a path: nothing there, a readable file with its bytes, a
  file whose bytes cannot be read, a directory, or an \<open>os.Stat\<close> that fails with an error
  other than ``does not exist'' (a missing permission on a parent, an I/O error).
\<close>

datatype fnode = Absent | RegFile string | LockedFile | Directory | StatFails

text \<open>\<open>sticky\<close> holds of the paths on which \<open>os.RemoveAll\<close> fails and leaves everything.\<close>

record fsys =
  node :: "path \<Rightarrow> fnode"
  sticky :: "path \<Rightarrow> bool"

definition remove_all :: "path \<Rightarrow> fsys \<Rightarrow> fsys" where
  "remove_all p f =
     (if sticky f p then f else f\<lparr>node := (\<lambda>q. if prefix p q then Absent else node f q)\<rparr>)"

definition read_file :: "fsys \<Rightarrow> path \<Rightarrow> string option" where
  "read_file f p = (case node f p of RegFile c \<Rightarrow> Some c | _ \<Rightarrow> None)"

text \<open>\<open>FileExists\<close>: anything but ``does not exist'' counts as existing.\<close>

definition FileExists :: "fsys \<Rightarrow> path \<Rightarrow> bool" where
  "FileExists f p \<longleftrightarrow> node f p \<noteq> Absent"

text \<open>
  \<open>DirExists\<close> looks at \<open>info.IsDir()\<close> whenever the error is not ``does not exist''. When
  \<open>os.Stat\<close> failed for another reason \<open>info\<close> is \<open>nil\<close> and the call panics.
\<close>

definition DirExists :: "fsys \<Rightarrow> path \<Rightarrow> ('e, bool) gores" where
  "DirExists f p =
     (case node f p of
        Absent \<Rightarrow> GoOk False
      | StatFails \<Rightarrow> GoPanic
      | Directory \<Rightarrow> GoOk True
      | RegFile _ \<Rightarrow> GoOk False
      | LockedFile \<Rightarrow> GoOk False)"

lemma DirExists_simps [simp]:
  "node f p = Absent \<Longrightarrow> DirExists f p = GoOk False"
  "node f p = Directory \<Longrightarrow> DirExists f p = GoOk True"
  "node f p = StatFails \<Longrightarrow> DirExists f p = GoPanic"
  by (simp_all add: DirExists_def)

lemma DirExists_cases:
  obtains (yes) "(DirExists f p :: ('e, bool) gores) = GoOk True" "node f p = Directory"
  | (no) "(DirExists f p :: ('e, bool) gores) = GoOk False" "node f p \<noteq> Directory" "node f p \<noteq> StatFails"
  | (panic) "(DirExists f p :: ('e, bool) gores) = GoPanic" "node f p = StatFails"
  by (cases "node f p") (auto simp: DirExists_def)

lemma remove_all_below [simp]:
  "\<not> sticky f p \<Longrightarrow> prefix p q \<Longrightarrow> node (remove_all p f) q = Absent"
  by (simp add: remove_all_def)

lemma remove_all_other [simp]: "\<not> prefix p q \<Longrightarrow> node (remove_all p f) q = node f q"
  by (simp add: remove_all_def)

lemma remove_all_sticky [simp]: "sticky (remove_all p f) = sticky f"
  by (simp add: remove_all_def)

section \<open>Numbers\<close>

text \<open>\<open>strconv.Atoi\<close> with the 64-bit \<open>int\<close>: an optional sign, digits, a value in range.\<close>

definition atoi_digits :: "bool \<Rightarrow> string \<Rightarrow> int option" where
  "atoi_digits neg ds =
     (if ds = [] \<or> \<not> list_all is_digit ds then None
      else (let v = int (dec_val ds) in
            if neg then (if v \<le> 2 ^ 63 then Some (- v) else None)
            else (if v < 2 ^ 63 then Some v else None)))"

definition atoi :: "string \<Rightarrow> int option" where
  "atoi s =
     (case s of
        [] \<Rightarrow> None
      | c # ds \<Rightarrow>
          if c = CHR ''-'' then atoi_digits True ds
          else if c = CHR ''+'' then atoi_digits False ds
          else atoi_digits False s)"

definition MustAtoi :: "string \<Rightarrow> ('e, int) gores" where
  "MustAtoi s = (case atoi s of None \<Rightarrow> GoPanic | Some i \<Rightarrow> GoOk i)"

definition Min_int :: "int \<Rightarrow> int \<Rightarrow> int" where
  "Min_int a b = (if a < b then a else b)"

lemma Min_int_min [simp]: "Min_int a b = min a b"
  by (simp add: Min_int_def)

lemma atoi_range: "atoi s = Some i \<Longrightarrow> - (2 ^ 63) \<le> i \<and> i < 2 ^ 63"
  by (auto simp: atoi_def atoi_digits_def Let_def split: list.splits if_splits)

lemma dec_first_is_digit: "dec n = c # ds \<Longrightarrow> is_digit c"
  using dec_digits [of n] by simp

lemma atoi_dec: "int n < 2 ^ 63 \<Longrightarrow> atoi (dec n) = Some (int n)"
proof -
  assume n: "int n < 2 ^ 63"
  obtain c ds where d: "dec n = c # ds" by (cases "dec n") auto
  have "is_digit c" by (rule dec_first_is_digit [OF d])
  then have "c \<noteq> CHR ''-''" "c \<noteq> CHR ''+''" by (auto simp: is_digit_def)
  moreover have "list_all is_digit (dec n)" using dec_digits by (simp add: list_all_iff)
  ultimately show ?thesis
    using n d dec_val_dec [of n] by (simp add: atoi_def atoi_digits_def)
qed

lemma MustAtoi_dec: "int n < 2 ^ 63 \<Longrightarrow> MustAtoi (dec n) = GoOk (int n)"
  by (simp add: MustAtoi_def atoi_dec)

end
