(* ===== verification/Discovery.thy ===== *)
theory Discovery
  imports Go_Net Util_Tool
begin

text \<open>
  \<open>pkg/cluster/discovery.go\<close>: reading the node-IP directory and classifying every node as
  ready, not ready, unreachable or dead. The network and the etcd client are parameters (the
  record \<open>probe\<close>), constant during one discovery. Goroutines deliver their results in an
  unspecified order, which is the order of the lists below; the lemmas show that the result
  does not depend on it.
\<close>

section \<open>Health of an endpoint\<close>

datatype EndpointHealth = HealthUnreachable | HealthHealthy | HealthNotReady

text \<open>``Healthy > NotReady > Unreachable'', the order the doc comment uses.\<close>

fun health_rank :: "EndpointHealth \<Rightarrow> nat" where
  "health_rank HealthUnreachable = 0"
| "health_rank HealthNotReady = 1"
| "health_rank HealthHealthy = 2"

instantiation EndpointHealth :: linorder
begin

definition less_eq_EndpointHealth :: "EndpointHealth \<Rightarrow> EndpointHealth \<Rightarrow> bool" where
  "less_eq_EndpointHealth a b \<longleftrightarrow> health_rank a \<le> health_rank b"

definition less_EndpointHealth :: "EndpointHealth \<Rightarrow> EndpointHealth \<Rightarrow> bool" where
  "less_EndpointHealth a b \<longleftrightarrow> health_rank a < health_rank b"

instance
proof
  fix x y :: EndpointHealth
  show "x \<le> y \<Longrightarrow> y \<le> x \<Longrightarrow> x = y"
    by (cases x; cases y) (simp_all add: less_eq_EndpointHealth_def)
qed (auto simp: less_eq_EndpointHealth_def less_EndpointHealth_def)

end

text \<open>The outcome of \<open>client.Get(ctx, "health")\<close> as far as the code looks at it.\<close>

datatype get_result = GetOk | GetPermissionDenied | GetFailed

text \<open>
  What one probe of an endpoint finds: does the TCP dial connect, does \<open>etcdcli.New\<close> succeed,
  the outcome of \<open>Get\<close>, and the number of alarms (\<open>None\<close>: \<open>AlarmList\<close> failed).
\<close>

record probe =
  tcp_dial :: "string \<Rightarrow> bool"
  client_new :: "string \<Rightarrow> bool"
  client_get :: "string \<Rightarrow> get_result"
  alarm_list :: "string \<Rightarrow> nat option"

definition checkSingleEndpoint :: "probe \<Rightarrow> string \<Rightarrow> EndpointHealth" where
  "checkSingleEndpoint pr ep =
     (if \<not> tcp_dial pr ep then HealthUnreachable
      else if \<not> client_new pr ep then HealthNotReady
      else if client_get pr ep = GetOk \<or> client_get pr ep = GetPermissionDenied then
        (if alarm_list pr ep = Some 0 then HealthHealthy else HealthNotReady)
      else HealthNotReady)"

text \<open>
  The HTTP probe, which nothing calls any more: \<open>request_ok\<close> tells whether the request could be
  built for the URL, \<open>http_get\<close> the status code of its answer (\<open>None\<close>: no answer).
\<close>

definition CheckReadyz :: "(string \<Rightarrow> bool) \<Rightarrow> (string \<Rightarrow> nat option) \<Rightarrow> string \<Rightarrow> bool" where
  "CheckReadyz request_ok http_get ipport =
     (let url = ''https://'' @ ipport @ ''/readyz'' in
      if \<not> request_ok url then False
      else (case http_get url of None \<Rightarrow> False | Some statusCode \<Rightarrow> (if statusCode = 200 then True else False)))"

text \<open>The receive loop of \<open>checkEndpointHealth\<close> over the results in arrival order.\<close>

fun collect_health :: "EndpointHealth \<Rightarrow> EndpointHealth list \<Rightarrow> EndpointHealth" where
  "collect_health best [] = best"
| "collect_health best (h # hs) =
     (if h = HealthHealthy then HealthHealthy
      else collect_health (if h = HealthNotReady then HealthNotReady else best) hs)"

definition checkEndpointHealth :: "probe \<Rightarrow> string list \<Rightarrow> string \<Rightarrow> EndpointHealth" where
  "checkEndpointHealth pr iplist clientPort =
     (if iplist = [] then HealthUnreachable
      else collect_health HealthUnreachable
             (map (\<lambda>ip. checkSingleEndpoint pr (join_host_port ip clientPort)) iplist))"

lemma checkSingleEndpoint_healthy:
  "checkSingleEndpoint pr ep = HealthHealthy \<longleftrightarrow>
     tcp_dial pr ep \<and> client_new pr ep \<and> client_get pr ep \<noteq> GetFailed \<and> alarm_list pr ep = Some 0"
  by (cases "client_get pr ep") (simp_all add: checkSingleEndpoint_def)

lemma checkSingleEndpoint_unreachable:
  "checkSingleEndpoint pr ep = HealthUnreachable \<longleftrightarrow> \<not> tcp_dial pr ep"
  by (simp add: checkSingleEndpoint_def)

lemma health_max [simp]:
  "max HealthHealthy h = HealthHealthy" "max h HealthHealthy = HealthHealthy"
  "max HealthUnreachable h = h" "max h HealthUnreachable = h" "max h h = (h :: EndpointHealth)"
  by (cases h; simp add: max_def less_eq_EndpointHealth_def)+

lemma collect_health_fold:
  "best \<noteq> HealthHealthy \<Longrightarrow> collect_health best hs = fold max hs best"
proof (induction hs arbitrary: best)
  case Nil
  then show ?case by simp
next
  case (Cons h hs)
  have sat: "fold max hs HealthHealthy = HealthHealthy" for hs
    by (induction hs) auto
  show ?case
  proof (cases h)
    case HealthNotReady
    with Cons show ?thesis by (cases best) auto
  qed (use Cons sat in auto)
qed

text \<open>The best status among the addresses, whatever the order of arrival.\<close>

lemma checkEndpointHealth_Max:
  assumes "iplist \<noteq> []"
  shows "checkEndpointHealth pr iplist port =
    Max (set (map (\<lambda>ip. checkSingleEndpoint pr (join_host_port ip port)) iplist))"
proof -
  have fold_max: "fold max hs h = Max (insert h (set hs))" for h :: EndpointHealth and hs
    using Max.set_eq_fold [of h hs] by simp
  have drop: "Max (insert HealthUnreachable S) = Max S" if "S \<noteq> {}" "finite S" for S
    using that by simp
  show ?thesis
    using assms by (simp add: checkEndpointHealth_def collect_health_fold fold_max drop)
qed

lemma checkEndpointHealth_set:
  assumes "set ips = set ips'"
  shows "checkEndpointHealth pr ips port = checkEndpointHealth pr ips' port"
proof (cases "ips = []")
  case True
  with assms show ?thesis by simp
next
  case False
  with assms have "ips' \<noteq> []" by auto
  with False assms show ?thesis by (simp add: checkEndpointHealth_Max)
qed

section \<open>The node-IP directory\<close>

definition readIPFile :: "fsys \<Rightarrow> string \<Rightarrow> string \<Rightarrow> string list option" where
  "readIPFile f nodeIPDir ip =
     (if \<not> FileExists f [nodeIPDir, ip] then Some [ip]
      else (case read_file f [nodeIPDir, ip] of
              None \<Rightarrow> None
            | Some content \<Rightarrow> Some (split_on CHR '','' (trim_space content))))"

lemma readIPFile_nonempty: "readIPFile f d ip = Some ips \<Longrightarrow> ips \<noteq> []"
  by (auto simp: readIPFile_def split: if_splits option.splits)

lemma join_chars: "c \<in> set (join sep xs) \<Longrightarrow> c \<in> set sep \<or> (\<exists>x \<in> set xs. c \<in> set x)"
  by (induction sep xs rule: join.induct) auto

lemma readIPFile_join:
  assumes "node f [d, ip] = RegFile (join '','' ips)" and "ips \<noteq> []"
    and "\<forall>x \<in> set ips. \<forall>c \<in> set x. c \<noteq> CHR '','' \<and> \<not> is_space c"
  shows "readIPFile f d ip = Some ips"
proof -
  have "\<forall>c \<in> set (join '','' ips). \<not> is_space c"
  proof
    fix c assume "c \<in> set (join '','' ips)"
    then have "c \<in> set '','' \<or> (\<exists>x \<in> set ips. c \<in> set x)" by (rule join_chars)
    moreover have "\<not> is_space CHR '',''" by (simp add: is_space_def)
    ultimately show "\<not> is_space c" using assms(3) by auto
  qed
  then have "trim_space (join '','' ips) = join '','' ips" by (rule trim_space_id)
  moreover have "split_on CHR '','' (join '','' ips) = ips"
    using assms(2,3) by (intro split_on_join) auto
  ultimately show ?thesis
    using assms(1) by (simp add: readIPFile_def FileExists_def read_file_def)
qed

section \<open>Discovery\<close>

record DiscoveryConfig =
  dc_Prefix :: string
  dc_MaxNodes :: int
  dc_MyIndex :: int
  dc_ClientPort :: string
  dc_Namespace :: string
  dc_ServiceName :: string
  dc_NodeIPDir :: string
  dc_Labels :: string
  dc_CertFile :: string
  dc_KeyFile :: string

record EndpointInfo =
  ReadyNodes :: "(string, string list) gomap"
  NotReadyNodes :: "string set"
  DeadNames :: "string set"

record dirent =
  ent_name :: string
  ent_isdir :: bool

text \<open>
  The surroundings of a discovery: files, directory listings (\<open>None\<close>: \<open>os.ReadDir\<close> fails),
  whether \<open>tls.LoadX509KeyPair\<close> accepts a pair of files, and the network.
\<close>

record disc_env =
  files :: fsys
  listing :: "string \<Rightarrow> dirent list option"
  key_pair :: "string \<Rightarrow> string \<Rightarrow> bool"
  network :: probe

datatype disc_error = LoadTLSFailed | ReadDirFailed string

definition no_info :: EndpointInfo where
  "no_info = \<lparr>ReadyNodes = [], NotReadyNodes = {}, DeadNames = {}\<rparr>"

definition loadTLSConfig :: "disc_env \<Rightarrow> string \<Rightarrow> string \<Rightarrow> disc_error option" where
  "loadTLSConfig e certFile keyFile = (if key_pair e certFile keyFile then None else Some LoadTLSFailed)"

text \<open>The names a goroutine is started for: no directory, parses as an IP address.\<close>

definition candidates :: "dirent list \<Rightarrow> string list" where
  "candidates entries = filter is_ip (map ent_name (filter (\<lambda>x. \<not> ent_isdir x) entries))"

text \<open>One goroutine of the loop, from reading its file to its update under the mutex.\<close>

definition discover_one :: "disc_env \<Rightarrow> DiscoveryConfig \<Rightarrow> string \<Rightarrow> EndpointInfo \<Rightarrow> EndpointInfo" where
  "discover_one e cfg masterIP info =
     (case readIPFile (files e) (dc_NodeIPDir cfg) masterIP of
        None \<Rightarrow> info\<lparr>DeadNames := insert masterIP (DeadNames info)\<rparr>
      | Some ips \<Rightarrow>
          (case checkEndpointHealth (network e) ips (dc_ClientPort cfg) of
             HealthHealthy \<Rightarrow> info\<lparr>ReadyNodes := AList.update masterIP ips (ReadyNodes info)\<rparr>
           | HealthNotReady \<Rightarrow> info\<lparr>NotReadyNodes := insert masterIP (NotReadyNodes info)\<rparr>
           | HealthUnreachable \<Rightarrow> info))"

text \<open>\<open>order\<close> arranges the goroutines in the order in which they take the mutex.\<close>

definition DiscoverEndpoints ::
    "(string list \<Rightarrow> string list) \<Rightarrow> disc_env \<Rightarrow> DiscoveryConfig \<Rightarrow> disc_error + EndpointInfo" where
  "DiscoverEndpoints order e cfg =
     (case loadTLSConfig e (dc_CertFile cfg) (dc_KeyFile cfg) of
        Some err \<Rightarrow> Inl err
      | None \<Rightarrow>
          (case listing e (dc_NodeIPDir cfg) of
             None \<Rightarrow> Inl (ReadDirFailed (dc_NodeIPDir cfg))
           | Some entries \<Rightarrow>
               (if entries = [] then Inr no_info
                else Inr (fold (discover_one e cfg) (order (candidates entries)) no_info))))"

text \<open>The class of one node, independent of the order.\<close>

datatype node_class = NodeReady "string list" | NodeNotReady | NodeUnreachable | NodeDead

definition classify :: "disc_env \<Rightarrow> DiscoveryConfig \<Rightarrow> string \<Rightarrow> node_class" where
  "classify e cfg m =
     (case readIPFile (files e) (dc_NodeIPDir cfg) m of
        None \<Rightarrow> NodeDead
      | Some ips \<Rightarrow>
          (case checkEndpointHealth (network e) ips (dc_ClientPort cfg) of
             HealthHealthy \<Rightarrow> NodeReady ips
           | HealthNotReady \<Rightarrow> NodeNotReady
           | HealthUnreachable \<Rightarrow> NodeUnreachable))"

lemma discover_one_class:
  "discover_one e cfg m info =
     (case classify e cfg m of
        NodeReady ips \<Rightarrow> info\<lparr>ReadyNodes := AList.update m ips (ReadyNodes info)\<rparr>
      | NodeNotReady \<Rightarrow> info\<lparr>NotReadyNodes := insert m (NotReadyNodes info)\<rparr>
      | NodeUnreachable \<Rightarrow> info
      | NodeDead \<Rightarrow> info\<lparr>DeadNames := insert m (DeadNames info)\<rparr>)"
  by (simp add: discover_one_def classify_def split: option.split EndpointHealth.split)

lemma discover_fold_ready:
  "map_of (ReadyNodes (fold (discover_one e cfg) ms info)) k =
    (case classify e cfg k of
       NodeReady ips \<Rightarrow> if k \<in> set ms then Some ips else map_of (ReadyNodes info) k
     | _ \<Rightarrow> map_of (ReadyNodes info) k)"
proof (induction ms arbitrary: info k)
  case Nil
  then show ?case by (simp split: node_class.split)
next
  case (Cons m ms)
  show ?case
    by (cases "classify e cfg m"; cases "k = m")
      (simp_all add: Cons.IH discover_one_class [of e cfg m info] update_conv' split: node_class.split)
qed

lemma discover_fold_sets:
  "NotReadyNodes (fold (discover_one e cfg) ms info) =
    NotReadyNodes info \<union> {m \<in> set ms. classify e cfg m = NodeNotReady}"
  "DeadNames (fold (discover_one e cfg) ms info) =
    DeadNames info \<union> {m \<in> set ms. classify e cfg m = NodeDead}"
proof (induction ms arbitrary: info)
  case (Cons m ms)
  { case 1 show ?case
      by (cases "classify e cfg m") (auto simp: Cons.IH discover_one_class [of e cfg m info]) }
  { case 2 show ?case
      by (cases "classify e cfg m") (auto simp: Cons.IH discover_one_class [of e cfg m info]) }
qed simp_all

lemma discover_fold_wf:
  "gowf (ReadyNodes info) \<Longrightarrow> gowf (ReadyNodes (fold (discover_one e cfg) ms info))"
proof (induction ms arbitrary: info)
  case (Cons m ms)
  then show ?case
    by (cases "classify e cfg m") (simp_all add: discover_one_class [of e cfg m info])
qed simp

text \<open>Characterisation of a successful discovery for any completion order.\<close>

lemma DiscoverEndpoints_spec:
  assumes ok: "DiscoverEndpoints order e cfg = Inr info"
    and order: "\<And>xs. set (order xs) = set xs"
  obtains entries where "listing e (dc_NodeIPDir cfg) = Some entries"
    and "gowf (ReadyNodes info)"
    and "\<And>m ips. map_of (ReadyNodes info) m = Some ips \<longleftrightarrow>
      m \<in> set (candidates entries) \<and> classify e cfg m = NodeReady ips"
    and "NotReadyNodes info = {m \<in> set (candidates entries). classify e cfg m = NodeNotReady}"
    and "DeadNames info = {m \<in> set (candidates entries). classify e cfg m = NodeDead}"
proof -
  from ok obtain entries where l: "listing e (dc_NodeIPDir cfg) = Some entries"
    and info: "info = (if entries = [] then no_info
      else fold (discover_one e cfg) (order (candidates entries)) no_info)"
    by (auto simp: DiscoverEndpoints_def split: option.splits if_splits)
  have "order [] = []" using order [of "[]"] by simp
  then have info': "info = fold (discover_one e cfg) (order (candidates entries)) no_info"
    using info by (simp add: candidates_def)
  show thesis
  proof (rule that [OF l])
    show "gowf (ReadyNodes info)"
      unfolding info' by (rule discover_fold_wf) (simp add: no_info_def)
    show "map_of (ReadyNodes info) m = Some ips \<longleftrightarrow>
        m \<in> set (candidates entries) \<and> classify e cfg m = NodeReady ips" for m ips
      unfolding info' discover_fold_ready order
      by (simp add: no_info_def split: node_class.split)
  qed (simp_all add: info' discover_fold_sets no_info_def order)
qed

section \<open>Strings built from discovered addresses\<close>

definition peer_url :: "string \<Rightarrow> string \<Rightarrow> string" where
  "peer_url ip port = ''https://'' @ ip @ '':'' @ port"

fun BuildPeerEndpoints :: "(string, string list) gomap \<Rightarrow> string \<Rightarrow> bool \<Rightarrow> bool \<Rightarrow> string list" where
  "BuildPeerEndpoints [] port withName withScheme = []"
| "BuildPeerEndpoints ((k, iplist) # rest) port withName withScheme =
     map (\<lambda>ip. let ip' = (if withScheme then ''https://'' @ ip else ip) in
                if withName then k @ ''='' @ ip' @ '':'' @ port else ip' @ '':'' @ port) iplist
     @ BuildPeerEndpoints rest port withName withScheme"

text \<open>The addresses of all ready nodes, each once; the slice's order is unspecified.\<close>

definition GetAllDiscoveredIPs :: "EndpointInfo \<Rightarrow> string set" where
  "GetAllDiscoveredIPs info = (\<Union>(m, ips) \<in> set (ReadyNodes info). set ips)"

section \<open>Properties\<close>

text \<open>
  The health of a node is the best health among its addresses (healthy over not ready
  over unreachable), however the probes' results arrive.
\<close>

lemma health_is_best_status:
  assumes "iplist \<noteq> []" and "set arrived = set iplist"
  shows "checkEndpointHealth pr arrived port =
    Max ((\<lambda>ip. checkSingleEndpoint pr (join_host_port ip port)) ` set iplist)"
proof -
  have "arrived \<noteq> []" using assms by auto
  then show ?thesis using assms(2) by (simp add: checkEndpointHealth_Max)
qed

definition demo_probe :: probe where
  "demo_probe = \<lparr>tcp_dial = (\<lambda>ep. ep \<noteq> ''[::1]:2479''), client_new = (\<lambda>ep. True),
     client_get = (\<lambda>ep. if ep = ''10.0.0.1:2479'' then GetOk else GetFailed), alarm_list = (\<lambda>ep. Some 0)\<rparr>"

text \<open>
  C25: A successful discovery puts every entry of the node-IP directory that is an IP address
  in exactly the class its file and its probes give: \<open>ReadyNodes\<close> with the addresses of its
  file, \<open>NotReadyNodes\<close>, \<open>DeadNames\<close> (and that only when its file cannot be read), or none of
  them when it is unreachable; the order in which the goroutines finish does not matter.
\<close>

theorem discovery_classifies_nodes:
  assumes "DiscoverEndpoints order e cfg = Inr info" and "\<forall>xs. set (order xs) = set xs"
    and "listing e (dc_NodeIPDir cfg) = Some entries" and "m \<in> set (candidates entries)"
  shows "map_of (ReadyNodes info) m =
      (case classify e cfg m of NodeReady ips \<Rightarrow> Some ips | _ \<Rightarrow> None) \<and>
    (m \<in> NotReadyNodes info \<longleftrightarrow> classify e cfg m = NodeNotReady) \<and>
    (m \<in> DeadNames info \<longleftrightarrow> classify e cfg m = NodeDead) \<and>
    (classify e cfg m = NodeDead \<longleftrightarrow>
      FileExists (files e) [dc_NodeIPDir cfg, m] \<and> read_file (files e) [dc_NodeIPDir cfg, m] = None)"
proof (rule DiscoverEndpoints_spec [OF assms(1)])
  show "set (order xs) = set xs" for xs using assms(2) by simp
next
  fix es
  assume "listing e (dc_NodeIPDir cfg) = Some es"
  then have [simp]: "es = entries" using assms(3) by simp
  assume ready: "\<And>m ips. map_of (ReadyNodes info) m = Some ips \<longleftrightarrow>
      m \<in> set (candidates es) \<and> classify e cfg m = NodeReady ips"
    and sets: "NotReadyNodes info = {m \<in> set (candidates es). classify e cfg m = NodeNotReady}"
      "DeadNames info = {m \<in> set (candidates es). classify e cfg m = NodeDead}"
  have "map_of (ReadyNodes info) m = None" if "\<And>ips. classify e cfg m \<noteq> NodeReady ips"
    using that ready [of m] by (cases "map_of (ReadyNodes info) m") auto
  then have "map_of (ReadyNodes info) m = (case classify e cfg m of NodeReady ips \<Rightarrow> Some ips | _ \<Rightarrow> None)"
    using ready [of m] assms(4) by (cases "classify e cfg m") auto
  moreover have "classify e cfg m = NodeDead \<longleftrightarrow>
      FileExists (files e) [dc_NodeIPDir cfg, m] \<and> read_file (files e) [dc_NodeIPDir cfg, m] = None"
    by (auto simp: classify_def readIPFile_def split: option.splits EndpointHealth.splits)
  ultimately show ?thesis using sets assms(4) by simp
qed

definition demo_env :: disc_env where
  "demo_env = \<lparr>files = \<lparr>node = (\<lambda>p. if p = [''/d'', ''10.0.0.3''] then LockedFile
       else if p = [''/d'', ''10.0.0.7''] then RegFile ''10.0.0.1,10.0.0.2'' else Absent), sticky = (\<lambda>p. False)\<rparr>,
     listing = (\<lambda>d. Some [\<lparr>ent_name = ''10.0.0.7'', ent_isdir = False\<rparr>, \<lparr>ent_name = ''x'', ent_isdir = False\<rparr>,
       \<lparr>ent_name = ''10.0.0.3'', ent_isdir = False\<rparr>]),
     key_pair = (\<lambda>c k. True), network = demo_probe\<rparr>"

definition demo_cfg :: DiscoveryConfig where
  "demo_cfg = \<lparr>dc_Prefix = [], dc_MaxNodes = 3, dc_MyIndex = 0, dc_ClientPort = ''2479'',
     dc_Namespace = [], dc_ServiceName = [], dc_NodeIPDir = ''/d'', dc_Labels = [],
     dc_CertFile = [], dc_KeyFile = []\<rparr>"

theorem discovery_classifies_nodes_witness:
  "\<exists>info. DiscoverEndpoints rev demo_env demo_cfg = Inr info \<and>
     ''10.0.0.3'' \<in> DeadNames info \<and>
     map_of (ReadyNodes info) ''10.0.0.7'' = Some [''10.0.0.1'', ''10.0.0.2'']"
proof -
  obtain es where l: "listing demo_env (dc_NodeIPDir demo_cfg) = Some es"
    and es: "es = [\<lparr>ent_name = ''10.0.0.7'', ent_isdir = False\<rparr>, \<lparr>ent_name = ''x'', ent_isdir = False\<rparr>,
       \<lparr>ent_name = ''10.0.0.3'', ent_isdir = False\<rparr>]"
    by (simp add: demo_env_def)
  have c: "candidates es = [''10.0.0.7'', ''10.0.0.3'']" unfolding es by code_simp
  obtain info where ok: "DiscoverEndpoints rev demo_env demo_cfg = Inr info"
    using l es by (simp add: DiscoverEndpoints_def loadTLSConfig_def demo_env_def)
  have a: "classify demo_env demo_cfg ''10.0.0.3'' = NodeDead" by code_simp
  have b: "classify demo_env demo_cfg ''10.0.0.7'' = NodeReady [''10.0.0.1'', ''10.0.0.2'']" by code_simp
  have perm: "\<forall>xs. set (rev xs) = set (xs :: string list)" by simp
  show ?thesis
    using ok discovery_classifies_nodes [OF ok perm l, of "''10.0.0.3''"]
      discovery_classifies_nodes [OF ok perm l, of "''10.0.0.7''"] a b c by auto
qed

end
