(* ===== verification/Membership.thy ===== *)
theory Membership
  imports Discovery
begin

text \<open>
  \<open>pkg/cluster/manager.go\<close>, the part that initialises a cluster or joins one: recognising the
  own member, removing dead members, choosing between a learner and a voting member, promoting
  a learner, starting etcd. The state is the \<open>world\<close>: environment variables, files, started
  processes, the etcd cluster behind the client (an arbitrary type) and the log of the
  cluster-changing calls made so far, which only the statements use. The etcd client is a
  parameter (the record \<open>etcd_api\<close>): every operation answers as it likes and may change the
  cluster's state.
\<close>

section \<open>State\<close>

type_synonym member_id = "64 word"

record member =
  m_ID :: member_id
  m_Name :: string
  m_PeerURLs :: "string list"
  m_IsLearner :: bool

record add_resp =
  ar_ID :: member_id
  ar_Members :: "member list"

text \<open>\<open>False\<close> or \<open>None\<close> is an error of the call. \<open>api_started\<close> is what a started etcd process
  does to the cluster, given its environment.\<close>

record 'e etcd_api =
  api_list :: "'e \<Rightarrow> member list option \<times> 'e"
  api_remove :: "member_id \<Rightarrow> 'e \<Rightarrow> bool \<times> 'e"
  api_add :: "string list \<Rightarrow> 'e \<Rightarrow> add_resp option \<times> 'e"
  api_add_learner :: "string list \<Rightarrow> 'e \<Rightarrow> add_resp option \<times> 'e"
  api_promote :: "member_id \<Rightarrow> 'e \<Rightarrow> bool \<times> 'e"
  api_started :: "(string \<rightharpoonup> string) \<Rightarrow> 'e \<Rightarrow> 'e"

datatype api_call =
  CallList
| CallRemove member_id
| CallAdd "string list"
| CallAddLearner "string list"
| CallPromote member_id

record proc =
  proc_bin :: string
  proc_env :: "string \<rightharpoonup> string"
  proc_sigterm :: bool

text \<open>\<open>startable\<close> says for which binaries \<open>cmd.Start\<close> succeeds.\<close>

record 'e world =
  env :: "string \<rightharpoonup> string"
  fs :: fsys
  procs :: "proc list"
  startable :: "string \<Rightarrow> bool"
  etcd :: 'e
  calls :: "api_call list"

record mgr_config =
  mc_PodName :: string
  mc_PeerPort :: string
  mc_ClientPort :: string
  mc_DataDir :: string
  mc_CertFile :: string
  mc_KeyFile :: string

datatype join_error =
  ListFailed | RemoveFailed | NoVotingMembers | AddFailed | StartFailed
| PromoteFailed | PromoteFailedCleanedUp
| NoEndpoints | KeyPairFailed | ClientFailed

definition setenv :: "string \<Rightarrow> string \<Rightarrow> 'e world \<Rightarrow> 'e world" where
  "setenv k v w = w\<lparr>env := (env w)(k \<mapsto> v)\<rparr>"

definition member_dir :: "mgr_config \<Rightarrow> path" where
  "member_dir cfg = [mc_DataDir cfg, ''member'']"

section \<open>Calls of the etcd client\<close>

definition call_list :: "'e etcd_api \<Rightarrow> 'e world \<Rightarrow> member list option \<times> 'e world" where
  "call_list api w =
     (let (r, e) = api_list api (etcd w) in (r, w\<lparr>etcd := e, calls := calls w @ [CallList]\<rparr>))"

definition call_remove :: "'e etcd_api \<Rightarrow> member_id \<Rightarrow> 'e world \<Rightarrow> bool \<times> 'e world" where
  "call_remove api i w =
     (let (r, e) = api_remove api i (etcd w) in (r, w\<lparr>etcd := e, calls := calls w @ [CallRemove i]\<rparr>))"

definition call_add :: "'e etcd_api \<Rightarrow> string list \<Rightarrow> 'e world \<Rightarrow> add_resp option \<times> 'e world" where
  "call_add api us w =
     (let (r, e) = api_add api us (etcd w) in (r, w\<lparr>etcd := e, calls := calls w @ [CallAdd us]\<rparr>))"

definition call_add_learner ::
    "'e etcd_api \<Rightarrow> string list \<Rightarrow> 'e world \<Rightarrow> add_resp option \<times> 'e world" where
  "call_add_learner api us w =
     (let (r, e) = api_add_learner api us (etcd w)
      in (r, w\<lparr>etcd := e, calls := calls w @ [CallAddLearner us]\<rparr>))"

definition call_promote :: "'e etcd_api \<Rightarrow> member_id \<Rightarrow> 'e world \<Rightarrow> bool \<times> 'e world" where
  "call_promote api i w =
     (let (r, e) = api_promote api i (etcd w) in (r, w\<lparr>etcd := e, calls := calls w @ [CallPromote i]\<rparr>))"

section \<open>Recognising members\<close>

definition buildPeerURLSet :: "string list \<Rightarrow> string \<Rightarrow> string set" where
  "buildPeerURLSet myIPs peerPort = set (map (\<lambda>ip. peer_url ip peerPort) myIPs)"

definition peerURLsMatch :: "string list \<Rightarrow> string set \<Rightarrow> bool" where
  "peerURLsMatch peerURLs myPeerURLs \<longleftrightarrow>
     (if length peerURLs = 0 \<or> card myPeerURLs = 0 then False
      else if length peerURLs \<noteq> card myPeerURLs then False
      else list_all (\<lambda>u. u \<in> myPeerURLs) peerURLs)"

definition is_self :: "mgr_config \<Rightarrow> string set \<Rightarrow> member \<Rightarrow> bool" where
  "is_self cfg mine m \<longleftrightarrow> m_Name m = mc_PodName cfg \<or> peerURLsMatch (m_PeerURLs m) mine"

definition matchReason :: "member \<Rightarrow> string \<Rightarrow> string set \<Rightarrow> string" where
  "matchReason m podName mine =
     (if m_Name m = podName then ''name''
      else if peerURLsMatch (m_PeerURLs m) mine then ''peer URLs'' else ''unknown'')"

text \<open>The nested loops over peer URLs and dead names: does some URL contain some dead name?\<close>

definition has_dead_url :: "string set \<Rightarrow> member \<Rightarrow> bool" where
  "has_dead_url dead m \<longleftrightarrow> list_ex (\<lambda>url. \<exists>d \<in> dead. str_contains url d) (m_PeerURLs m)"

definition removeDeadMember :: "'e etcd_api \<Rightarrow> member_id \<Rightarrow> 'e world \<Rightarrow> 'e world" where
  "removeDeadMember api i w = snd (call_remove api i w)"

text \<open>The loop of \<open>processMembers\<close>; its three results are accumulated.\<close>

record self_info =
  si_ID :: member_id
  si_IsLearner :: bool
  si_Voting :: nat

fun process_loop ::
    "'e etcd_api \<Rightarrow> mgr_config \<Rightarrow> string set \<Rightarrow> string set \<Rightarrow> member list
      \<Rightarrow> self_info \<Rightarrow> 'e world \<Rightarrow> self_info \<times> 'e world" where
  "process_loop api cfg dead mine [] acc w = (acc, w)"
| "process_loop api cfg dead mine (m # ms) acc w =
     (if is_self cfg mine m then
        process_loop api cfg dead mine ms
          (acc\<lparr>si_ID := (if m_ID m \<noteq> 0 then m_ID m else si_ID acc), si_IsLearner := m_IsLearner m\<rparr>) w
      else if has_dead_url dead m then
        process_loop api cfg dead mine ms acc (removeDeadMember api (m_ID m) w)
      else if \<not> m_IsLearner m then
        process_loop api cfg dead mine ms (acc\<lparr>si_Voting := Suc (si_Voting acc)\<rparr>) w
      else process_loop api cfg dead mine ms acc w)"

definition processMembers ::
    "'e etcd_api \<Rightarrow> mgr_config \<Rightarrow> member list \<Rightarrow> string set \<Rightarrow> string set
      \<Rightarrow> 'e world \<Rightarrow> self_info \<times> 'e world" where
  "processMembers api cfg members dead mine w =
     process_loop api cfg dead mine members \<lparr>si_ID = 0, si_IsLearner = False, si_Voting = 0\<rparr> w"

section \<open>Starting etcd and promoting a learner\<close>

text \<open>The value of \<open>startEtcd\<close> is the index of the new process.\<close>

definition startEtcd :: "'e etcd_api \<Rightarrow> string \<Rightarrow> 'e world \<Rightarrow> (join_error, nat) gores \<times> 'e world" where
  "startEtcd api bin w =
     (if startable w bin then
        (GoOk (length (procs w)),
         w\<lparr>procs := procs w @ [\<lparr>proc_bin = bin, proc_env = env w, proc_sigterm = False\<rparr>],
           etcd := api_started api (env w) (etcd w)\<rparr>)
      else (GoErr StartFailed, w))"

text \<open>One turn of the loop of \<open>promoteLearner\<close> and the loop with \<open>n\<close> turns left.\<close>

definition promote_once :: "'e etcd_api \<Rightarrow> member_id \<Rightarrow> 'e world \<Rightarrow> unit option \<times> 'e world" where
  "promote_once api i w =
     (let (ok, w') = call_promote api i w in (if ok then Some () else None, w'))"

fun promote_loop :: "'e etcd_api \<Rightarrow> member_id \<Rightarrow> nat \<Rightarrow> 'e world \<Rightarrow> unit option \<times> 'e world" where
  "promote_loop api i 0 w = (None, w)"
| "promote_loop api i (Suc n) w =
     (case promote_once api i w of
        (Some u, w') \<Rightarrow> (Some u, w')
      | (None, w') \<Rightarrow> promote_loop api i n w')"

definition max_promote_retries :: nat where
  "max_promote_retries = 100"

definition promoteLearner ::
    "'e etcd_api \<Rightarrow> member_id \<Rightarrow> 'e world \<Rightarrow> (join_error, unit) gores \<times> 'e world" where
  "promoteLearner api i w =
     (case promote_loop api i max_promote_retries w of
        (Some u, w') \<Rightarrow> (GoOk u, w')
      | (None, w') \<Rightarrow> (GoErr PromoteFailed, w'))"

section \<open>Joining\<close>

fun buildClusterConfig :: "mgr_config \<Rightarrow> member list \<Rightarrow> string list" where
  "buildClusterConfig cfg [] = []"
| "buildClusterConfig cfg (m # ms) =
     map (\<lambda>url. (if m_Name m = [] then mc_PodName cfg else m_Name m) @ ''='' @ url) (m_PeerURLs m)
     @ buildClusterConfig cfg ms"

definition signal_term :: "nat \<Rightarrow> 'e world \<Rightarrow> 'e world" where
  "signal_term p w = w\<lparr>procs := (procs w)[p := (procs w ! p)\<lparr>proc_sigterm := True\<rparr>]\<rparr>"

text \<open>The second half of \<open>addMemberAndStart\<close>, once the member has been added.\<close>

definition start_added ::
    "'e etcd_api \<Rightarrow> mgr_config \<Rightarrow> string \<Rightarrow> bool \<Rightarrow> add_resp \<Rightarrow> 'e world
      \<Rightarrow> (join_error, nat) gores \<times> 'e world" where
  "start_added api cfg bin shouldPromote resp w =
     (let w1 = setenv ''ETCD_INITIAL_CLUSTER''
                 (join '','' (buildClusterConfig cfg (ar_Members resp)))
                 (setenv ''ETCD_INITIAL_CLUSTER_STATE'' ''existing'' w)
      in case startEtcd api bin w1 of
           (GoOk p, w2) \<Rightarrow>
             (if shouldPromote then
                (case promoteLearner api (ar_ID resp) w2 of
                   (GoOk u, w3) \<Rightarrow> (GoOk p, w3)
                 | (GoErr e, w3) \<Rightarrow> (GoErr PromoteFailed, signal_term p w3)
                 | (GoPanic, w3) \<Rightarrow> (GoPanic, w3))
              else (GoOk p, w2))
         | (GoErr e, w2) \<Rightarrow> (GoErr StartFailed, w2)
         | (GoPanic, w2) \<Rightarrow> (GoPanic, w2))"

definition addMemberAndStart ::
    "'e etcd_api \<Rightarrow> mgr_config \<Rightarrow> string list \<Rightarrow> nat \<Rightarrow> string \<Rightarrow> 'e world
      \<Rightarrow> (join_error, nat) gores \<times> 'e world" where
  "addMemberAndStart api cfg myIPs votingNum bin w =
     (let mypeers = map (\<lambda>ip. peer_url ip (mc_PeerPort cfg)) myIPs in
      if votingNum = 1 then
        (case call_add_learner api mypeers w of
           (None, w1) \<Rightarrow> (GoErr AddFailed, w1)
         | (Some resp, w1) \<Rightarrow> start_added api cfg bin True resp w1)
      else if 1 < votingNum then
        (case call_add api mypeers w of
           (None, w1) \<Rightarrow> (GoErr AddFailed, w1)
         | (Some resp, w1) \<Rightarrow> start_added api cfg bin False resp w1)
      else (GoErr NoVotingMembers, w))"

definition handleExistingMemberWithData ::
    "'e etcd_api \<Rightarrow> mgr_config \<Rightarrow> member_id \<Rightarrow> bool \<Rightarrow> string \<Rightarrow> 'e world
      \<Rightarrow> (join_error, nat) gores \<times> 'e world" where
  "handleExistingMemberWithData api cfg i learner bin w =
     (if learner then
        (case promoteLearner api i w of
           (GoOk u, w1) \<Rightarrow> startEtcd api bin w1
         | (GoErr e, w1) \<Rightarrow>
             (let w2 = removeDeadMember api i w1
              in (GoErr PromoteFailedCleanedUp, w2\<lparr>fs := remove_all (member_dir cfg) (fs w2)\<rparr>))
         | (GoPanic, w1) \<Rightarrow> (GoPanic, w1))
      else startEtcd api bin w)"

definition handleExistingMemberWithoutData ::
    "'e etcd_api \<Rightarrow> mgr_config \<Rightarrow> member_id \<Rightarrow> string list \<Rightarrow> nat \<Rightarrow> string \<Rightarrow> 'e world
      \<Rightarrow> (join_error, nat) gores \<times> 'e world" where
  "handleExistingMemberWithoutData api cfg i myIPs votingNum bin w =
     (case call_remove api i w of
        (False, w1) \<Rightarrow> (GoErr RemoveFailed, w1)
      | (True, w1) \<Rightarrow> addMemberAndStart api cfg myIPs votingNum bin w1)"

definition handleMemberJoin ::
    "'e etcd_api \<Rightarrow> mgr_config \<Rightarrow> member_id \<Rightarrow> bool \<Rightarrow> string list \<Rightarrow> nat \<Rightarrow> string \<Rightarrow> 'e world
      \<Rightarrow> (join_error, nat) gores \<times> 'e world" where
  "handleMemberJoin api cfg i learner myIPs votingNum bin w =
     (if i \<noteq> 0 then
        (case DirExists (fs w) (member_dir cfg) of
           GoOk True \<Rightarrow> handleExistingMemberWithData api cfg i learner bin w
         | GoOk False \<Rightarrow> handleExistingMemberWithoutData api cfg i myIPs votingNum bin w
         | GoErr e \<Rightarrow> (GoErr e, w)
         | GoPanic \<Rightarrow> (GoPanic, w))
      else
        (case DirExists (fs w) (member_dir cfg) of
           GoOk True \<Rightarrow>
             addMemberAndStart api cfg myIPs votingNum bin (w\<lparr>fs := remove_all (member_dir cfg) (fs w)\<rparr>)
         | GoOk False \<Rightarrow> addMemberAndStart api cfg myIPs votingNum bin w
         | GoErr e \<Rightarrow> (GoErr e, w)
         | GoPanic \<Rightarrow> (GoPanic, w)))"

definition JoinExistingCluster ::
    "'e etcd_api \<Rightarrow> mgr_config \<Rightarrow> string list \<Rightarrow> string set \<Rightarrow> string \<Rightarrow> 'e world
      \<Rightarrow> (join_error, nat) gores \<times> 'e world" where
  "JoinExistingCluster api cfg myIPs dead bin w =
     (case call_list api w of
        (None, w1) \<Rightarrow> (GoErr ListFailed, w1)
      | (Some members, w1) \<Rightarrow>
          (let mine = buildPeerURLSet myIPs (mc_PeerPort cfg);
               (si, w2) = processMembers api cfg members dead mine w1
           in handleMemberJoin api cfg (si_ID si) (si_IsLearner si) myIPs (si_Voting si) bin w2))"

definition InitializeNewCluster ::
    "'e etcd_api \<Rightarrow> mgr_config \<Rightarrow> string list \<Rightarrow> string \<Rightarrow> 'e world
      \<Rightarrow> (join_error, nat) gores \<times> 'e world" where
  "InitializeNewCluster api cfg myIPs bin w =
     (let cluster = BuildPeerEndpoints [(mc_PodName cfg, myIPs)] (mc_PeerPort cfg) True True;
          w1 = setenv ''ETCD_INITIAL_CLUSTER'' (join '','' cluster)
                 (setenv ''ETCD_INITIAL_CLUSTER_STATE'' ''new'' w)
      in case DirExists (fs w1) (member_dir cfg) of
           GoOk True \<Rightarrow> startEtcd api bin (w1\<lparr>fs := remove_all (member_dir cfg) (fs w1)\<rparr>)
         | GoOk False \<Rightarrow> startEtcd api bin w1
         | GoErr e \<Rightarrow> (GoErr e, w1)
         | GoPanic \<Rightarrow> (GoPanic, w1))"

text \<open>\<open>GetClient\<close>: the endpoints handed to \<open>etcdcli.New\<close>, whose success is a parameter.\<close>

definition client_endpoints :: "mgr_config \<Rightarrow> (string, string list) gomap \<Rightarrow> string list" where
  "client_endpoints cfg alive =
     concat (map (\<lambda>(m, ips). map (\<lambda>ip. join_host_port ip (mc_ClientPort cfg)) ips) alive)"

definition GetClient ::
    "(string \<Rightarrow> string \<Rightarrow> bool) \<Rightarrow> (string list \<Rightarrow> bool) \<Rightarrow> mgr_config
      \<Rightarrow> (string, string list) gomap \<Rightarrow> (join_error, string list) gores" where
  "GetClient key_ok new_ok cfg alive =
     (if length alive = 0 then GoErr NoEndpoints
      else if \<not> key_ok (mc_CertFile cfg) (mc_KeyFile cfg) then GoErr KeyPairFailed
      else if \<not> new_ok (client_endpoints cfg alive) then GoErr ClientFailed
      else GoOk (client_endpoints cfg alive))"

section \<open>What the steps change\<close>

text \<open>The local side of the world: everything but the cluster and the log.\<close>

definition same_local :: "'e world \<Rightarrow> 'e world \<Rightarrow> bool" where
  "same_local w w' \<longleftrightarrow>
     env w' = env w \<and> fs w' = fs w \<and> procs w' = procs w \<and> startable w' = startable w"

lemma same_local_refl [simp]: "same_local w w"
  by (simp add: same_local_def)

lemma same_local_trans [trans]: "same_local u v \<Longrightarrow> same_local v w \<Longrightarrow> same_local u w"
  by (simp add: same_local_def)

lemma call_remove_facts [simp]:
  "calls (snd (call_remove api i w)) = calls w @ [CallRemove i]"
  "same_local w (snd (call_remove api i w))"
  by (simp_all add: call_remove_def same_local_def split: prod.split)

lemma call_add_facts:
  "call_add api us w = (r, w') \<Longrightarrow> calls w' = calls w @ [CallAdd us] \<and> same_local w w'"
  "call_add_learner api us w = (r, w') \<Longrightarrow> calls w' = calls w @ [CallAddLearner us] \<and> same_local w w'"
  "call_list api w = (l, w') \<Longrightarrow> calls w' = calls w @ [CallList] \<and> same_local w w'"
  "call_remove api i w = (b, w') \<Longrightarrow> calls w' = calls w @ [CallRemove i] \<and> same_local w w'"
  by (auto simp: call_add_def call_add_learner_def call_list_def call_remove_def same_local_def
      split: prod.splits)

lemma removeDeadMember_facts [simp]:
  "calls (removeDeadMember api i w) = calls w @ [CallRemove i]"
  "same_local w (removeDeadMember api i w)"
  by (simp_all add: removeDeadMember_def)

subsection \<open>Processing the member list\<close>

definition removed_members :: "mgr_config \<Rightarrow> string set \<Rightarrow> string set \<Rightarrow> member list \<Rightarrow> member list" where
  "removed_members cfg dead mine ms = filter (\<lambda>m. \<not> is_self cfg mine m \<and> has_dead_url dead m) ms"

definition voting_members :: "mgr_config \<Rightarrow> string set \<Rightarrow> string set \<Rightarrow> member list \<Rightarrow> member list" where
  "voting_members cfg dead mine ms =
     filter (\<lambda>m. \<not> is_self cfg mine m \<and> \<not> has_dead_url dead m \<and> \<not> m_IsLearner m) ms"

definition self_members :: "mgr_config \<Rightarrow> string set \<Rightarrow> member list \<Rightarrow> member list" where
  "self_members cfg mine ms = filter (is_self cfg mine) ms"

definition last_or :: "'a \<Rightarrow> 'a list \<Rightarrow> 'a" where
  "last_or d xs = (if xs = [] then d else last xs)"

lemma last_or_Cons [simp]: "last_or d (x # xs) = last_or x xs" "last_or d [] = d"
  by (simp_all add: last_or_def)

definition self_id :: "mgr_config \<Rightarrow> string set \<Rightarrow> member list \<Rightarrow> member_id" where
  "self_id cfg mine ms = last_or 0 (filter (\<lambda>i. i \<noteq> 0) (map m_ID (self_members cfg mine ms)))"

definition self_learner :: "mgr_config \<Rightarrow> string set \<Rightarrow> member list \<Rightarrow> bool" where
  "self_learner cfg mine ms = last_or False (map m_IsLearner (self_members cfg mine ms))"

lemma process_loop_info:
  "fst (process_loop api cfg dead mine ms acc w) =
     \<lparr>si_ID = last_or (si_ID acc) (filter (\<lambda>i. i \<noteq> 0) (map m_ID (self_members cfg mine ms))),
      si_IsLearner = last_or (si_IsLearner acc) (map m_IsLearner (self_members cfg mine ms)),
      si_Voting = si_Voting acc + length (voting_members cfg dead mine ms)\<rparr>"
  by (induction ms arbitrary: acc w) (simp_all add: self_members_def voting_members_def)

lemma process_loop_world:
  "calls (snd (process_loop api cfg dead mine ms acc w)) =
     calls w @ map (CallRemove \<circ> m_ID) (removed_members cfg dead mine ms)"
  "same_local w (snd (process_loop api cfg dead mine ms acc w))"
proof (induction ms arbitrary: acc w)
  case (Cons m ms)
  { case 1 show ?case by (simp add: Cons.IH removed_members_def) }
  { case 2 show ?case
      using Cons.IH(2) by (auto intro: same_local_trans [OF removeDeadMember_facts(2)]) }
qed (simp_all add: removed_members_def)

lemma processMembers_info:
  "fst (processMembers api cfg ms dead mine w) =
     \<lparr>si_ID = self_id cfg mine ms, si_IsLearner = self_learner cfg mine ms,
      si_Voting = length (voting_members cfg dead mine ms)\<rparr>"
  by (simp add: processMembers_def process_loop_info self_id_def self_learner_def)

lemma processMembers_world:
  "calls (snd (processMembers api cfg ms dead mine w)) =
     calls w @ map (CallRemove \<circ> m_ID) (removed_members cfg dead mine ms)"
  "same_local w (snd (processMembers api cfg ms dead mine w))"
  by (simp_all add: processMembers_def process_loop_world)

subsection \<open>Promotion as a bounded retry\<close>

interpretation promotion: bounded_retry "promote_once api i" "promote_loop api i" for api i
  by unfold_locales (auto split: prod.splits option.splits)

lemma promote_once_facts:
  "calls (snd (promote_once api i w)) = calls w @ [CallPromote i]"
  "same_local w (snd (promote_once api i w))"
  by (simp_all add: promote_once_def call_promote_def same_local_def split: prod.split)

lemma promote_attempts:
  "calls (attempts (promote_once api i) k w) = calls w @ replicate k (CallPromote i)"
  "same_local w (attempts (promote_once api i) k w)"
proof (induction k arbitrary: w)
  case (Suc k)
  { case 1 show ?case by (simp add: Suc.IH promote_once_facts replicate_append_same) }
  { case 2 show ?case
      using same_local_trans [OF promote_once_facts(2) Suc.IH(2)] by simp }
qed simp_all

lemma promote_loop_calls:
  assumes "promote_loop api i n w = (r, w')"
  shows "same_local w w' \<and> (\<exists>k \<le> n. calls w' = calls w @ replicate k (CallPromote i) \<and>
    (r = None \<longrightarrow> k = n) \<and> (r \<noteq> None \<longrightarrow> 0 < k))"
proof (cases r)
  case None
  with assms have "w' = attempts (promote_once api i) n w" by (simp add: promotion.loop_None)
  with None show ?thesis using promote_attempts by auto
next
  case (Some u)
  with assms obtain k where k: "k < n" "promote_once api i (attempts (promote_once api i) k w) = (Some u, w')"
    using promotion.loop_Some by blast
  then have w': "w' = snd (promote_once api i (attempts (promote_once api i) k w))" by simp
  have "same_local w w'"
    using same_local_trans [OF promote_attempts(2) promote_once_facts(2)] w' by simp
  moreover have "calls w' = calls w @ replicate (Suc k) (CallPromote i)"
    using w' by (simp add: promote_attempts promote_once_facts replicate_append_same)
  ultimately show ?thesis using k Some by (metis Suc_leI option.distinct(1) zero_less_Suc)
qed

lemma promoteLearner_cases:
  obtains (ok) w' k where "promoteLearner api i w = (GoOk (), w')" "same_local w w'"
      "0 < k" "k \<le> 100" "calls w' = calls w @ replicate k (CallPromote i)"
  | (fail) w' where "promoteLearner api i w = (GoErr PromoteFailed, w')" "same_local w w'"
      "calls w' = calls w @ replicate 100 (CallPromote i)"
proof (cases "promote_loop api i max_promote_retries w")
  case (Pair r w')
  from promote_loop_calls [OF this] obtain k where k: "same_local w w'" "k \<le> 100"
    "calls w' = calls w @ replicate k (CallPromote i)"
    "r = None \<longrightarrow> k = 100" "r \<noteq> None \<longrightarrow> 0 < k"
    by (auto simp: max_promote_retries_def)
  show thesis
  proof (cases r)
    case None
    with k Pair show thesis by (intro fail [of w']) (simp_all add: promoteLearner_def)
  next
    case (Some u)
    with k Pair show thesis by (intro ok [of w' k]) (simp_all add: promoteLearner_def)
  qed
qed

section \<open>The abstract plan of a join\<close>

text \<open>
  What a join is meant to do, as a function of the member list, the addresses and the state of
  the member directory; and the sequences of cluster-changing calls each plan allows.
\<close>

datatype add_mode = AddLearner | AddVoter | AddRefused

definition add_mode_for :: "nat \<Rightarrow> add_mode" where
  "add_mode_for votes = (if votes = 0 then AddRefused else if votes = 1 then AddLearner else AddVoter)"

datatype join_plan =
  PlanStart
| PlanPromoteStart member_id
| PlanReplace member_id add_mode
| PlanAdd add_mode
| PlanCrash

definition join_plan_of :: "mgr_config \<Rightarrow> string list \<Rightarrow> string set \<Rightarrow> member list \<Rightarrow> fnode \<Rightarrow> join_plan" where
  "join_plan_of cfg ips dead ms dir =
     (let mine = buildPeerURLSet ips (mc_PeerPort cfg);
          i = self_id cfg mine ms;
          mode = add_mode_for (length (voting_members cfg dead mine ms))
      in if dir = StatFails then PlanCrash
         else if i = 0 then PlanAdd mode
         else if dir \<noteq> Directory then PlanReplace i mode
         else if self_learner cfg mine ms then PlanPromoteStart i
         else PlanStart)"

fun add_calls :: "add_mode \<Rightarrow> string list \<Rightarrow> api_call list \<Rightarrow> bool" where
  "add_calls AddRefused us cs \<longleftrightarrow> cs = []"
| "add_calls AddVoter us cs \<longleftrightarrow> cs = [CallAdd us]"
| "add_calls AddLearner us cs \<longleftrightarrow>
     (\<exists>j. \<exists>k \<le> 100. cs = CallAddLearner us # replicate k (CallPromote j))"

fun plan_calls :: "join_plan \<Rightarrow> string list \<Rightarrow> api_call list \<Rightarrow> bool" where
  "plan_calls PlanStart us cs \<longleftrightarrow> cs = []"
| "plan_calls PlanCrash us cs \<longleftrightarrow> cs = []"
| "plan_calls (PlanPromoteStart i) us cs \<longleftrightarrow>
     (\<exists>k \<le> 100. cs = replicate k (CallPromote i)) \<or>
     cs = replicate 100 (CallPromote i) @ [CallRemove i]"
| "plan_calls (PlanReplace i mode) us cs \<longleftrightarrow>
     cs = [CallRemove i] \<or> (\<exists>cs'. cs = CallRemove i # cs' \<and> add_calls mode us cs')"
| "plan_calls (PlanAdd mode) us cs \<longleftrightarrow> add_calls mode us cs"

text \<open>
  The processes after a join: on success exactly one more, with the final environment; on an
  error none, or one that has been sent SIGTERM.
\<close>

definition join_procs :: "string \<Rightarrow> 'e world \<Rightarrow> (join_error, nat) gores \<Rightarrow> 'e world \<Rightarrow> bool" where
  "join_procs bin w r w' \<longleftrightarrow>
     (case r of
        GoOk p \<Rightarrow> p = length (procs w) \<and>
          procs w' = procs w @ [\<lparr>proc_bin = bin, proc_env = env w', proc_sigterm = False\<rparr>]
      | _ \<Rightarrow> procs w' = procs w \<or> (\<exists>pr. procs w' = procs w @ [pr] \<and> proc_sigterm pr))"

lemma startEtcd_cases:
  obtains (started) w' where "startEtcd api bin w = (GoOk (length (procs w)), w')"
      "calls w' = calls w" "env w' = env w" "fs w' = fs w" "startable w' = startable w"
      "procs w' = procs w @ [\<lparr>proc_bin = bin, proc_env = env w, proc_sigterm = False\<rparr>]"
  | (failed) "startEtcd api bin w = (GoErr StartFailed, w)"
  by (cases "startable w bin") (simp_all add: startEtcd_def)

lemma setenv_facts [simp]:
  "calls (setenv k v w) = calls w" "fs (setenv k v w) = fs w" "procs (setenv k v w) = procs w"
  "startable (setenv k v w) = startable w" "env (setenv k v w) = (env w)(k \<mapsto> v)"
  by (simp_all add: setenv_def)

lemma signal_term_facts [simp]:
  "calls (signal_term p w) = calls w" "fs (signal_term p w) = fs w" "env (signal_term p w) = env w"
  "procs (signal_term p w) = (procs w)[p := (procs w ! p)\<lparr>proc_sigterm := True\<rparr>]"
  by (simp_all add: signal_term_def)

lemma start_added_spec:
  assumes "start_added api cfg bin promote resp w = (r, w')"
  shows "fs w' = fs w" and "join_procs bin w r w'"
    and "\<exists>k \<le> 100. calls w' = calls w @ replicate k (CallPromote (ar_ID resp)) \<and> (\<not> promote \<longrightarrow> k = 0)"
    and "env w' = (env w)(''ETCD_INITIAL_CLUSTER_STATE'' \<mapsto> ''existing'',
      ''ETCD_INITIAL_CLUSTER'' \<mapsto> join '','' (buildClusterConfig cfg (ar_Members resp)))"
proof -
  let ?w1 = "setenv ''ETCD_INITIAL_CLUSTER'' (join '','' (buildClusterConfig cfg (ar_Members resp)))
    (setenv ''ETCD_INITIAL_CLUSTER_STATE'' ''existing'' w)"
  have "fs w' = fs w \<and> join_procs bin w r w' \<and>
    (\<exists>k \<le> 100. calls w' = calls w @ replicate k (CallPromote (ar_ID resp)) \<and> (\<not> promote \<longrightarrow> k = 0)) \<and>
    env w' = env ?w1"
  proof (cases rule: startEtcd_cases [of api bin ?w1])
    case failed
    with assms show ?thesis by (auto simp: start_added_def join_procs_def)
  next
    case (started w2)
    show ?thesis
    proof (cases promote)
      case False
      with started assms show ?thesis by (auto simp: start_added_def join_procs_def)
    next
      case True
      show ?thesis
      proof (cases rule: promoteLearner_cases [of api "ar_ID resp" w2])
        case (ok w3 k)
        with True started assms show ?thesis
          by (auto simp: start_added_def join_procs_def same_local_def)
      next
        case (fail w3)
        with True started assms show ?thesis
          by (auto simp: start_added_def join_procs_def same_local_def)
      qed
    qed
  qed
  then show "fs w' = fs w" and "join_procs bin w r w'"
    and "\<exists>k \<le> 100. calls w' = calls w @ replicate k (CallPromote (ar_ID resp)) \<and> (\<not> promote \<longrightarrow> k = 0)"
    and "env w' = (env w)(''ETCD_INITIAL_CLUSTER_STATE'' \<mapsto> ''existing'',
      ''ETCD_INITIAL_CLUSTER'' \<mapsto> join '','' (buildClusterConfig cfg (ar_Members resp)))"
    by simp_all
qed

lemma join_procs_local: "same_local w w1 \<Longrightarrow> join_procs bin w1 r w' = join_procs bin w r w'"
  by (cases r) (auto simp: join_procs_def same_local_def)

lemma join_procs_error: "same_local w w' \<Longrightarrow> \<forall>p. r \<noteq> GoOk p \<Longrightarrow> join_procs bin w r w'"
  by (cases r) (simp_all add: join_procs_def same_local_def)

lemma addMemberAndStart_spec:
  assumes "addMemberAndStart api cfg ips votes bin w = (r, w')"
  shows "fs w' = fs w" and "join_procs bin w r w'"
    and "\<exists>cs. calls w' = calls w @ cs \<and>
      add_calls (add_mode_for votes) (map (\<lambda>ip. peer_url ip (mc_PeerPort cfg)) ips) cs"
proof -
  let ?us = "map (\<lambda>ip. peer_url ip (mc_PeerPort cfg)) ips"
  consider (none) "votes = 0" | (one) "votes = 1" | (many) "1 < votes" by linarith
  then have "fs w' = fs w \<and> join_procs bin w r w' \<and>
    (\<exists>cs. calls w' = calls w @ cs \<and> add_calls (add_mode_for votes) ?us cs)"
  proof cases
    case none
    with assms show ?thesis by (auto simp: addMemberAndStart_def join_procs_def add_mode_for_def)
  next
    case one
    obtain a w1 where a: "call_add_learner api ?us w = (a, w1)" by (cases "call_add_learner api ?us w")
    note c = call_add_facts(2) [OF a]
    show ?thesis
    proof (cases a)
      case None
      with one a c assms have "r = GoErr AddFailed" "w' = w1" by (auto simp: addMemberAndStart_def)
      with one c show ?thesis
        by (auto simp: join_procs_error same_local_def add_mode_for_def intro: exI [of _ 0])
    next
      case (Some resp)
      with one a assms have "start_added api cfg bin True resp w1 = (r, w')"
        by (simp add: addMemberAndStart_def)
      note spec = start_added_spec [OF this]
      from spec(3) obtain k where "k \<le> 100" "calls w' = calls w1 @ replicate k (CallPromote (ar_ID resp))"
        by blast
      then have "add_calls AddLearner ?us (CallAddLearner ?us # replicate k (CallPromote (ar_ID resp)))"
        and "calls w' = calls w @ CallAddLearner ?us # replicate k (CallPromote (ar_ID resp))"
        using c by auto
      moreover have "fs w' = fs w" using spec(1) c by (simp add: same_local_def)
      moreover have "join_procs bin w r w'" using spec(2) c join_procs_local by blast
      ultimately show ?thesis using one by (simp add: add_mode_for_def del: add_calls.simps)
    qed
  next
    case many
    obtain a w1 where a: "call_add api ?us w = (a, w1)" by (cases "call_add api ?us w")
    note c = call_add_facts(1) [OF a]
    show ?thesis
    proof (cases a)
      case None
      with many a c assms have "r = GoErr AddFailed" "w' = w1" by (auto simp: addMemberAndStart_def)
      with many c show ?thesis by (auto simp: join_procs_error same_local_def add_mode_for_def)
    next
      case (Some resp)
      with many a assms have "start_added api cfg bin False resp w1 = (r, w')"
        by (simp add: addMemberAndStart_def)
      note spec = start_added_spec [OF this]
      have "calls w' = calls w @ [CallAdd ?us]" using spec(3) c by auto
      moreover have "fs w' = fs w" using spec(1) c by (simp add: same_local_def)
      moreover have "join_procs bin w r w'" using spec(2) c join_procs_local by blast
      ultimately show ?thesis using many by (simp add: add_mode_for_def)
    qed
  qed
  then show "fs w' = fs w" and "join_procs bin w r w'"
    and "\<exists>cs. calls w' = calls w @ cs \<and> add_calls (add_mode_for votes) ?us cs" by simp_all
qed

text \<open>
  What a join does to the member directory: nothing, or it removes the directory because the
  own member is unknown or its promotion failed.
\<close>

definition data_kept :: "mgr_config \<Rightarrow> (join_error, nat) gores \<Rightarrow> 'e world \<Rightarrow> 'e world \<Rightarrow> member_id \<Rightarrow> bool" where
  "data_kept cfg r w w' i \<longleftrightarrow>
     fs w' = fs w \<or>
     ((i = 0 \<or> r = GoErr PromoteFailedCleanedUp) \<and> fs w' = remove_all (member_dir cfg) (fs w))"

lemma handleExistingMemberWithData_spec:
  assumes "handleExistingMemberWithData api cfg i learner bin w = (r, w')"
  shows "join_procs bin w r w'" and "data_kept cfg r w w' i"
    and "\<exists>cs. calls w' = calls w @ cs \<and> plan_calls (if learner then PlanPromoteStart i else PlanStart) us cs"
    and "r = GoErr PromoteFailedCleanedUp \<Longrightarrow>
      fs w' = remove_all (member_dir cfg) (fs w) \<and>
      calls w' = calls w @ replicate 100 (CallPromote i) @ [CallRemove i]"
proof -
  let ?plan = "if learner then PlanPromoteStart i else PlanStart"
  have "join_procs bin w r w' \<and> data_kept cfg r w w' i \<and>
    (\<exists>cs. calls w' = calls w @ cs \<and> plan_calls ?plan us cs) \<and>
    (r = GoErr PromoteFailedCleanedUp \<longrightarrow> fs w' = remove_all (member_dir cfg) (fs w) \<and>
      calls w' = calls w @ replicate 100 (CallPromote i) @ [CallRemove i])"
  proof (cases learner)
    case False
    then show ?thesis
      using assms by (cases rule: startEtcd_cases [of api bin w])
        (auto simp: handleExistingMemberWithData_def join_procs_def data_kept_def)
  next
    case True
    show ?thesis
    proof (cases rule: promoteLearner_cases [of api i w])
      case (ok w1 k)
      then have "startEtcd api bin w1 = (r, w')"
        using True assms by (simp add: handleExistingMemberWithData_def)
      then have "join_procs bin w1 r w'" "fs w' = fs w1" "calls w' = calls w1" "r \<noteq> GoErr PromoteFailedCleanedUp"
        by (cases rule: startEtcd_cases [of api bin w1]; auto simp: join_procs_def)+
      moreover have "join_procs bin w r w'"
        using calculation(1) join_procs_local [OF ok(2)] by blast
      ultimately show ?thesis using ok True by (auto simp: data_kept_def same_local_def)
    next
      case (fail w1)
      let ?w2 = "removeDeadMember api i w1"
      have loc: "same_local w ?w2" using fail(2) by (rule same_local_trans) simp
      have "r = GoErr PromoteFailedCleanedUp" and w': "w' = ?w2\<lparr>fs := remove_all (member_dir cfg) (fs ?w2)\<rparr>"
        using fail True assms by (auto simp: handleExistingMemberWithData_def Let_def)
      then show ?thesis using loc fail True by (auto simp: join_procs_def data_kept_def same_local_def)
    qed
  qed
  then show "join_procs bin w r w'" and "data_kept cfg r w w' i"
    and "\<exists>cs. calls w' = calls w @ cs \<and> plan_calls ?plan us cs"
    and "r = GoErr PromoteFailedCleanedUp \<Longrightarrow>
      fs w' = remove_all (member_dir cfg) (fs w) \<and>
      calls w' = calls w @ replicate 100 (CallPromote i) @ [CallRemove i]"
    by blast+
qed

lemma handleExistingMemberWithoutData_spec:
  assumes "handleExistingMemberWithoutData api cfg i ips votes bin w = (r, w')"
  shows "join_procs bin w r w'" and "fs w' = fs w"
    and "\<exists>cs. calls w' = calls w @ cs \<and>
      plan_calls (PlanReplace i (add_mode_for votes)) (map (\<lambda>ip. peer_url ip (mc_PeerPort cfg)) ips) cs"
proof -
  obtain b w1 where b: "call_remove api i w = (b, w1)" by (cases "call_remove api i w")
  note c = call_add_facts(4) [OF b]
  have "join_procs bin w r w' \<and> fs w' = fs w \<and> (\<exists>cs. calls w' = calls w @ cs \<and>
      plan_calls (PlanReplace i (add_mode_for votes)) (map (\<lambda>ip. peer_url ip (mc_PeerPort cfg)) ips) cs)"
  proof (cases b)
    case False
    with assms b have "r = GoErr RemoveFailed" "w' = w1"
      by (auto simp: handleExistingMemberWithoutData_def)
    then show ?thesis
      using c by (simp add: join_procs_error same_local_def)
  next
    case True
    with assms b have "addMemberAndStart api cfg ips votes bin w1 = (r, w')"
      by (simp add: handleExistingMemberWithoutData_def)
    note add = addMemberAndStart_spec [OF this]
    from add(3) obtain cs where "calls w' = calls w @ CallRemove i # cs"
      and "add_calls (add_mode_for votes) (map (\<lambda>ip. peer_url ip (mc_PeerPort cfg)) ips) cs"
      using c by auto
    moreover have "fs w' = fs w" using add(1) c by (simp add: same_local_def)
    moreover have "join_procs bin w r w'" using add(2) c join_procs_local by blast
    ultimately show ?thesis
      by auto
  qed
  then show "join_procs bin w r w'" and "fs w' = fs w"
    and "\<exists>cs. calls w' = calls w @ cs \<and>
      plan_calls (PlanReplace i (add_mode_for votes)) (map (\<lambda>ip. peer_url ip (mc_PeerPort cfg)) ips) cs"
    by blast+
qed

definition local_plan :: "member_id \<Rightarrow> bool \<Rightarrow> nat \<Rightarrow> fnode \<Rightarrow> join_plan" where
  "local_plan i learner votes dir =
     (if dir = StatFails then PlanCrash
      else if i = 0 then PlanAdd (add_mode_for votes)
      else if dir \<noteq> Directory then PlanReplace i (add_mode_for votes)
      else if learner then PlanPromoteStart i
      else PlanStart)"

lemma handleMemberJoin_spec:
  assumes run: "handleMemberJoin api cfg i learner ips votes bin w = (r, w')"
  defines "us \<equiv> map (\<lambda>ip. peer_url ip (mc_PeerPort cfg)) ips"
  shows "join_procs bin w r w' \<and> data_kept cfg r w w' i \<and>
    (\<exists>cs. calls w' = calls w @ cs \<and>
       plan_calls (local_plan i learner votes (node (fs w) (member_dir cfg))) us cs)"
proof (cases rule: DirExists_cases [where 'e = join_error and f = "fs w" and p = "member_dir cfg"])
  case panic
  with run show ?thesis
    by (auto simp: handleMemberJoin_def join_procs_def data_kept_def local_plan_def split: if_splits)
next
  case yes
  show ?thesis
  proof (cases "i = 0")
    case True
    with yes run have "addMemberAndStart api cfg ips votes bin
        (w\<lparr>fs := remove_all (member_dir cfg) (fs w)\<rparr>) = (r, w')"
      by (simp add: handleMemberJoin_def)
    from addMemberAndStart_spec [OF this] yes True show ?thesis
      by (auto simp: join_procs_def data_kept_def local_plan_def us_def split: gores.splits)
  next
    case False
    with yes run have "handleExistingMemberWithData api cfg i learner bin w = (r, w')"
      by (simp add: handleMemberJoin_def)
    from handleExistingMemberWithData_spec(1,2) [OF this] handleExistingMemberWithData_spec(3) [OF this]
      yes False show ?thesis by (simp add: local_plan_def)
  qed
next
  case no
  show ?thesis
  proof (cases "i = 0")
    case True
    with no run have "addMemberAndStart api cfg ips votes bin w = (r, w')"
      by (simp add: handleMemberJoin_def)
    from addMemberAndStart_spec [OF this] no True show ?thesis
      by (auto simp: data_kept_def local_plan_def us_def)
  next
    case False
    with no run have "handleExistingMemberWithoutData api cfg i ips votes bin w = (r, w')"
      by (simp add: handleMemberJoin_def)
    from handleExistingMemberWithoutData_spec [OF this] no False show ?thesis
      by (simp add: data_kept_def local_plan_def us_def)
  qed
qed

text \<open>The code's join carries out the abstract plan.\<close>

lemma JoinExistingCluster_refines:
  assumes run: "JoinExistingCluster api cfg ips dead bin w = (r, w')"
    and list: "fst (api_list api (etcd w)) = Some ms"
  defines "mine \<equiv> buildPeerURLSet ips (mc_PeerPort cfg)"
  shows "join_procs bin w r w'"
    and "data_kept cfg r w w' (self_id cfg mine ms)"
    and "\<exists>cs. calls w' = calls w @ CallList # map (CallRemove \<circ> m_ID) (removed_members cfg dead mine ms) @ cs \<and>
      plan_calls (join_plan_of cfg ips dead ms (node (fs w) (member_dir cfg)))
        (map (\<lambda>ip. peer_url ip (mc_PeerPort cfg)) ips) cs"
proof -
  obtain w1 where l: "call_list api w = (Some ms, w1)"
    using list by (cases "api_list api (etcd w)") (auto simp: call_list_def)
  note c1 = call_add_facts(3) [OF l]
  obtain si w2 where p: "processMembers api cfg ms dead mine w1 = (si, w2)"
    by (cases "processMembers api cfg ms dead mine w1")
  have si: "si = \<lparr>si_ID = self_id cfg mine ms, si_IsLearner = self_learner cfg mine ms,
      si_Voting = length (voting_members cfg dead mine ms)\<rparr>"
    using processMembers_info [of api cfg ms dead mine w1] p by simp
  have c2: "calls w2 = calls w1 @ map (CallRemove \<circ> m_ID) (removed_members cfg dead mine ms)"
    "same_local w1 w2"
    using processMembers_world(1) [of api cfg ms dead mine w1]
      processMembers_world(2) [of w1 api cfg ms dead mine] p by simp_all
  have loc: "same_local w w2" using c1 c2 same_local_trans by blast
  have "handleMemberJoin api cfg (self_id cfg mine ms) (self_learner cfg mine ms) ips
      (length (voting_members cfg dead mine ms)) bin w2 = (r, w')"
    using run l p si by (simp add: JoinExistingCluster_def mine_def [symmetric])
  from handleMemberJoin_spec [OF this]
  obtain cs where jp: "join_procs bin w2 r w'" and dk: "data_kept cfg r w2 w' (self_id cfg mine ms)"
    and cs: "calls w' = calls w2 @ cs"
    and pl: "plan_calls (local_plan (self_id cfg mine ms) (self_learner cfg mine ms)
        (length (voting_members cfg dead mine ms)) (node (fs w2) (member_dir cfg)))
      (map (\<lambda>ip. peer_url ip (mc_PeerPort cfg)) ips) cs"
    by blast
  show "join_procs bin w r w'" using jp join_procs_local [OF loc] by blast
  show "data_kept cfg r w w' (self_id cfg mine ms)"
    using dk loc by (simp add: data_kept_def same_local_def)
  have "local_plan (self_id cfg mine ms) (self_learner cfg mine ms)
      (length (voting_members cfg dead mine ms)) (node (fs w2) (member_dir cfg)) =
    join_plan_of cfg ips dead ms (node (fs w) (member_dir cfg))"
    using loc by (simp add: local_plan_def join_plan_of_def mine_def same_local_def Let_def)
  with cs c1 c2 pl show "\<exists>cs. calls w' = calls w @ CallList #
        map (CallRemove \<circ> m_ID) (removed_members cfg dead mine ms) @ cs \<and>
      plan_calls (join_plan_of cfg ips dead ms (node (fs w) (member_dir cfg)))
        (map (\<lambda>ip. peer_url ip (mc_PeerPort cfg)) ips) cs"
    by (intro exI [of _ cs]) simp
qed

section \<open>Properties\<close>

text \<open>
  C1: \<open>JoinExistingCluster\<close> implements the abstract plan: when the member list could be read,
  the cluster-changing calls are, in order, one removal per dead member and then the calls the
  plan for this member list, these addresses and this state of the member directory allows;
  a successful join has started exactly one process, with the environment then in force, and a
  failed one leaves no process running that has not been told to terminate; the member
  directory is kept except where it belongs to no known member or the own promotion failed.
\<close>

theorem join_implements_plan:
  assumes "JoinExistingCluster api cfg ips dead bin w = (r, w')"
    and "fst (api_list api (etcd w)) = Some ms"
  shows "join_procs bin w r w' \<and>
    data_kept cfg r w w' (self_id cfg (buildPeerURLSet ips (mc_PeerPort cfg)) ms) \<and>
    (\<exists>cs. calls w' = calls w @ CallList #
        map (CallRemove \<circ> m_ID) (removed_members cfg dead (buildPeerURLSet ips (mc_PeerPort cfg)) ms) @ cs \<and>
      plan_calls (join_plan_of cfg ips dead ms (node (fs w) (member_dir cfg)))
        (map (\<lambda>ip. peer_url ip (mc_PeerPort cfg)) ips) cs)"
  using JoinExistingCluster_refines [OF assms] by blast

text \<open>A cluster of fixed replies, for the witnesses.\<close>

definition fixed_api :: "member list \<Rightarrow> bool \<Rightarrow> nat etcd_api" where
  "fixed_api ms promoted = \<lparr>api_list = (\<lambda>e. (Some ms, e)), api_remove = (\<lambda>i e. (True, e)),
     api_add = (\<lambda>us e. (Some \<lparr>ar_ID = 9, ar_Members = ms\<rparr>, e)),
     api_add_learner = (\<lambda>us e. (Some \<lparr>ar_ID = 9, ar_Members = ms\<rparr>, e)),
     api_promote = (\<lambda>i e. (promoted \<or> 3 \<le> e, Suc e)), api_started = (\<lambda>v e. e)\<rparr>"

definition demo_mgr :: mgr_config where
  "demo_mgr = \<lparr>mc_PodName = ''etcd-1'', mc_PeerPort = ''2480'', mc_ClientPort = ''2479'',
     mc_DataDir = ''/data'', mc_CertFile = [], mc_KeyFile = []\<rparr>"

definition demo_world :: "fnode \<Rightarrow> nat world" where
  "demo_world dir = \<lparr>env = Map.empty, fs = \<lparr>node = (\<lambda>p. dir), sticky = (\<lambda>p. False)\<rparr>, procs = [],
     startable = (\<lambda>b. True), etcd = 0, calls = []\<rparr>"

definition demo_member :: "member_id \<Rightarrow> string \<Rightarrow> string \<Rightarrow> bool \<Rightarrow> member" where
  "demo_member i n ip l = \<lparr>m_ID = i, m_Name = n, m_PeerURLs = [peer_url ip ''2480''], m_IsLearner = l\<rparr>"

theorem join_implements_plan_witness:
  "\<exists>r w'. JoinExistingCluster (fixed_api [demo_member 5 ''etcd-0'' ''10.0.0.1'' False] False) demo_mgr
       [''10.0.0.2''] {} ''etcd'' (demo_world Absent) = (r, w') \<and> join_procs ''etcd'' (demo_world Absent) r w'"
proof -
  obtain r w' where "JoinExistingCluster (fixed_api [demo_member 5 ''etcd-0'' ''10.0.0.1'' False] False)
      demo_mgr [''10.0.0.2''] {} ''etcd'' (demo_world Absent) = (r, w')" by fastforce
  from join_implements_plan [OF this] this show ?thesis by (auto simp: fixed_api_def)
qed

text \<open>
  C18: \<open>processMembers\<close> recognises the own member (the last one listed with a non-zero ID), tells
  whether it is a learner, asks for the removal of exactly the other members with a peer URL
  containing a dead name, each once and in list order, and counts as voting exactly the other
  members that are neither removed nor learners. It touches nothing local.
\<close>

theorem processMembers_functional:
  "processMembers api cfg ms dead mine w = (si, w') \<Longrightarrow>
   si_ID si = self_id cfg mine ms \<and> si_IsLearner si = self_learner cfg mine ms \<and>
   si_Voting si = length (filter (\<lambda>m. \<not> is_self cfg mine m \<and> \<not> has_dead_url dead m \<and> \<not> m_IsLearner m) ms) \<and>
   calls w' = calls w @ map (\<lambda>m. CallRemove (m_ID m)) (filter (\<lambda>m. \<not> is_self cfg mine m \<and> has_dead_url dead m) ms) \<and>
   same_local w w'"
  using processMembers_info [of api cfg ms dead mine w] processMembers_world(1) [of api cfg ms dead mine w]
    processMembers_world(2) [of w api cfg ms dead mine]
  by (simp add: voting_members_def removed_members_def comp_def)

theorem processMembers_functional_witness:
  "\<exists>si w'. processMembers (fixed_api [] False) demo_mgr
      [demo_member 5 ''etcd-0'' ''10.0.0.1'' False, demo_member 6 ''etcd-1'' ''10.0.0.2'' True,
       demo_member 7 ''etcd-2'' ''10.0.0.3'' False] {''10.0.0.3''} {} (demo_world Absent) = (si, w') \<and>
    si_ID si = 6 \<and> si_IsLearner si \<and> si_Voting si = 1 \<and> calls w' = [CallRemove 7]"
proof -
  let ?ms = "[demo_member 5 ''etcd-0'' ''10.0.0.1'' False, demo_member 6 ''etcd-1'' ''10.0.0.2'' True,
       demo_member 7 ''etcd-2'' ''10.0.0.3'' False]"
  obtain si w' where p: "processMembers (fixed_api [] False) demo_mgr ?ms {''10.0.0.3''} {} (demo_world Absent) = (si, w')"
    by fastforce
  have self: "map (is_self demo_mgr {}) ?ms = [False, True, False]"
    and dead: "map (has_dead_url {''10.0.0.3''}) ?ms = [False, False, True]" by code_simp+
  from processMembers_functional [OF p] self dead p show ?thesis
    by (intro exI [of _ si] exI [of _ w'])
      (simp add: self_id_def self_learner_def self_members_def demo_world_def, simp add: demo_member_def)
qed

text \<open>
  Dead names are matched as substrings of peer URLs, so a dead address removes a member
  whose address merely begins with it: with \<open>10.0.0.1\<close> dead, the healthy member at
  \<open>10.0.0.12\<close> is removed from the cluster.
\<close>

lemma dead_prefix_removes_live_member:
  assumes "d \<in> dead" and "m \<in> set ms" and "peer_url (d @ rest) port \<in> set (m_PeerURLs m)"
    and "\<not> is_self cfg mine m"
  shows "CallRemove (m_ID m) \<in> set (calls (snd (processMembers api cfg ms dead mine w)))"
proof -
  have "sublist d (peer_url (d @ rest) port)"
    unfolding peer_url_def by (metis append.assoc sublist_appendI)
  then have "has_dead_url dead m" using assms(1,3) by (auto simp: has_dead_url_def list_ex_iff)
  with assms(2,4) show ?thesis by (auto simp: processMembers_world removed_members_def)
qed

text \<open>
  C32: For a member whose peer URLs are distinct, \<open>peerURLsMatch\<close> holds exactly when they are,
  as a set, the node's own peer URLs; in particular the node recognises the member it added
  itself, by its distinct addresses, before that member has a name.
\<close>

theorem own_member_recognised:
  assumes "distinct us"
  shows "(peerURLsMatch us mine \<longleftrightarrow> us \<noteq> [] \<and> finite mine \<and> set us = mine) \<and>
    (us = map (\<lambda>ip. peer_url ip (mc_PeerPort cfg)) ips \<longrightarrow> ips \<noteq> [] \<longrightarrow> m_PeerURLs m = us \<longrightarrow>
       is_self cfg (buildPeerURLSet ips (mc_PeerPort cfg)) m)"
proof -
  have match: "peerURLsMatch us S \<longleftrightarrow> us \<noteq> [] \<and> finite S \<and> set us = S" for S
  proof
    assume p: "peerURLsMatch us S"
    then have ne: "us \<noteq> []" and l: "length us = card S" and sub: "set us \<subseteq> S"
      by (auto simp: peerURLsMatch_def list_all_iff split: if_splits)
    then have fin: "finite S" using card_ge_0_finite [of S] by (cases us) auto
    moreover have "card (set us) = card S" using l assms by (simp add: distinct_card)
    ultimately show "us \<noteq> [] \<and> finite S \<and> set us = S" using ne card_subset_eq [OF fin sub] by simp
  next
    assume "us \<noteq> [] \<and> finite S \<and> set us = S"
    then show "peerURLsMatch us S"
      using assms distinct_card [OF assms] by (auto simp: peerURLsMatch_def list_all_iff)
  qed
  then show ?thesis by (auto simp: is_self_def buildPeerURLSet_def)
qed

theorem own_member_recognised_witness:
  "is_self demo_mgr (buildPeerURLSet [''10.0.0.2'', ''10.1.0.2''] ''2480'')
     \<lparr>m_ID = 9, m_Name = [], m_PeerURLs = [peer_url ''10.0.0.2'' ''2480'', peer_url ''10.1.0.2'' ''2480''],
      m_IsLearner = True\<rparr>"
  using own_member_recognised [of "[peer_url ''10.0.0.2'' ''2480'', peer_url ''10.1.0.2'' ''2480'']"
      "{}" demo_mgr "[''10.0.0.2'', ''10.1.0.2'']"
      "\<lparr>m_ID = 9, m_Name = [], m_PeerURLs = [peer_url ''10.0.0.2'' ''2480'', peer_url ''10.1.0.2'' ''2480''],
        m_IsLearner = True\<rparr>"]
  by (simp add: demo_mgr_def peer_url_def)

text \<open>
  With an address given twice (an interface listed twice) the own URL set is smaller than
  the member's URL list, and the node does not recognise the nameless member it has added.
\<close>

lemma duplicate_address_not_recognised:
  assumes "\<not> distinct ips" and "m_Name m \<noteq> mc_PodName cfg"
    and "m_PeerURLs m = map (\<lambda>ip. peer_url ip (mc_PeerPort cfg)) ips"
  shows "\<not> is_self cfg (buildPeerURLSet ips (mc_PeerPort cfg)) m"
proof -
  have "card (buildPeerURLSet ips (mc_PeerPort cfg)) \<le> card (set ips)"
    unfolding buildPeerURLSet_def set_map by (rule card_image_le) simp
  also have "\<dots> < length ips" using assms(1) card_distinct [of ips] card_length [of ips] by fastforce
  finally show ?thesis using assms(2,3) by (auto simp: is_self_def peerURLsMatch_def)
qed

text \<open>
  C31: \<open>promoteLearner\<close> always returns: with success right after the first accepted promotion,
  which is at most its 100th, or with an error after exactly 100 refused ones. It changes
  nothing local.
\<close>

theorem promotion_bounded:
  "\<exists>r w' k. promoteLearner api i w = (r, w') \<and> same_local w w' \<and>
     calls w' = calls w @ replicate k (CallPromote i) \<and>
     (r = GoOk () \<and> 0 < k \<and> k \<le> 100 \<and>
        fst (promote_once api i (attempts (promote_once api i) (k - 1) w)) = Some () \<or>
      r = GoErr PromoteFailed \<and> k = 100) \<and>
     (\<forall>j < (if r = GoOk () then k - 1 else k).
        fst (promote_once api i (attempts (promote_once api i) j w)) = None)"
proof (cases "promote_loop api i max_promote_retries w")
  case (Pair o' w')
  show ?thesis
  proof (cases o')
    case None
    have "same_local w w'" "calls w' = calls w @ replicate 100 (CallPromote i)"
      using promote_loop_calls [OF Pair] None by (auto simp: max_promote_retries_def)
    moreover have "\<forall>j < 100. fst (promote_once api i (attempts (promote_once api i) j w)) = None"
      using Pair None by (simp add: promotion.loop_None max_promote_retries_def)
    ultimately show ?thesis using Pair None by (intro exI [of _ "GoErr PromoteFailed"] exI [of _ w'] exI [of _ 100])
      (simp add: promoteLearner_def)
  next
    case (Some u)
    then obtain k where k: "k < 100"
      and hit: "promote_once api i (attempts (promote_once api i) k w) = (Some u, w')"
      and miss: "\<forall>j < k. fst (promote_once api i (attempts (promote_once api i) j w)) = None"
      using promotion.loop_Some [of api i max_promote_retries w u w'] Pair
      by (auto simp: max_promote_retries_def)
    have w': "w' = snd (promote_once api i (attempts (promote_once api i) k w))" using hit by simp
    have "calls w' = calls w @ replicate (Suc k) (CallPromote i)"
      unfolding w' promote_once_facts promote_attempts by (simp add: replicate_append_same)
    moreover have "same_local w w'" using promote_loop_calls [OF Pair] by simp
    ultimately show ?thesis using Pair Some k hit miss
      by (intro exI [of _ "GoOk ()"] exI [of _ w'] exI [of _ "Suc k"]) (simp add: promoteLearner_def)
  qed
qed

theorem promotion_bounded_witness:
  "\<exists>w' k. promoteLearner (fixed_api [] False) 6 (demo_world Directory) = (GoOk (), w') \<and>
     calls w' = replicate k (CallPromote 6) \<and> k \<le> 100"
proof -
  have "fst (promoteLearner (fixed_api [] False) 6 (demo_world Directory)) = GoOk ()" by code_simp
  with promotion_bounded [of "fixed_api [] False" 6 "demo_world Directory"] show ?thesis
    by (auto simp: demo_world_def)
qed

text \<open>
  C20: A member that is added runs as part of the existing cluster: a successful
  \<open>addMemberAndStart\<close> has added the node's peer URLs once, as a learner that is promoted when
  there is one voting member and as a voting member when there are more, and the started
  process has \<open>ETCD_INITIAL_CLUSTER_STATE=existing\<close> and the answered member list as its initial
  cluster; without a voting member nothing happens.
\<close>

theorem added_member_joins_existing:
  assumes "addMemberAndStart api cfg ips votes bin w = (r, w')"
  shows "(votes = 0 \<longrightarrow> r = GoErr NoVotingMembers \<and> w' = w) \<and>
    (\<forall>p. r = GoOk p \<longrightarrow>
       (\<exists>resp k e1. calls w' = calls w @ [if votes = 1
             then CallAddLearner (map (\<lambda>ip. peer_url ip (mc_PeerPort cfg)) ips)
             else CallAdd (map (\<lambda>ip. peer_url ip (mc_PeerPort cfg)) ips)] @
             replicate k (CallPromote (ar_ID resp)) \<and> (k = 0 \<longleftrightarrow> votes \<noteq> 1) \<and>
          (if votes = 1 then api_add_learner api else api_add api)
             (map (\<lambda>ip. peer_url ip (mc_PeerPort cfg)) ips) (etcd w) = (Some resp, e1) \<and>
          procs w' = procs w @ [\<lparr>proc_bin = bin, proc_env = env w', proc_sigterm = False\<rparr>] \<and>
          env w' ''ETCD_INITIAL_CLUSTER_STATE'' = Some ''existing'' \<and>
          env w' ''ETCD_INITIAL_CLUSTER'' = Some (join '','' (buildClusterConfig cfg (ar_Members resp)))))"
proof -
  let ?us = "map (\<lambda>ip. peer_url ip (mc_PeerPort cfg)) ips"
  have core: "\<exists>k. calls w' = calls w1 @ replicate k (CallPromote (ar_ID resp)) \<and> (k = 0 \<longleftrightarrow> \<not> pr) \<and>
      procs w' = procs w1 @ [\<lparr>proc_bin = bin, proc_env = env w', proc_sigterm = False\<rparr>] \<and>
      env w' ''ETCD_INITIAL_CLUSTER_STATE'' = Some ''existing'' \<and>
      env w' ''ETCD_INITIAL_CLUSTER'' = Some (join '','' (buildClusterConfig cfg (ar_Members resp)))"
    if s: "start_added api cfg bin pr resp w1 = (GoOk p, w')" for pr resp w1 p
  proof -
    note spec = start_added_spec [OF s]
    obtain k where k: "calls w' = calls w1 @ replicate k (CallPromote (ar_ID resp))" "\<not> pr \<longrightarrow> k = 0"
      using spec(3) by blast
    have "k \<noteq> 0" if pr
    proof
      assume "k = 0"
      let ?v = "setenv ''ETCD_INITIAL_CLUSTER'' (join '','' (buildClusterConfig cfg (ar_Members resp)))
        (setenv ''ETCD_INITIAL_CLUSTER_STATE'' ''existing'' w1)"
      obtain q w2 where st: "startEtcd api bin ?v = (GoOk q, w2)" "calls w2 = calls w1"
        using s by (cases rule: startEtcd_cases [of api bin ?v]) (auto simp: start_added_def)
      then have "\<exists>w3. promoteLearner api (ar_ID resp) w2 = (GoOk (), w3) \<and> w' = w3"
        using s \<open>pr\<close> by (auto simp: start_added_def split: prod.splits gores.splits)
      then show False using \<open>k = 0\<close> k(1) st(2)
        by (cases rule: promoteLearner_cases [of api "ar_ID resp" w2]) auto
    qed
    with k spec(2,4) show ?thesis by (auto simp: join_procs_def)
  qed
  have res: "\<exists>resp k e1. calls w' = calls w @ [if votes = 1 then CallAddLearner ?us else CallAdd ?us] @
             replicate k (CallPromote (ar_ID resp)) \<and> (k = 0 \<longleftrightarrow> votes \<noteq> 1) \<and>
          (if votes = 1 then api_add_learner api else api_add api) ?us (etcd w) = (Some resp, e1) \<and>
          procs w' = procs w @ [\<lparr>proc_bin = bin, proc_env = env w', proc_sigterm = False\<rparr>] \<and>
          env w' ''ETCD_INITIAL_CLUSTER_STATE'' = Some ''existing'' \<and>
          env w' ''ETCD_INITIAL_CLUSTER'' = Some (join '','' (buildClusterConfig cfg (ar_Members resp)))"
    if r: "r = GoOk p" for p
  proof (cases "votes = 1")
    case True
    obtain resp e1 where a: "api_add_learner api ?us (etcd w) = (Some resp, e1)"
      and s: "start_added api cfg bin True resp (w\<lparr>etcd := e1, calls := calls w @ [CallAddLearner ?us]\<rparr>) = (GoOk p, w')"
      using assms True r
      by (auto simp: addMemberAndStart_def call_add_learner_def Let_def split: prod.splits option.splits)
    show ?thesis using core [OF s] a True by auto
  next
    case False
    then have v: "1 < votes" using assms r by (auto simp: addMemberAndStart_def split: if_splits)
    obtain resp e1 where a: "api_add api ?us (etcd w) = (Some resp, e1)"
      and s: "start_added api cfg bin False resp (w\<lparr>etcd := e1, calls := calls w @ [CallAdd ?us]\<rparr>) = (GoOk p, w')"
      using assms v r
      by (auto simp: addMemberAndStart_def call_add_def Let_def split: prod.splits option.splits)
    show ?thesis using core [OF s] a v by auto
  qed
  show ?thesis using res assms by (auto simp: addMemberAndStart_def)
qed


theorem added_member_joins_existing_witness:
  "\<exists>w'. addMemberAndStart (fixed_api [] False) demo_mgr [''10.0.0.2''] 1 ''etcd'' (demo_world Absent) = (GoOk 0, w') \<and>
     env w' ''ETCD_INITIAL_CLUSTER_STATE'' = Some ''existing''"
proof -
  obtain r w' where run: "addMemberAndStart (fixed_api [] False) demo_mgr [''10.0.0.2''] 1 ''etcd'' (demo_world Absent) = (r, w')"
    by fastforce
  have "fst (addMemberAndStart (fixed_api [] False) demo_mgr [''10.0.0.2''] 1 ''etcd'' (demo_world Absent)) = GoOk 0"
    by code_simp
  with run have "r = GoOk 0" by simp
  with added_member_joins_existing [OF run] run show ?thesis by auto
qed

text \<open>
  A voting member that is listed under its name with a non-zero ID and still has its member
  directory just starts etcd again: apart from the removal of dead members no call changes the
  cluster, its data is kept and the environment is as it was.
\<close>

lemma known_voter_restarts:
  assumes "fst (api_list api (etcd w)) = Some ms"
    and "self_id cfg (buildPeerURLSet ips (mc_PeerPort cfg)) ms \<noteq> 0"
    and "\<not> self_learner cfg (buildPeerURLSet ips (mc_PeerPort cfg)) ms"
    and "node (fs w) (member_dir cfg) = Directory" and "startable w bin"
  shows "\<exists>w'. JoinExistingCluster api cfg ips dead bin w = (GoOk (length (procs w)), w') \<and>
    calls w' = calls w @ CallList #
      map (CallRemove \<circ> m_ID) (removed_members cfg dead (buildPeerURLSet ips (mc_PeerPort cfg)) ms) \<and>
    fs w' = fs w \<and> env w' = env w \<and>
    procs w' = procs w @ [\<lparr>proc_bin = bin, proc_env = env w, proc_sigterm = False\<rparr>]"
proof -
  let ?mine = "buildPeerURLSet ips (mc_PeerPort cfg)"
  obtain w1 where l: "call_list api w = (Some ms, w1)"
    using assms(1) by (cases "api_list api (etcd w)") (auto simp: call_list_def)
  note c1 = call_add_facts(3) [OF l]
  obtain si w2 where p: "processMembers api cfg ms dead ?mine w1 = (si, w2)" by fastforce
  have si: "si_ID si \<noteq> 0" "\<not> si_IsLearner si"
    using processMembers_info [of api cfg ms dead ?mine w1] p assms(2,3) by auto
  have c2: "calls w2 = calls w1 @ map (CallRemove \<circ> m_ID) (removed_members cfg dead ?mine ms)"
    "same_local w1 w2"
    using processMembers_world(1) [of api cfg ms dead ?mine w1]
      processMembers_world(2) [of w1 api cfg ms dead ?mine] p by simp_all
  have loc: "same_local w w2" using c1 c2 same_local_trans by blast
  have "JoinExistingCluster api cfg ips dead bin w = startEtcd api bin w2"
    using l p si loc assms(4)
    by (simp add: JoinExistingCluster_def handleMemberJoin_def handleExistingMemberWithData_def same_local_def)
  with loc c1 c2 assms(5) show ?thesis by (simp add: startEtcd_def same_local_def)
qed

text \<open>
  When a known learner's promotion is refused 100 times, the join cleans up: the member is
  removed from the cluster, its member directory is deleted where the file system allows it,
  no process is started, and the error says so.
\<close>

lemma failed_promotion_cleans_up:
  assumes "promoteLearner api i w = (GoErr PromoteFailed, w1)"
  shows "\<exists>w'. handleExistingMemberWithData api cfg i True bin w = (GoErr PromoteFailedCleanedUp, w') \<and>
    calls w' = calls w @ replicate 100 (CallPromote i) @ [CallRemove i] \<and>
    procs w' = procs w \<and>
    (\<not> sticky (fs w) (member_dir cfg) \<longrightarrow> (\<forall>q. prefix (member_dir cfg) q \<longrightarrow> node (fs w') q = Absent)) \<and>
    (\<forall>q. \<not> prefix (member_dir cfg) q \<longrightarrow> node (fs w') q = node (fs w) q)"
proof (cases rule: promoteLearner_cases [of api i w])
  case (ok w2 k)
  then show ?thesis using assms by simp
next
  case (fail w2)
  have "same_local w (removeDeadMember api i w2)" using fail(2) by (rule same_local_trans) simp
  with fail show ?thesis
    by (simp add: handleExistingMemberWithData_def Let_def same_local_def)
qed

text \<open>
  Initialising a new cluster makes no call to any cluster, starts exactly one process when
  the binary can be started, with \<open>ETCD_INITIAL_CLUSTER_STATE=new\<close> and only this node's peer
  URLs as initial cluster, and a stale member directory is gone before it starts unless the file
  system refuses to remove it.
\<close>

lemma initialize_new_cluster:
  assumes "node (fs w) (member_dir cfg) \<noteq> StatFails" and "startable w bin"
  shows "\<exists>w'. InitializeNewCluster api cfg ips bin w = (GoOk (length (procs w)), w') \<and>
    calls w' = calls w \<and>
    procs w' = procs w @ [\<lparr>proc_bin = bin, proc_env = env w', proc_sigterm = False\<rparr>] \<and>
    env w' = (env w)(''ETCD_INITIAL_CLUSTER_STATE'' \<mapsto> ''new'', ''ETCD_INITIAL_CLUSTER'' \<mapsto>
      join '','' (map (\<lambda>ip. mc_PodName cfg @ ''='' @ peer_url ip (mc_PeerPort cfg)) ips)) \<and>
    (sticky (fs w) (member_dir cfg) \<or> node (fs w') (member_dir cfg) \<noteq> Directory)"
proof -
  have eps: "BuildPeerEndpoints [(mc_PodName cfg, ips)] (mc_PeerPort cfg) True True =
      map (\<lambda>ip. mc_PodName cfg @ ''='' @ peer_url ip (mc_PeerPort cfg)) ips"
    by (simp add: peer_url_def)
  show ?thesis
  proof (cases rule: DirExists_cases [where 'e = join_error and f = "fs w" and p = "member_dir cfg"])
    case panic
    with assms show ?thesis by simp
  next
    case yes
    with assms(2) show ?thesis
      by (cases "sticky (fs w) (member_dir cfg)")
        (simp_all add: InitializeNewCluster_def Let_def eps startEtcd_def setenv_def remove_all_def peer_url_def)
  next
    case no
    with assms(2) show ?thesis
      by (simp add: InitializeNewCluster_def Let_def eps startEtcd_def setenv_def peer_url_def)
  qed
qed

end
