(* ===== verification/Brain_Split.thy ===== *)
theory Brain_Split
  imports Membership
begin

text \<open>
  \<open>pkg/cluster/manager.go\<close>, the brain-split checker: one check compares the cluster ID and the
  member ID of the local etcd with what the healthy other nodes report; the checker repeats
  it on a ticker until it is conclusive or stopped. What the etcd client gets from an endpoint
  (connecting, \<open>MemberList\<close>) is a parameter, constant during one check.
\<close>

section \<open>State and parameters\<close>

datatype peer_reply = NoClient | ListError | Members member_id "member list"

text \<open>What one check can observe: the discovery surroundings and each endpoint's reply.\<close>

record split_env =
  sp_disc :: disc_env
  sp_reply :: "string \<Rightarrow> peer_reply"

record BrainSplitCheckConfig =
  bs_NodeIPDir :: string
  bs_ClientPort :: string
  bs_CertFile :: string
  bs_KeyFile :: string
  bs_MyPodName :: string
  bs_MyIPs :: "string list"
  bs_CheckPeriod :: int

record BrainSplitCheckResult =
  BrainSplitDetected :: bool
  Reason :: string

abbreviation inconclusive :: "string \<Rightarrow> BrainSplitCheckResult" where
  "inconclusive r \<equiv> \<lparr>BrainSplitDetected = False, Reason = r\<rparr>"

text \<open>\<open>fmt.Sprintf("%016x", w)\<close>.\<close>

definition hex_char :: "nat \<Rightarrow> char" where
  "hex_char n = (if n < 10 then char_of (48 + n) else char_of (87 + n))"

definition fmt_016x :: "64 word \<Rightarrow> string" where
  "fmt_016x w = map (\<lambda>k. hex_char (unat (drop_bit (4 * k) w) mod 16)) (rev [0..<16])"

section \<open>One check\<close>

fun memberIDFound :: "member list \<Rightarrow> member_id \<Rightarrow> bool" where
  "memberIDFound [] i = False"
| "memberIDFound (m # ms) i = (if m_ID m = i then True else memberIDFound ms i)"

fun first_named :: "string \<Rightarrow> member list \<Rightarrow> member_id" where
  "first_named n [] = 0"
| "first_named n (m # ms) = (if m_Name m = n then m_ID m else first_named n ms)"

definition getLocalClusterInfo :: "split_env \<Rightarrow> mgr_config \<Rightarrow> member_id \<times> member_id" where
  "getLocalClusterInfo e cfg =
     (case sp_reply e (join_host_port ''127.0.0.1'' (mc_ClientPort cfg)) of
        NoClient \<Rightarrow> (0, 0)
      | ListError \<Rightarrow> (0, 0)
      | Members cid ms \<Rightarrow> (cid, first_named (mc_PodName cfg) ms))"

text \<open>The inner loop of \<open>collectOtherEndpoints\<close>: the first healthy address that is not mine.\<close>

fun first_healthy :: "probe \<Rightarrow> string set \<Rightarrow> string \<Rightarrow> string list \<Rightarrow> string option" where
  "first_healthy pr mine port [] = None"
| "first_healthy pr mine port (ip # ips) =
     (if ip \<in> mine then first_healthy pr mine port ips
      else if checkSingleEndpoint pr (join_host_port ip port) = HealthHealthy
      then Some (join_host_port ip port)
      else first_healthy pr mine port ips)"

fun collect_loop ::
    "split_env \<Rightarrow> BrainSplitCheckConfig \<Rightarrow> string set \<Rightarrow> dirent list
      \<Rightarrow> string list \<Rightarrow> nat \<Rightarrow> string list \<times> nat" where
  "collect_loop e cfg mine [] others cnt = (others, cnt)"
| "collect_loop e cfg mine (x # xs) others cnt =
     (if ent_isdir x \<or> \<not> is_ip (ent_name x) \<or> ent_name x \<in> mine
      then collect_loop e cfg mine xs others cnt
      else (case readIPFile (files (sp_disc e)) (bs_NodeIPDir cfg) (ent_name x) of
              None \<Rightarrow> collect_loop e cfg mine xs others (Suc cnt)
            | Some ips \<Rightarrow>
                (case first_healthy (network (sp_disc e)) mine (bs_ClientPort cfg) ips of
                   None \<Rightarrow> collect_loop e cfg mine xs others (Suc cnt)
                 | Some ep \<Rightarrow> collect_loop e cfg mine xs (others @ [ep]) (Suc cnt))))"

text \<open>\<open>Inl\<close> is the ready-made result, \<open>Inr\<close> the endpoints to compare with.\<close>

definition collectOtherEndpoints ::
    "split_env \<Rightarrow> BrainSplitCheckConfig \<Rightarrow> string set \<Rightarrow> BrainSplitCheckResult + string list" where
  "collectOtherEndpoints e cfg mine =
     (case listing (sp_disc e) (bs_NodeIPDir cfg) of
        None \<Rightarrow> Inl (inconclusive ''read error'')
      | Some entries \<Rightarrow>
          (let (others, cnt) = collect_loop e cfg mine entries [] 0 in
           if others = [] then
             Inl (inconclusive (if 0 < cnt then ''no healthy nodes to compare'' else ''no other nodes''))
           else Inr others))"

fun verify_loop ::
    "split_env \<Rightarrow> member_id \<Rightarrow> member_id \<Rightarrow> string list \<Rightarrow> nat \<Rightarrow> BrainSplitCheckResult" where
  "verify_loop e cid mid [] verified =
     (if verified = 0 then inconclusive ''no healthy nodes to compare'' else inconclusive ''verified'')"
| "verify_loop e cid mid (ep # eps) verified =
     (case sp_reply e ep of
        NoClient \<Rightarrow> verify_loop e cid mid eps verified
      | ListError \<Rightarrow> verify_loop e cid mid eps verified
      | Members theirs ms \<Rightarrow>
          if theirs \<noteq> 0 \<and> cid \<noteq> theirs then
            \<lparr>BrainSplitDetected = True,
             Reason = ''cluster ID mismatch: ours='' @ fmt_016x cid @ '', theirs='' @ fmt_016x theirs
                        @ '' from '' @ ep\<rparr>
          else if \<not> memberIDFound ms mid then
            \<lparr>BrainSplitDetected = True,
             Reason = ''endpoint '' @ ep @ '' does not contain our member ID '' @ fmt_016x mid\<rparr>
          else verify_loop e cid mid eps (Suc verified))"

definition verifyWithOtherNodes ::
    "split_env \<Rightarrow> string list \<Rightarrow> member_id \<Rightarrow> member_id \<Rightarrow> BrainSplitCheckResult" where
  "verifyWithOtherNodes e eps cid mid = verify_loop e cid mid eps 0"

definition checkBrainSplit ::
    "split_env \<Rightarrow> mgr_config \<Rightarrow> BrainSplitCheckConfig \<Rightarrow> BrainSplitCheckResult" where
  "checkBrainSplit e mgr cfg =
     (let mine = set (bs_MyIPs cfg);
          (cid, mid) = getLocalClusterInfo e mgr
      in if cid = 0 \<or> mid = 0 then inconclusive ''local not ready''
         else (case collectOtherEndpoints e cfg mine of
                 Inl r \<Rightarrow> r
               | Inr others \<Rightarrow> verifyWithOtherNodes e others cid mid))"

section \<open>The checker goroutine\<close>

text \<open>
  Its events: the stop channel closes, or the ticker fires in some surroundings. It runs, or
  has ended with the result channel closed after sending at most one result.
\<close>

datatype checker_event = StopSignal | Tick split_env

datatype checker = CheckerRunning | CheckerDone "BrainSplitCheckResult option"

definition check_period :: "BrainSplitCheckConfig \<Rightarrow> int" where
  "check_period cfg = (if bs_CheckPeriod cfg \<le> 0 then 5 * 10 ^ 9 else bs_CheckPeriod cfg)"

definition start_checker :: "disc_env \<Rightarrow> BrainSplitCheckConfig \<Rightarrow> checker" where
  "start_checker e cfg =
     (case loadTLSConfig e (bs_CertFile cfg) (bs_KeyFile cfg) of
        Some err \<Rightarrow> CheckerDone None
      | None \<Rightarrow> CheckerRunning)"

fun checker_step :: "mgr_config \<Rightarrow> BrainSplitCheckConfig \<Rightarrow> checker_event \<Rightarrow> checker \<Rightarrow> checker" where
  "checker_step mgr cfg ev (CheckerDone r) = CheckerDone r"
| "checker_step mgr cfg StopSignal CheckerRunning = CheckerDone None"
| "checker_step mgr cfg (Tick e) CheckerRunning =
     (let result = checkBrainSplit e mgr cfg in
      if BrainSplitDetected result then CheckerDone (Some result)
      else if Reason result = ''verified'' then CheckerDone (Some (inconclusive ''all checks passed''))
      else CheckerRunning)"

definition StartBrainSplitChecker ::
    "mgr_config \<Rightarrow> BrainSplitCheckConfig \<Rightarrow> disc_env \<Rightarrow> checker_event list \<Rightarrow> checker" where
  "StartBrainSplitChecker mgr cfg e evs = fold (checker_step mgr cfg) evs (start_checker e cfg)"

text \<open>A receive on the result channel: a closed, drained channel yields the zero value.\<close>

fun result_received :: "checker \<Rightarrow> BrainSplitCheckResult option" where
  "result_received CheckerRunning = None"
| "result_received (CheckerDone (Some r)) = Some r"
| "result_received (CheckerDone None) = Some \<lparr>BrainSplitDetected = False, Reason = ''''\<rparr>"

section \<open>Lemmas\<close>

lemma memberIDFound_iff [simp]: "memberIDFound ms i \<longleftrightarrow> i \<in> m_ID ` set ms"
  by (induction ms) auto

text \<open>An endpoint that answers contradicts or confirms us.\<close>

definition contradicts :: "split_env \<Rightarrow> member_id \<Rightarrow> member_id \<Rightarrow> string \<Rightarrow> bool" where
  "contradicts e cid mid ep \<longleftrightarrow>
     (\<exists>theirs ms. sp_reply e ep = Members theirs ms \<and>
        (theirs \<noteq> 0 \<and> theirs \<noteq> cid \<or> mid \<notin> m_ID ` set ms))"

definition confirms :: "split_env \<Rightarrow> member_id \<Rightarrow> member_id \<Rightarrow> string \<Rightarrow> bool" where
  "confirms e cid mid ep \<longleftrightarrow>
     (\<exists>theirs ms. sp_reply e ep = Members theirs ms \<and>
        (theirs = 0 \<or> theirs = cid) \<and> mid \<in> m_ID ` set ms)"

lemma verify_loop_detected:
  "BrainSplitDetected (verify_loop e cid mid eps n) \<longleftrightarrow> (\<exists>ep \<in> set eps. contradicts e cid mid ep)"
proof (induction eps arbitrary: n)
  case (Cons ep eps)
  then show ?case
    by (cases "sp_reply e ep") (auto simp: contradicts_def simp del: memberIDFound.simps)
qed simp

lemma verify_loop_reason:
  assumes "\<not> BrainSplitDetected (verify_loop e cid mid eps n)"
  shows "Reason (verify_loop e cid mid eps n) =
    (if 0 < n \<or> (\<exists>ep \<in> set eps. confirms e cid mid ep) then ''verified''
     else ''no healthy nodes to compare'')"
  using assms
proof (induction eps arbitrary: n)
  case (Cons ep eps)
  show ?case
  proof (cases "sp_reply e ep")
    case (Members theirs ms)
    with Cons.prems have ok: "theirs = 0 \<or> cid = theirs" "mid \<in> m_ID ` set ms"
      by (auto split: if_splits)
    then have "confirms e cid mid ep" using Members by (auto simp: confirms_def)
    then show ?thesis using Cons Members ok by auto
  qed (use Cons in \<open>auto simp: confirms_def\<close>)
qed auto

lemma detected_reason:
  "BrainSplitDetected (verify_loop e cid mid eps n) \<Longrightarrow> Reason (verify_loop e cid mid eps n) \<noteq> ''verified''"
  by (induction eps arbitrary: n) (auto split: peer_reply.splits if_splits)

lemma first_healthy_Some:
  "first_healthy pr mine port ips = Some ep \<Longrightarrow>
     \<exists>ip \<in> set ips. ip \<notin> mine \<and> ep = join_host_port ip port \<and> checkSingleEndpoint pr ep = HealthHealthy"
  by (induction ips) (auto split: if_splits)

text \<open>Every collected endpoint is healthy and is not one of the own addresses.\<close>

definition foreign_healthy :: "split_env \<Rightarrow> BrainSplitCheckConfig \<Rightarrow> string set \<Rightarrow> string \<Rightarrow> bool" where
  "foreign_healthy e cfg mine ep \<longleftrightarrow>
     (\<exists>ip. ip \<notin> mine \<and> ep = join_host_port ip (bs_ClientPort cfg) \<and>
        checkSingleEndpoint (network (sp_disc e)) ep = HealthHealthy)"

lemma collect_loop_foreign:
  assumes "\<forall>ep \<in> set others. foreign_healthy e cfg mine ep"
  shows "\<forall>ep \<in> set (fst (collect_loop e cfg mine xs others n)). foreign_healthy e cfg mine ep"
  using assms
proof (induction xs arbitrary: others n)
  case (Cons x xs)
  show ?case
  proof (cases "ent_isdir x \<or> \<not> is_ip (ent_name x) \<or> ent_name x \<in> mine")
    case True
    then show ?thesis using Cons by simp
  next
    case False
    show ?thesis
    proof (cases "readIPFile (files (sp_disc e)) (bs_NodeIPDir cfg) (ent_name x)")
      case None
      then show ?thesis using Cons False by simp
    next
      case (Some ips)
      show ?thesis
      proof (cases "first_healthy (network (sp_disc e)) mine (bs_ClientPort cfg) ips")
        case None
        then show ?thesis using Cons False Some by simp
      next
        case ep: (Some ep)
        then have "foreign_healthy e cfg mine ep"
          using first_healthy_Some by (fastforce simp: foreign_healthy_def)
        then have "\<forall>ep \<in> set (others @ [ep]). foreign_healthy e cfg mine ep"
          using Cons.prems by simp
        from Cons.IH [OF this] show ?thesis using False Some ep by simp
      qed
    qed
  qed
qed simp

lemma collectOtherEndpoints_foreign:
  assumes "collectOtherEndpoints e cfg mine = Inr others"
  shows "others \<noteq> []" and "\<forall>ep \<in> set others. foreign_healthy e cfg mine ep"
proof -
  obtain entries n where "collect_loop e cfg mine entries [] 0 = (others, n)" and "others \<noteq> []"
    using assms by (auto simp: collectOtherEndpoints_def split: option.splits prod.splits if_splits)
  then show "others \<noteq> []" and "\<forall>ep \<in> set others. foreign_healthy e cfg mine ep"
    using collect_loop_foreign [of "[]" e cfg mine entries 0] by simp_all
qed

lemma collectOtherEndpoints_Inl:
  "collectOtherEndpoints e cfg mine = Inl r \<Longrightarrow> \<not> BrainSplitDetected r \<and> Reason r \<noteq> ''verified''"
  by (auto simp: collectOtherEndpoints_def split: option.splits prod.splits if_splits)

text \<open>A conclusive check rests on the local IDs and on endpoints of other nodes.\<close>

lemma checkBrainSplit_conclusive:
  assumes "BrainSplitDetected (checkBrainSplit e mgr cfg) \<or> Reason (checkBrainSplit e mgr cfg) = ''verified''"
  obtains cid mid others where "getLocalClusterInfo e mgr = (cid, mid)" "cid \<noteq> 0" "mid \<noteq> 0"
    and "collectOtherEndpoints e cfg (set (bs_MyIPs cfg)) = Inr others"
    and "checkBrainSplit e mgr cfg = verify_loop e cid mid others 0"
proof -
  obtain cid mid where l: "getLocalClusterInfo e mgr = (cid, mid)" by (cases "getLocalClusterInfo e mgr")
  have nz: "cid \<noteq> 0" "mid \<noteq> 0" using assms l by (auto simp: checkBrainSplit_def)
  show thesis
  proof (cases "collectOtherEndpoints e cfg (set (bs_MyIPs cfg))")
    case (Inl r)
    with collectOtherEndpoints_Inl [OF Inl] assms l nz show thesis by (simp add: checkBrainSplit_def)
  next
    case (Inr others)
    with l nz show thesis by (intro that) (simp_all add: checkBrainSplit_def verifyWithOtherNodes_def)
  qed
qed

lemma checker_done [simp]: "fold (checker_step mgr cfg) evs (CheckerDone r) = CheckerDone r"
  by (induction evs) auto

lemma checker_from_running:
  "fold (checker_step mgr cfg) evs CheckerRunning = CheckerDone (Some r) \<Longrightarrow>
     \<exists>e. Tick e \<in> set evs \<and>
       (BrainSplitDetected (checkBrainSplit e mgr cfg) \<and> r = checkBrainSplit e mgr cfg \<or>
        \<not> BrainSplitDetected (checkBrainSplit e mgr cfg) \<and>
        Reason (checkBrainSplit e mgr cfg) = ''verified'' \<and> r = inconclusive ''all checks passed'')"
proof (induction evs)
  case (Cons ev evs)
  show ?case
  proof (cases ev)
    case StopSignal
    then show ?thesis using Cons.prems by simp
  next
    case (Tick e)
    then show ?thesis using Cons by (auto simp: Let_def split: if_splits)
  qed
qed simp

lemma checker_keeps_running:
  assumes "\<And>e. Tick e \<in> set evs \<Longrightarrow> \<not> BrainSplitDetected (checkBrainSplit e mgr cfg) \<and>
      Reason (checkBrainSplit e mgr cfg) \<noteq> ''verified''"
    and "StopSignal \<notin> set evs"
  shows "fold (checker_step mgr cfg) evs CheckerRunning = CheckerRunning"
  using assms
proof (induction evs)
  case (Cons ev evs)
  then show ?case by (cases ev) (auto simp: Let_def)
qed simp

section \<open>Properties\<close>

text \<open>
  C12: A check that reports ``verified'' is right: the local etcd has told both its IDs, at
  least one healthy endpoint of another node confirms them, and no consulted endpoint that
  answered contradicts them.
\<close>

theorem verified_is_sound:
  assumes "Reason (checkBrainSplit e mgr cfg) = ''verified''"
  shows "\<exists>cid mid others. getLocalClusterInfo e mgr = (cid, mid) \<and> cid \<noteq> 0 \<and> mid \<noteq> 0 \<and>
    collectOtherEndpoints e cfg (set (bs_MyIPs cfg)) = Inr others \<and>
    (\<exists>ep \<in> set others. confirms e cid mid ep \<and> foreign_healthy e cfg (set (bs_MyIPs cfg)) ep) \<and>
    (\<forall>ep \<in> set others. \<not> contradicts e cid mid ep)"
proof -
  obtain cid mid others where l: "getLocalClusterInfo e mgr = (cid, mid)" "cid \<noteq> 0" "mid \<noteq> 0"
    and c: "collectOtherEndpoints e cfg (set (bs_MyIPs cfg)) = Inr others"
    and r: "checkBrainSplit e mgr cfg = verify_loop e cid mid others 0"
    using checkBrainSplit_conclusive assms by blast
  have nd: "\<not> BrainSplitDetected (verify_loop e cid mid others 0)"
  proof
    assume "BrainSplitDetected (verify_loop e cid mid others 0)"
    then show False using assms detected_reason r by metis
  qed
  have "\<exists>ep \<in> set others. confirms e cid mid ep"
    using verify_loop_reason [OF nd] assms r by (auto split: if_splits)
  moreover have "\<forall>ep \<in> set others. \<not> contradicts e cid mid ep"
    using nd verify_loop_detected by blast
  ultimately show ?thesis using l c collectOtherEndpoints_foreign(2) [OF c] by blast
qed

text \<open>Surroundings with one other node, for the witnesses; \<open>cid\<close> is its cluster.\<close>

definition two_nodes :: "member_id \<Rightarrow> split_env" where
  "two_nodes cid = \<lparr>sp_disc = \<lparr>files = \<lparr>node = (\<lambda>p. Absent), sticky = (\<lambda>p. False)\<rparr>,
     listing = (\<lambda>d. Some [\<lparr>ent_name = ''10.0.0.1'', ent_isdir = False\<rparr>, \<lparr>ent_name = ''10.0.0.2'', ent_isdir = False\<rparr>]),
     key_pair = (\<lambda>c k. True),
     network = \<lparr>tcp_dial = (\<lambda>ep. True), client_new = (\<lambda>ep. True), client_get = (\<lambda>ep. GetOk),
       alarm_list = (\<lambda>ep. Some 0)\<rparr>\<rparr>,
     sp_reply = (\<lambda>ep. if ep = ''127.0.0.1:2479'' then Members 11 [demo_member 6 ''etcd-1'' ''10.0.0.1'' False]
       else Members cid [demo_member 6 ''etcd-1'' ''10.0.0.1'' False, demo_member 7 ''etcd-2'' ''10.0.0.2'' False])\<rparr>"

definition demo_check :: BrainSplitCheckConfig where
  "demo_check = \<lparr>bs_NodeIPDir = ''/d'', bs_ClientPort = ''2479'', bs_CertFile = [], bs_KeyFile = [],
     bs_MyPodName = ''etcd-1'', bs_MyIPs = [''10.0.0.1''], bs_CheckPeriod = 0\<rparr>"

theorem verified_is_sound_witness:
  "\<exists>cid mid others. getLocalClusterInfo (two_nodes 11) demo_mgr = (cid, mid) \<and>
     (\<exists>ep \<in> set others. confirms (two_nodes 11) cid mid ep)"
proof -
  have "Reason (checkBrainSplit (two_nodes 11) demo_mgr demo_check) = ''verified''" by code_simp
  from verified_is_sound [OF this] show ?thesis by blast
qed

text \<open>
  C11: With the local IDs known and endpoints to compare with, a brain split is detected exactly
  when some endpoint that answers reports another non-zero cluster ID or a member list without
  our member; whatever else is missing (local IDs, other nodes) never counts as a split.
\<close>

theorem detected_iff_contradicted:
  "BrainSplitDetected (checkBrainSplit e mgr cfg) \<longleftrightarrow>
   (\<exists>cid mid others. getLocalClusterInfo e mgr = (cid, mid) \<and> cid \<noteq> 0 \<and> mid \<noteq> 0 \<and>
      collectOtherEndpoints e cfg (set (bs_MyIPs cfg)) = Inr others \<and>
      (\<exists>ep \<in> set others. contradicts e cid mid ep))"
proof
  assume d: "BrainSplitDetected (checkBrainSplit e mgr cfg)"
  obtain cid mid others where l: "getLocalClusterInfo e mgr = (cid, mid)" "cid \<noteq> 0" "mid \<noteq> 0"
    and c: "collectOtherEndpoints e cfg (set (bs_MyIPs cfg)) = Inr others"
    and r: "checkBrainSplit e mgr cfg = verify_loop e cid mid others 0"
    using checkBrainSplit_conclusive d by blast
  with d show "\<exists>cid mid others. getLocalClusterInfo e mgr = (cid, mid) \<and> cid \<noteq> 0 \<and> mid \<noteq> 0 \<and>
      collectOtherEndpoints e cfg (set (bs_MyIPs cfg)) = Inr others \<and>
      (\<exists>ep \<in> set others. contradicts e cid mid ep)"
    by (auto simp: verify_loop_detected)
next
  assume "\<exists>cid mid others. getLocalClusterInfo e mgr = (cid, mid) \<and> cid \<noteq> 0 \<and> mid \<noteq> 0 \<and>
      collectOtherEndpoints e cfg (set (bs_MyIPs cfg)) = Inr others \<and>
      (\<exists>ep \<in> set others. contradicts e cid mid ep)"
  then show "BrainSplitDetected (checkBrainSplit e mgr cfg)"
    by (auto simp: checkBrainSplit_def verifyWithOtherNodes_def verify_loop_detected)
qed



end
