(* ===== verification/Init_Net.thy ===== *)
theory Init_Net
  imports Discovery
begin

text \<open>
  \<open>pkg/init/network.go\<close>: the IPv4 addresses of the configured interfaces and the URLs built
  from them. The host's interfaces are a parameter: for a name, its addresses in the kernel's
  order, each an IP in bytes with the \<open>(ones, bits)\<close> of its mask where it has one.
\<close>

datatype net_addr =
  IPNetAddr "nat list" nat nat
| IPAddrAddr "nat list"
| OtherAddr

datatype iface_result = NoIface | AddrsFailed | Addrs "net_addr list"

record host_net =
  iface :: "string \<Rightarrow> iface_result"
  iface_names :: "string list option"

datatype net_error =
  IfaceLookupFailed string
| IfaceAddrsFailed string
| NoIPv4On string
| NoInterfacesSpecified
| NoIPv4Found
| ListInterfacesFailed
| NoInterfaceWithPrefix string
| NoIPv4WithPrefix string

record NetworkConfig =
  nc_Interfaces :: "string list"
  nc_ClientPort :: string
  nc_ClientHTTPPort :: string
  nc_PeerPort :: string

record NetworkInfo =
  ni_IPs :: "string list"
  ni_PeerURLs :: "string list"
  ni_ClientURLs :: "string list"
  ni_ClientHTTPURLs :: "string list"

text \<open>The type switch: the IP (\<open>[]\<close> is \<open>nil\<close>) and the mask sizes, zero where there is no mask.\<close>

fun addr_parts :: "net_addr \<Rightarrow> nat list \<times> nat \<times> nat" where
  "addr_parts (IPNetAddr ip ones bits) = (ip, ones, bits)"
| "addr_parts (IPAddrAddr ip) = (ip, 0, 0)"
| "addr_parts OtherAddr = ([], 0, 0)"

fun first_ipv4 :: "net_addr list \<Rightarrow> string option" where
  "first_ipv4 [] = None"
| "first_ipv4 (a # as) =
     (let (ip, ones, bits) = addr_parts a in
      case to4 ip of
        None \<Rightarrow> first_ipv4 as
      | Some b \<Rightarrow> if bits = 32 \<and> ones = 32 then first_ipv4 as else Some (ipv4_string b))"

definition GetInterfaceIP :: "host_net \<Rightarrow> string \<Rightarrow> net_error + string" where
  "GetInterfaceIP h name =
     (case iface h name of
        NoIface \<Rightarrow> Inl (IfaceLookupFailed name)
      | AddrsFailed \<Rightarrow> Inl (IfaceAddrsFailed name)
      | Addrs as \<Rightarrow> (case first_ipv4 as of None \<Rightarrow> Inl (NoIPv4On name) | Some ip \<Rightarrow> Inr ip))"

definition url :: "string \<Rightarrow> string \<Rightarrow> string" where
  "url ip port = ''https://'' @ ip @ '':'' @ port"

definition add_url :: "string \<Rightarrow> string \<Rightarrow> string list \<Rightarrow> string list" where
  "add_url port ip us = (if port \<noteq> [] then us @ [url ip port] else us)"

fun extractIPsFromInterfaces :: "host_net \<Rightarrow> NetworkConfig \<Rightarrow> string list \<Rightarrow> NetworkInfo \<Rightarrow> NetworkInfo" where
  "extractIPsFromInterfaces h cfg [] info = info"
| "extractIPsFromInterfaces h cfg (n # ns) info =
     (case GetInterfaceIP h n of
        Inl e \<Rightarrow> extractIPsFromInterfaces h cfg ns info
      | Inr ip \<Rightarrow> extractIPsFromInterfaces h cfg ns
          (info\<lparr>ni_IPs := ni_IPs info @ [ip],
                ni_PeerURLs := add_url (nc_PeerPort cfg) ip (ni_PeerURLs info),
                ni_ClientURLs := add_url (nc_ClientPort cfg) ip (ni_ClientURLs info),
                ni_ClientHTTPURLs := add_url (nc_ClientHTTPPort cfg) ip (ni_ClientHTTPURLs info)\<rparr>))"

definition ExtractNetworkInfo :: "host_net \<Rightarrow> NetworkConfig \<Rightarrow> net_error + NetworkInfo" where
  "ExtractNetworkInfo h cfg =
     (if nc_Interfaces cfg = [] then Inl NoInterfacesSpecified
      else (let info = extractIPsFromInterfaces h cfg (nc_Interfaces cfg)
                  \<lparr>ni_IPs = [], ni_PeerURLs = [], ni_ClientURLs = [], ni_ClientHTTPURLs = []\<rparr>
            in if ni_IPs info = [] then Inl NoIPv4Found else Inr info))"

definition GetInterfacesByPrefix :: "host_net \<Rightarrow> string \<Rightarrow> net_error + string list" where
  "GetInterfacesByPrefix h pre =
     (case iface_names h of
        None \<Rightarrow> Inl ListInterfacesFailed
      | Some names \<Rightarrow>
          (let matched = filter (prefix pre) names in
           if matched = [] then Inl (NoInterfaceWithPrefix pre) else Inr matched))"

fun rights :: "('e + 'a) list \<Rightarrow> 'a list" where
  "rights [] = []"
| "rights (Inl e # xs) = rights xs"
| "rights (Inr a # xs) = a # rights xs"

definition GetIPsByPrefix :: "host_net \<Rightarrow> string \<Rightarrow> net_error + string list" where
  "GetIPsByPrefix h pre =
     (case GetInterfacesByPrefix h pre of
        Inl e \<Rightarrow> Inl e
      | Inr names \<Rightarrow>
          (let ips = rights (map (GetInterfaceIP h) names) in
           if ips = [] then Inl (NoIPv4WithPrefix pre) else Inr ips))"

section \<open>Lemmas\<close>

lemma url_peer_url: "url = peer_url"
  by (simp add: url_def peer_url_def fun_eq_iff)

text \<open>The addresses found, in the order of the interfaces; the URL lists run along them.\<close>

definition iface_ips :: "host_net \<Rightarrow> string list \<Rightarrow> string list" where
  "iface_ips h ns = rights (map (GetInterfaceIP h) ns)"

definition urls_for :: "string \<Rightarrow> string list \<Rightarrow> string list" where
  "urls_for port ips = (if port = [] then [] else map (\<lambda>ip. peer_url ip port) ips)"

lemma add_url_urls_for: "add_url port ip us = us @ urls_for port [ip]"
  by (simp add: add_url_def urls_for_def url_peer_url)

lemma urls_for_Cons: "urls_for port (ip # ips) = urls_for port [ip] @ urls_for port ips"
  by (simp add: urls_for_def)

lemma extractIPs_spec:
  "extractIPsFromInterfaces h cfg ns info =
     info\<lparr>ni_IPs := ni_IPs info @ iface_ips h ns,
          ni_PeerURLs := ni_PeerURLs info @ urls_for (nc_PeerPort cfg) (iface_ips h ns),
          ni_ClientURLs := ni_ClientURLs info @ urls_for (nc_ClientPort cfg) (iface_ips h ns),
          ni_ClientHTTPURLs := ni_ClientHTTPURLs info @ urls_for (nc_ClientHTTPPort cfg) (iface_ips h ns)\<rparr>"
proof (induction ns arbitrary: info)
  case Nil
  then show ?case by (simp add: iface_ips_def urls_for_def)
next
  case (Cons n ns)
  show ?case
  proof (cases "GetInterfaceIP h n")
    case (Inl e)
    then show ?thesis by (simp add: Cons.IH iface_ips_def)
  next
    case (Inr ip)
    then have "iface_ips h (n # ns) = ip # iface_ips h ns" by (simp add: iface_ips_def)
    with Inr show ?thesis
      by (simp add: Cons.IH add_url_urls_for urls_for_Cons [of _ ip "iface_ips h ns"])
  qed
qed

lemma ExtractNetworkInfo_Inr:
  "ExtractNetworkInfo h cfg = Inr info \<longleftrightarrow>
     iface_ips h (nc_Interfaces cfg) \<noteq> [] \<and>
     info = \<lparr>ni_IPs = iface_ips h (nc_Interfaces cfg),
             ni_PeerURLs = urls_for (nc_PeerPort cfg) (iface_ips h (nc_Interfaces cfg)),
             ni_ClientURLs = urls_for (nc_ClientPort cfg) (iface_ips h (nc_Interfaces cfg)),
             ni_ClientHTTPURLs = urls_for (nc_ClientHTTPPort cfg) (iface_ips h (nc_Interfaces cfg))\<rparr>"
  by (auto simp: ExtractNetworkInfo_def extractIPs_spec iface_ips_def Let_def split: if_splits)

text \<open>No loopback-style host route: an address found has a mask other than /32.\<close>

lemma first_ipv4_Some:
  assumes "first_ipv4 as = Some s"
  shows "\<exists>a \<in> set as. \<exists>ip ones bits b. addr_parts a = (ip, ones, bits) \<and> to4 ip = Some b \<and>
    s = ipv4_string b \<and> \<not> (bits = 32 \<and> ones = 32)"
  using assms
proof (induction as)
  case (Cons a as)
  obtain ip ones bits where a: "addr_parts a = (ip, ones, bits)" by (cases "addr_parts a") auto
  show ?case
  proof (cases "to4 ip")
    case None
    with Cons a show ?thesis by auto
  next
    case (Some b)
    show ?thesis
    proof (cases "bits = 32 \<and> ones = 32")
      case True
      with Cons a Some show ?thesis by auto
    next
      case False
      with Cons.prems a Some have "s = ipv4_string b" by auto
      with False a Some show ?thesis by auto
    qed
  qed
qed simp

lemma to4_length: "to4 ip = Some b \<Longrightarrow> length b = 4"
  by (auto simp: to4_def split: if_splits)

definition bytes_ok :: "net_addr \<Rightarrow> bool" where
  "bytes_ok a \<longleftrightarrow> (\<forall>x \<in> set (fst (addr_parts a)). x < 256)"

lemma to4_bytes: "to4 ip = Some b \<Longrightarrow> set b \<subseteq> set ip"
  by (auto simp: to4_def dest: in_set_dropD split: if_splits)

text \<open>Addresses come out in a form that \<open>net.ParseIP\<close> accepts.\<close>

lemma first_ipv4_is_ip:
  assumes "first_ipv4 as = Some s" and "\<forall>a \<in> set as. bytes_ok a"
  shows "is_ip s"
proof -
  obtain a ip ones bits b where a: "a \<in> set as" "addr_parts a = (ip, ones, bits)"
    and b: "to4 ip = Some b" "s = ipv4_string b"
    using first_ipv4_Some [OF assms(1)] by blast
  have "\<forall>x \<in> set b. x < 256"
    using to4_bytes [OF b(1)] assms(2) a by (auto simp: bytes_ok_def)
  moreover obtain p q r t where "b = [p, q, r, t]"
    using to4_length [OF b(1)] by (auto simp: length_Suc_conv numeral_eq_Suc)
  ultimately show ?thesis
    using parse_ip_ipv4_string [of p q r t] b(2) by (simp add: is_ip_def)
qed

lemma GetInterfaceIP_is_ip:
  assumes "GetInterfaceIP h n = Inr ip"
    and "\<forall>n as. iface h n = Addrs as \<longrightarrow> (\<forall>a \<in> set as. bytes_ok a)"
  shows "is_ip ip"
proof -
  obtain as where "iface h n = Addrs as" "first_ipv4 as = Some ip"
    using assms(1) by (auto simp: GetInterfaceIP_def split: iface_result.splits option.splits)
  with assms(2) show ?thesis by (blast intro: first_ipv4_is_ip)
qed

lemma rights_nonempty: "rights xs \<noteq> [] \<longleftrightarrow> (\<exists>a. Inr a \<in> set xs)"
  by (induction xs rule: rights.induct) auto

lemma set_rights: "a \<in> set (rights xs) \<longleftrightarrow> Inr a \<in> set xs"
  by (induction xs rule: rights.induct) auto

section \<open>Properties\<close>



end
