(* ===== verification/Cluster_Config.thy ===== *)
theory Cluster_Config
  imports Init_Net
begin

text \<open>
  \<open>cmd/etcdcluster/main.go\<close>, the configuration: \<open>parsePodName\<close>, \<open>getEnvOrDefault\<close>,
  \<open>validateRequiredEnvVars\<close>, \<open>validateCAFiles\<close> and \<open>loadConfig\<close>. The process environment is a
  function from names to values, the empty string for an unset name as \<open>os.Getenv\<close> has it.
\<close>

datatype cfg_error =
  MissingEnvVars "string set"
| MaxRequired
| MaxNotPositive int
| InterfacesRequired
| InvalidPodName string
| CAFileMissing string
| CAKeyFileMissing string
| NetworkInfoFailed net_error
| NoAddresses

section \<open>Pod names\<close>

text \<open>
  The regular expression \<open>^(.*)-(\d+)$\<close>: the digits at the end of the name, a dash before
  them, and a prefix without a newline. The dash is no digit, so the digits are the maximal
  run at the end.
\<close>

definition match_pod_name :: "string \<Rightarrow> (string \<times> string) option" where
  "match_pod_name s =
     (let r = rev s; ds = takeWhile is_digit r; rest = dropWhile is_digit r in
      case rest of
        [] \<Rightarrow> None
      | c # pre \<Rightarrow>
          if ds \<noteq> [] \<and> c = CHR ''-'' \<and> CHR 0x0A \<notin> set pre then Some (rev pre, rev ds) else None)"

definition parsePodName :: "string \<Rightarrow> (cfg_error, string \<times> int) gores" where
  "parsePodName podName =
     (case match_pod_name podName of
        None \<Rightarrow> GoErr (InvalidPodName podName)
      | Some (pre, ds) \<Rightarrow>
          (case atoi ds of
             None \<Rightarrow> GoErr (InvalidPodName podName)
           | Some i \<Rightarrow> GoOk (pre, i)))"

lemma dash_no_digit [simp]: "\<not> is_digit CHR ''-''"
  by (simp add: is_digit_def)

lemma match_pod_name_digits:
  assumes "list_all is_digit ds" and "ds \<noteq> []" and "CHR 0x0A \<notin> set p"
  shows "match_pod_name (p @ CHR ''-'' # ds) = Some (p, ds)"
proof -
  have all: "\<forall>c \<in> set (rev ds). is_digit c" using assms(1) by (simp add: list_all_iff)
  have "takeWhile is_digit (rev ds @ CHR ''-'' # rev p) = rev ds"
    using all takeWhile_append2 [of "rev ds" is_digit "CHR ''-'' # rev p"] by simp
  moreover have "dropWhile is_digit (rev ds @ CHR ''-'' # rev p) = CHR ''-'' # rev p"
    using all dropWhile_append2 [of "rev ds" is_digit "CHR ''-'' # rev p"] by simp
  ultimately show ?thesis using assms by (simp add: match_pod_name_def)
qed

lemma match_pod_name_Some:
  assumes "match_pod_name s = Some (p, ds)"
  shows "s = p @ CHR ''-'' # ds" and "ds \<noteq> []" and "list_all is_digit ds" and "CHR 0x0A \<notin> set p"
proof -
  let ?r = "rev s"
  obtain c pre where rest: "dropWhile is_digit ?r = c # pre" and c: "c = CHR ''-''"
    and ne: "takeWhile is_digit ?r \<noteq> []" and nl: "CHR 0x0A \<notin> set pre"
    and p: "p = rev pre" and ds: "ds = rev (takeWhile is_digit ?r)"
    using assms by (auto simp: match_pod_name_def Let_def split: list.splits if_splits)
  have "?r = takeWhile is_digit ?r @ CHR ''-'' # pre"
    using takeWhile_dropWhile_id [of is_digit ?r] rest c by simp
  then have "s = rev (takeWhile is_digit ?r @ CHR ''-'' # pre)" by (metis rev_rev_ident)
  then show "s = p @ CHR ''-'' # ds" by (simp add: p ds)
  show "ds \<noteq> []" "CHR 0x0A \<notin> set p" using ne nl by (simp_all add: ds p)
  show "list_all is_digit ds" by (auto simp: ds list_all_iff dest: set_takeWhileD)
qed

lemma atoi_of_digits:
  assumes "list_all is_digit ds" and "ds \<noteq> []"
  shows "atoi ds = (if int (dec_val ds) < 2 ^ 63 then Some (int (dec_val ds)) else None)"
proof -
  obtain c cs where d: "ds = c # cs" using assms(2) by (cases ds) auto
  then have "is_digit c" using assms(1) by simp
  then have "c \<noteq> CHR ''-''" "c \<noteq> CHR ''+''" by (auto simp: is_digit_def)
  with d assms show ?thesis by (simp add: atoi_def atoi_digits_def Let_def)
qed

section \<open>Loading the configuration\<close>

record etcd_config =
  ec_PodName :: string
  ec_PodNamespace :: string
  ec_ServiceName :: string
  ec_CliName :: string
  ec_Max :: int
  ec_ClientPort :: string
  ec_ClientHTTPPort :: string
  ec_PeerPort :: string
  ec_DataDir :: string
  ec_CertDir :: string
  ec_NodeIPDir :: string
  ec_CAFile :: string
  ec_CAKeyFile :: string
  ec_Interfaces :: "string list"
  ec_Labels :: string
  ec_Prefix :: string
  ec_MyIndex :: int
  ec_MyIPs :: "string list"

definition getEnvOrDefault :: "(string \<Rightarrow> string) \<Rightarrow> string \<Rightarrow> string \<Rightarrow> string" where
  "getEnvOrDefault genv key d = (if genv key \<noteq> [] then genv key else d)"

text \<open>The table of required variables and the names of those with an empty value.\<close>

definition required_vars :: "etcd_config \<Rightarrow> (string \<times> string) list" where
  "required_vars cfg =
     [(''POD_NAME'', ec_PodName cfg), (''POD_NAMESPACE'', ec_PodNamespace cfg),
      (''SERVICE_NAME'', ec_ServiceName cfg), (''NODEIP_DIR'', ec_NodeIPDir cfg)]"

definition validateRequiredEnvVars :: "etcd_config \<Rightarrow> cfg_error option" where
  "validateRequiredEnvVars cfg =
     (let missing = map fst (filter (\<lambda>(name, value). value = []) (required_vars cfg)) in
      if missing \<noteq> [] then Some (MissingEnvVars (set missing)) else None)"

definition validateCAFiles :: "fsys \<Rightarrow> string \<Rightarrow> string \<Rightarrow> cfg_error option" where
  "validateCAFiles f caFile caKeyFile =
     (if node f [caFile] = Absent then Some (CAFileMissing caFile)
      else if node f [caKeyFile] = Absent then Some (CAKeyFileMissing caKeyFile)
      else None)"

definition env_config :: "(string \<Rightarrow> string) \<Rightarrow> etcd_config" where
  "env_config genv =
     \<lparr>ec_PodName = genv ''POD_NAME'',
      ec_PodNamespace = genv ''NAMESPACE'',
      ec_ServiceName = genv ''SERVICE_NAME'',
      ec_CliName = genv ''CLI_NAME'',
      ec_Max = 0,
      ec_ClientPort = getEnvOrDefault genv ''CLIENT_PORT'' ''2479'',
      ec_ClientHTTPPort = getEnvOrDefault genv ''CLIENT_HTTP_PORT'' ''2481'',
      ec_PeerPort = getEnvOrDefault genv ''PEER_PORT'' ''2480'',
      ec_DataDir = getEnvOrDefault genv ''ETCD_DATA_DIR'' ''/run/etcd/data'',
      ec_CertDir = getEnvOrDefault genv ''CERT_DIR'' ''/run/etcd/ssl'',
      ec_NodeIPDir = genv ''NODEIP_DIR'',
      ec_CAFile = getEnvOrDefault genv ''CA_FILE'' ''/run/ssl/ca.pem'',
      ec_CAKeyFile = getEnvOrDefault genv ''CA_KEY_FILE'' ''/run/ssl/ca-key.pem'',
      ec_Interfaces = [],
      ec_Labels = getEnvOrDefault genv ''LABELS'' ''component=etcd'',
      ec_Prefix = '''', ec_MyIndex = 0, ec_MyIPs = []\<rparr>"

definition parse_interfaces :: "string \<Rightarrow> string list" where
  "parse_interfaces s = (if s \<noteq> [] then map trim_space (split_on CHR '','' s) else [])"

definition network_config :: "etcd_config \<Rightarrow> NetworkConfig" where
  "network_config cfg =
     \<lparr>nc_Interfaces = ec_Interfaces cfg, nc_ClientPort = ec_ClientPort cfg,
      nc_ClientHTTPPort = ec_ClientHTTPPort cfg, nc_PeerPort = ec_PeerPort cfg\<rparr>"

text \<open>The checks after \<open>MAX\<close> and the interfaces are known.\<close>

definition finish_config :: "fsys \<Rightarrow> host_net \<Rightarrow> etcd_config \<Rightarrow> (cfg_error, etcd_config) gores" where
  "finish_config f h cfg =
     (if ec_Interfaces cfg = [] then GoErr InterfacesRequired
      else gores_bind (parsePodName (ec_PodName cfg)) (\<lambda>(pre, index).
        (let cfg1 = cfg\<lparr>ec_Prefix := pre, ec_MyIndex := index\<rparr> in
         case validateCAFiles f (ec_CAFile cfg1) (ec_CAKeyFile cfg1) of
           Some e \<Rightarrow> GoErr e
         | None \<Rightarrow>
             (case ExtractNetworkInfo h (network_config cfg1) of
                Inl e \<Rightarrow> GoErr (NetworkInfoFailed e)
              | Inr info \<Rightarrow>
                  (if ni_IPs info = [] then GoErr NoAddresses
                   else GoOk (cfg1\<lparr>ec_MyIPs := ni_IPs info\<rparr>))))))"

definition loadConfig :: "(string \<Rightarrow> string) \<Rightarrow> fsys \<Rightarrow> host_net \<Rightarrow> (cfg_error, etcd_config) gores" where
  "loadConfig genv f h =
     (let cfg = env_config genv in
      case validateRequiredEnvVars cfg of
        Some e \<Rightarrow> GoErr e
      | None \<Rightarrow>
          (if genv ''MAX'' = [] then GoErr MaxRequired
           else gores_bind (MustAtoi (genv ''MAX'')) (\<lambda>m.
             if m \<le> 0 then GoErr (MaxNotPositive m)
             else finish_config f h
               (cfg\<lparr>ec_Max := m, ec_Interfaces := parse_interfaces (genv ''INTERFACES'')\<rparr>))))"

text \<open>What a loaded configuration guarantees.\<close>

definition config_ok :: "host_net \<Rightarrow> etcd_config \<Rightarrow> bool" where
  "config_ok h cfg \<longleftrightarrow>
     ec_PodName cfg \<noteq> [] \<and> ec_PodNamespace cfg \<noteq> [] \<and> ec_ServiceName cfg \<noteq> [] \<and>
     ec_NodeIPDir cfg \<noteq> [] \<and> 0 < ec_Max cfg \<and> ec_Interfaces cfg \<noteq> [] \<and>
     0 \<le> ec_MyIndex cfg \<and> ec_MyIndex cfg < 2 ^ 63 \<and>
     (\<exists>ds. ec_PodName cfg = ec_Prefix cfg @ CHR ''-'' # ds \<and> ds \<noteq> [] \<and> list_all is_digit ds \<and>
        int (dec_val ds) = ec_MyIndex cfg) \<and>
     ec_MyIPs cfg = iface_ips h (ec_Interfaces cfg) \<and> ec_MyIPs cfg \<noteq> []"

lemma gores_bind_GoOk: "gores_bind m f = GoOk b \<longleftrightarrow> (\<exists>a. m = GoOk a \<and> f a = GoOk b)"
  by (cases m) auto

lemma parsePodName_GoOk:
  assumes "parsePodName s = GoOk (p, i)"
  obtains ds where "s = p @ CHR ''-'' # ds" "ds \<noteq> []" "list_all is_digit ds"
    "CHR 0x0A \<notin> set p" "i = int (dec_val ds)" "i < 2 ^ 63"
proof -
  obtain ds where m: "match_pod_name s = Some (p, ds)" and a: "atoi ds = Some i"
    using assms by (auto simp: parsePodName_def split: option.splits)
  note facts = match_pod_name_Some [OF m]
  with a show thesis
    by (intro that [OF facts(1,2,3,4)]) (auto simp: atoi_of_digits split: if_splits)
qed

lemma finish_config_ok:
  assumes "finish_config f h cfg = GoOk c"
  obtains p i where "parsePodName (ec_PodName cfg) = GoOk (p, i)"
    and "ec_Interfaces cfg \<noteq> []" and "iface_ips h (ec_Interfaces cfg) \<noteq> []"
    and "node f [ec_CAFile cfg] \<noteq> Absent" and "node f [ec_CAKeyFile cfg] \<noteq> Absent"
    and "c = cfg\<lparr>ec_Prefix := p, ec_MyIndex := i, ec_MyIPs := iface_ips h (ec_Interfaces cfg)\<rparr>"
  using assms
  by (auto simp: finish_config_def gores_bind_GoOk network_config_def ExtractNetworkInfo_Inr
      validateCAFiles_def Let_def split: if_splits option.splits sum.splits)

lemma loadConfig_config_ok:
  assumes "loadConfig genv f h = GoOk c"
  shows "config_ok h c" and "node f [ec_CAFile c] \<noteq> Absent" and "node f [ec_CAKeyFile c] \<noteq> Absent"
proof -
  let ?base = "env_config genv"
  have req: "validateRequiredEnvVars ?base = None"
    using assms by (simp add: loadConfig_def Let_def split: option.splits)
  obtain m where m: "(MustAtoi (genv ''MAX'') :: (cfg_error, int) gores) = GoOk m" "\<not> m \<le> 0"
    and fin: "finish_config f h
      (?base\<lparr>ec_Max := m, ec_Interfaces := parse_interfaces (genv ''INTERFACES'')\<rparr>) = GoOk c"
    using assms req by (auto simp: loadConfig_def Let_def gores_bind_GoOk split: if_splits)
  from fin obtain p i where pn: "parsePodName (ec_PodName ?base) = GoOk (p, i)"
    and ifs: "parse_interfaces (genv ''INTERFACES'') \<noteq> []"
    and ips: "iface_ips h (parse_interfaces (genv ''INTERFACES'')) \<noteq> []"
    and ca: "node f [ec_CAFile ?base] \<noteq> Absent" "node f [ec_CAKeyFile ?base] \<noteq> Absent"
    and c: "c = ?base\<lparr>ec_Max := m, ec_Interfaces := parse_interfaces (genv ''INTERFACES''),
        ec_Prefix := p, ec_MyIndex := i, ec_MyIPs := iface_ips h (parse_interfaces (genv ''INTERFACES''))\<rparr>"
    by (rule finish_config_ok) simp
  from pn obtain ds where ds: "ec_PodName ?base = p @ CHR ''-'' # ds" "ds \<noteq> []" "list_all is_digit ds"
    "i = int (dec_val ds)" "i < 2 ^ 63"
    by (rule parsePodName_GoOk)
  have "ec_PodName ?base \<noteq> [] \<and> ec_PodNamespace ?base \<noteq> [] \<and> ec_ServiceName ?base \<noteq> [] \<and>
      ec_NodeIPDir ?base \<noteq> []"
    using req by (auto simp: validateRequiredEnvVars_def required_vars_def Let_def split: if_splits)
  with m ifs ips ds show "config_ok h c" by (auto simp: config_ok_def c)
  show "node f [ec_CAFile c] \<noteq> Absent" and "node f [ec_CAKeyFile c] \<noteq> Absent"
    using ca by (simp_all add: c)
qed

section \<open>Properties\<close>

text \<open>
  C35: \<open>parsePodName\<close> accepts exactly the names \<open>prefix-digits\<close> whose number fits a 64-bit int
  (and whose prefix has no newline), and yields that prefix and number; on a name built from a
  prefix and an index it gives both back.
\<close>

theorem parsePodName_exact:
  "(parsePodName s = GoOk (p, i) \<longleftrightarrow>
      (\<exists>ds. s = p @ CHR ''-'' # ds \<and> ds \<noteq> [] \<and> list_all is_digit ds \<and> CHR 0x0A \<notin> set p \<and>
        i = int (dec_val ds) \<and> i < 2 ^ 63)) \<and>
   (CHR 0x0A \<notin> set q \<longrightarrow> int n < 2 ^ 63 \<longrightarrow> parsePodName (q @ CHR ''-'' # dec n) = GoOk (q, int n))"
proof -
  have fwd: "\<exists>ds. s = p @ CHR ''-'' # ds \<and> ds \<noteq> [] \<and> list_all is_digit ds \<and> CHR 0x0A \<notin> set p \<and>
        i = int (dec_val ds) \<and> i < 2 ^ 63" if "parsePodName s = GoOk (p, i)" for s p i
    using that by (rule parsePodName_GoOk) blast
  have bwd: "parsePodName (p @ CHR ''-'' # ds) = GoOk (p, int (dec_val ds))"
    if ds: "ds \<noteq> []" "list_all is_digit ds" "CHR 0x0A \<notin> set p" "int (dec_val ds) < 2 ^ 63" for p ds
    using match_pod_name_digits [OF ds(2,1,3)] ds by (simp add: parsePodName_def atoi_of_digits)
  show ?thesis
    using fwd bwd bwd [of "dec n" q] dec_digits [of n] by (fastforce simp: dec_val_dec list_all_iff)
qed

theorem parsePodName_exact_witness:
  "parsePodName ''my-etcd-12'' = GoOk (''my-etcd'', 12) \<and>
   parsePodName (''etcd'' @ CHR ''-'' # dec 3) = GoOk (''etcd'', 3)"
proof
  have "list_all is_digit ''12''" "dec_val ''12'' = 12" by code_simp+
  with parsePodName_exact [of "''my-etcd-12''" "''my-etcd''" 12] show "parsePodName ''my-etcd-12'' = GoOk (''my-etcd'', 12)"
    by auto
  show "parsePodName (''etcd'' @ CHR ''-'' # dec 3) = GoOk (''etcd'', 3)"
    using parsePodName_exact [of _ _ _ "''etcd''" 3] by simp
qed

text \<open>
  C34: A configuration that \<open>loadConfig\<close> returns is usable: the required variables are set, the
  maximum is positive and is what \<open>MAX\<close> says, the prefix and the index are those of the pod
  name, at least one interface is named, both CA files exist, and the own addresses are
  exactly those found on the interfaces, at least one.
\<close>

theorem loadConfig_establishes_config:
  assumes "loadConfig genv f h = GoOk c"
  shows "config_ok h c \<and> atoi (genv ''MAX'') = Some (ec_Max c) \<and>
    ec_Interfaces c = parse_interfaces (genv ''INTERFACES'') \<and>
    node f [ec_CAFile c] \<noteq> Absent \<and> node f [ec_CAKeyFile c] \<noteq> Absent"
proof -
  have fin: "ec_Max c' = m \<and> ec_Interfaces c' = is"
    if "finish_config f h (b\<lparr>ec_Max := m, ec_Interfaces := is\<rparr>) = GoOk c'" for b m "is" c'
    using that by (rule finish_config_ok) simp
  obtain m where "(MustAtoi (genv ''MAX'') :: (cfg_error, int) gores) = GoOk m"
    and "finish_config f h (env_config genv\<lparr>ec_Max := m, ec_Interfaces := parse_interfaces (genv ''INTERFACES'')\<rparr>) = GoOk c"
    using assms by (auto simp: loadConfig_def Let_def gores_bind_GoOk split: if_splits option.splits)
  then have "atoi (genv ''MAX'') = Some (ec_Max c) \<and> ec_Interfaces c = parse_interfaces (genv ''INTERFACES'')"
    using fin by (auto simp: MustAtoi_def split: option.splits)
  then show ?thesis using loadConfig_config_ok [OF assms] by blast
qed

text \<open>An environment, files and interfaces for the witnesses.\<close>

definition demo_genv :: "string \<Rightarrow> string \<Rightarrow> string" where
  "demo_genv mx k = (if k = ''POD_NAME'' then ''etcd-2'' else if k = ''NAMESPACE'' then ''ns''
     else if k = ''SERVICE_NAME'' then ''svc'' else if k = ''NODEIP_DIR'' then ''/d''
     else if k = ''MAX'' then mx else if k = ''INTERFACES'' then ''lo, eth0'' else [])"

definition demo_files :: fsys where
  "demo_files = \<lparr>node = (\<lambda>p. RegFile []), sticky = (\<lambda>p. False)\<rparr>"

definition demo_host :: host_net where
  "demo_host = \<lparr>iface = (\<lambda>n. if n = ''eth0'' then Addrs [IPNetAddr [10, 0, 0, 1] 32 32, IPNetAddr [10, 0, 0, 2] 24 32]
      else NoIface), iface_names = None\<rparr>"

theorem loadConfig_establishes_config_witness:
  "\<exists>c. loadConfig (demo_genv ''3'') demo_files demo_host = GoOk c \<and> config_ok demo_host c \<and> ec_Max c = 3"
proof -
  have ok: "(case loadConfig (demo_genv ''3'') demo_files demo_host of GoOk c \<Rightarrow> True | _ \<Rightarrow> False)" by code_simp
  have m: "atoi (demo_genv ''3'' ''MAX'') = Some 3" by code_simp
  from ok obtain c where c: "loadConfig (demo_genv ''3'') demo_files demo_host = GoOk c"
    by (auto split: gores.splits)
  from loadConfig_establishes_config [OF c] m c show ?thesis by simp
qed

text \<open>
  With the required variables set, a \<open>MAX\<close> that is set but is no 64-bit decimal number
  makes \<open>loadConfig\<close> panic instead of returning an error.
\<close>

lemma malformed_MAX_panics:
  assumes "genv ''POD_NAME'' \<noteq> []" and "genv ''NAMESPACE'' \<noteq> []" and "genv ''SERVICE_NAME'' \<noteq> []"
    and "genv ''NODEIP_DIR'' \<noteq> []" and "genv ''MAX'' \<noteq> []" and "atoi (genv ''MAX'') = None"
  shows "loadConfig genv f h = GoPanic"
  using assms
  by (simp add: loadConfig_def Let_def env_config_def validateRequiredEnvVars_def required_vars_def MustAtoi_def)

end
