(* ===== verification/Cluster_Loop.thy ===== *)
theory Cluster_Loop
  imports Brain_Split Cluster_Config
begin

text \<open>
  \<open>cmd/etcdcluster/main.go\<close>, the management loop: one iteration of \<open>runClusterLoop\<close> with the
  waits for etcd (\<open>waitExit\<close>, \<open>waitExitWithBrainSplitCheck\<close>), and the loop as a step relation
  whose states are worlds. What an iteration meets (files, network, the order of goroutines and
  the events it waits for) is the record \<open>iteration\<close>.
\<close>

section \<open>Waiting for etcd\<close>

text \<open>
  What a \<open>select\<close> can take, in the order in which it happens: a signal, the exit of the etcd
  process, or the brain-split checker having lived through some events.
\<close>

datatype wait_event = SignalReceived | ProcessExited | CheckerReady "checker_event list"

text \<open>The function returns (the loop goes on), the program exits, dies with a fatal error, or
  still waits when the events are used up.\<close>

datatype wait_result = WaitReturns | WaitExits | WaitFatal | WaitPending

text \<open>The faults: does \<open>Process.Kill\<close>, does \<open>Process.Signal(SIGTERM)\<close> succeed.\<close>

fun waitExit :: "bool \<Rightarrow> wait_event list \<Rightarrow> wait_result" where
  "waitExit kill_ok [] = WaitPending"
| "waitExit kill_ok (SignalReceived # evs) = (if kill_ok then WaitExits else WaitFatal)"
| "waitExit kill_ok (ProcessExited # evs) = WaitExits"
| "waitExit kill_ok (CheckerReady ces # evs) = waitExit kill_ok evs"

fun await_process_exit :: "wait_event list \<Rightarrow> wait_result" where
  "await_process_exit [] = WaitPending"
| "await_process_exit (ProcessExited # evs) = WaitReturns"
| "await_process_exit (_ # evs) = await_process_exit evs"

text \<open>\<open>checker\<close> gives the state of the checker after the events it has lived through.\<close>

fun waitExitWithBrainSplitCheck ::
    "bool \<Rightarrow> bool \<Rightarrow> (checker_event list \<Rightarrow> checker) \<Rightarrow> wait_event list \<Rightarrow> wait_result" where
  "waitExitWithBrainSplitCheck kill_ok term_ok checker [] = WaitPending"
| "waitExitWithBrainSplitCheck kill_ok term_ok checker (SignalReceived # evs) =
     (if kill_ok then WaitExits else WaitFatal)"
| "waitExitWithBrainSplitCheck kill_ok term_ok checker (ProcessExited # evs) = WaitExits"
| "waitExitWithBrainSplitCheck kill_ok term_ok checker (CheckerReady ces # evs) =
     (case result_received (checker ces) of
        None \<Rightarrow> waitExitWithBrainSplitCheck kill_ok term_ok checker evs
      | Some r \<Rightarrow>
          (if BrainSplitDetected r then
             (if \<not> term_ok \<and> \<not> kill_ok then WaitFatal else await_process_exit evs)
           else waitExit kill_ok evs))"

section \<open>One iteration\<close>

record iteration =
  it_disc :: disc_env
  it_order :: "string list \<Rightarrow> string list"
  it_client_ok :: "string list \<Rightarrow> bool"
  it_kill_ok :: bool
  it_term_ok :: bool
  it_events :: "wait_event list"

datatype loop_result = LoopAgain | LoopAgainAfterSleep | LoopEnds wait_result | LoopPanics

definition cert_path :: "etcd_config \<Rightarrow> string" where
  "cert_path cfg = ec_CertDir cfg @ ''/'' @ ec_PodName cfg @ ''.pem''"

definition key_path :: "etcd_config \<Rightarrow> string" where
  "key_path cfg = ec_CertDir cfg @ ''/'' @ ec_PodName cfg @ ''-key.pem''"

definition manager_config :: "etcd_config \<Rightarrow> mgr_config" where
  "manager_config cfg =
     \<lparr>mc_PodName = ec_PodName cfg, mc_PeerPort = ec_PeerPort cfg, mc_ClientPort = ec_ClientPort cfg,
      mc_DataDir = ec_DataDir cfg, mc_CertFile = cert_path cfg, mc_KeyFile = key_path cfg\<rparr>"

definition discovery_config :: "etcd_config \<Rightarrow> DiscoveryConfig" where
  "discovery_config cfg =
     \<lparr>dc_Prefix = ec_Prefix cfg, dc_MaxNodes = ec_Max cfg, dc_MyIndex = ec_MyIndex cfg,
      dc_ClientPort = ec_ClientPort cfg, dc_Namespace = ec_PodNamespace cfg,
      dc_ServiceName = ec_ServiceName cfg, dc_NodeIPDir = ec_NodeIPDir cfg, dc_Labels = ec_Labels cfg,
      dc_CertFile = cert_path cfg, dc_KeyFile = key_path cfg\<rparr>"

definition brain_split_config :: "etcd_config \<Rightarrow> BrainSplitCheckConfig" where
  "brain_split_config cfg =
     \<lparr>bs_NodeIPDir = ec_NodeIPDir cfg, bs_ClientPort = ec_ClientPort cfg, bs_CertFile = cert_path cfg,
      bs_KeyFile = key_path cfg, bs_MyPodName = ec_PodName cfg, bs_MyIPs = ec_MyIPs cfg,
      bs_CheckPeriod = 5 * 10 ^ 9\<rparr>"

definition after_wait :: "wait_result \<Rightarrow> loop_result" where
  "after_wait r = (if r = WaitReturns then LoopAgain else LoopEnds r)"

definition join_branch ::
    "'e etcd_api \<Rightarrow> etcd_config \<Rightarrow> string \<Rightarrow> iteration \<Rightarrow> EndpointInfo \<Rightarrow> 'e world \<Rightarrow> loop_result \<times> 'e world" where
  "join_branch api cfg bin it info w =
     (case GetClient (key_pair (it_disc it)) (it_client_ok it) (manager_config cfg) (ReadyNodes info) of
        GoErr e \<Rightarrow> (LoopAgain, w)
      | GoPanic \<Rightarrow> (LoopPanics, w)
      | GoOk eps \<Rightarrow>
          (case JoinExistingCluster api (manager_config cfg) (ec_MyIPs cfg) (DeadNames info) bin w of
             (GoOk p, w1) \<Rightarrow> (after_wait (waitExit (it_kill_ok it) (it_events it)), w1)
           | (GoErr e, w1) \<Rightarrow> (LoopAgain, w1)
           | (GoPanic, w1) \<Rightarrow> (LoopPanics, w1)))"

definition init_branch ::
    "'e etcd_api \<Rightarrow> etcd_config \<Rightarrow> string \<Rightarrow> iteration \<Rightarrow> 'e world \<Rightarrow> loop_result \<times> 'e world" where
  "init_branch api cfg bin it w =
     (if ec_MyIndex cfg \<noteq> 0 then (LoopAgainAfterSleep, w)
      else (case InitializeNewCluster api (manager_config cfg) (ec_MyIPs cfg) bin w of
              (GoErr e, w1) \<Rightarrow> (LoopAgain, w1)
            | (GoPanic, w1) \<Rightarrow> (LoopPanics, w1)
            | (GoOk p, w1) \<Rightarrow>
                (let r = waitExitWithBrainSplitCheck (it_kill_ok it) (it_term_ok it)
                      (StartBrainSplitChecker (manager_config cfg) (brain_split_config cfg) (it_disc it))
                      (it_events it)
                 in (after_wait r, if r = WaitReturns then signal_term p w1 else w1))))"

definition run_iteration ::
    "'e etcd_api \<Rightarrow> etcd_config \<Rightarrow> string \<Rightarrow> iteration \<Rightarrow> 'e world \<Rightarrow> loop_result \<times> 'e world" where
  "run_iteration api cfg bin it w =
     (case DiscoverEndpoints (it_order it) (it_disc it) (discovery_config cfg) of
        Inl e \<Rightarrow> (LoopAgain, w)
      | Inr info \<Rightarrow>
          (if 0 < length (ReadyNodes info) then join_branch api cfg bin it info w
           else if NotReadyNodes info \<noteq> {} then (LoopAgain, w)
           else init_branch api cfg bin it w))"

text \<open>
  The loop: an iteration that goes on, or the cluster, the files and the startable binaries
  changing between two iterations.
\<close>

inductive loop_step :: "'e etcd_api \<Rightarrow> etcd_config \<Rightarrow> string \<Rightarrow> 'e world \<Rightarrow> 'e world \<Rightarrow> bool"
  for api :: "'e etcd_api" and cfg :: etcd_config and bin :: string where
  loop_iterate: "run_iteration api cfg bin it w = (r, w') \<Longrightarrow> loop_step api cfg bin w w'"
| loop_environment: "loop_step api cfg bin w (w\<lparr>etcd := e, fs := f, startable := st\<rparr>)"

section \<open>Only pod 0 bootstraps\<close>

text \<open>No etcd process has been, or would now be, started with the cluster state \<open>new\<close>.\<close>

definition state_var :: string where
  "state_var = ''ETCD_INITIAL_CLUSTER_STATE''"

definition never_new :: "'e world \<Rightarrow> bool" where
  "never_new w \<longleftrightarrow>
     env w state_var \<noteq> Some ''new'' \<and> (\<forall>p \<in> set (procs w). proc_env p state_var \<noteq> Some ''new'')"

lemma never_new_local: "same_local w w' \<Longrightarrow> never_new w \<Longrightarrow> never_new w'"
  by (simp add: same_local_def never_new_def)

lemma never_new_startEtcd: "never_new w \<Longrightarrow> never_new (snd (startEtcd api bin w))"
  by (auto simp: startEtcd_def never_new_def)

lemma never_new_signal: "never_new w \<Longrightarrow> never_new (signal_term p w)"
proof (cases "p < length (procs w)")
  case True
  then show "never_new w \<Longrightarrow> never_new (signal_term p w)"
    using set_update_subset_insert [of "procs w" p "(procs w ! p)\<lparr>proc_sigterm := True\<rparr>"]
    by (fastforce simp: never_new_def signal_term_def)
next
  case False
  then have "(procs w)[p := x] = procs w" for x by (simp add: list_update_beyond)
  then show "never_new w \<Longrightarrow> never_new (signal_term p w)" by (simp add: never_new_def signal_term_def)
qed

lemma never_new_remove: "never_new w \<Longrightarrow> never_new (removeDeadMember api i w)"
  by (rule never_new_local [OF removeDeadMember_facts(2)])

lemma never_new_promote: "promoteLearner api i w = (r, w') \<Longrightarrow> never_new w \<Longrightarrow> never_new w'"
  by (cases rule: promoteLearner_cases [of api i w]) (auto intro: never_new_local)

lemma never_new_start_added: "never_new w \<Longrightarrow> never_new (snd (start_added api cfg bin pr resp w))"
proof -
  assume "never_new w"
  let ?w1 = "setenv ''ETCD_INITIAL_CLUSTER'' (join '','' (buildClusterConfig cfg (ar_Members resp)))
    (setenv ''ETCD_INITIAL_CLUSTER_STATE'' ''existing'' w)"
  have "never_new ?w1" using \<open>never_new w\<close> by (simp add: never_new_def state_var_def)
  then have "never_new (snd (startEtcd api bin ?w1))" by (rule never_new_startEtcd)
  then show ?thesis
    by (auto simp: start_added_def Let_def intro: never_new_signal
        dest: never_new_promote split: prod.split gores.split)
qed

lemma never_new_add: "never_new w \<Longrightarrow> never_new (snd (addMemberAndStart api cfg ips n bin w))"
  by (auto simp: addMemberAndStart_def Let_def split: prod.split option.split
      intro!: never_new_start_added dest: call_add_facts(1,2) intro: never_new_local)

lemma never_new_files: "never_new (w\<lparr>fs := f\<rparr>) = never_new w"
  by (simp add: never_new_def)

lemma never_new_withData:
  "never_new w \<Longrightarrow> never_new (snd (handleExistingMemberWithData api cfg i l bin w))"
proof (cases rule: promoteLearner_cases [of api i w])
  case (ok w1 k)
  then show "never_new w \<Longrightarrow> never_new (snd (handleExistingMemberWithData api cfg i l bin w))"
    by (auto simp: handleExistingMemberWithData_def intro: never_new_startEtcd never_new_local)
next
  case (fail w1)
  then show "never_new w \<Longrightarrow> never_new (snd (handleExistingMemberWithData api cfg i l bin w))"
    by (auto simp: handleExistingMemberWithData_def Let_def never_new_files
        intro: never_new_startEtcd never_new_local never_new_remove)
qed

lemma never_new_withoutData:
  "never_new w \<Longrightarrow> never_new (snd (handleExistingMemberWithoutData api cfg i ips n bin w))"
  by (auto simp: handleExistingMemberWithoutData_def split: prod.split bool.split
      intro!: never_new_add dest: call_add_facts(4) intro: never_new_local)

lemma never_new_join:
  "never_new w \<Longrightarrow> never_new (snd (JoinExistingCluster api cfg ips dead bin w))"
proof -
  assume w: "never_new w"
  have hmj: "never_new v \<Longrightarrow> never_new (snd (handleMemberJoin api cfg i l ips n bin v))" for v i l n
    by (simp add: handleMemberJoin_def never_new_withData never_new_withoutData never_new_add
        never_new_files split: gores.split bool.split)
  have "never_new (snd (processMembers api cfg ms dead mine v))" if "never_new v" for ms mine v
    using never_new_local [OF processMembers_world(2)] that by blast
  then show ?thesis
    using w hmj by (auto simp: JoinExistingCluster_def Let_def split: prod.split option.split
        dest!: call_add_facts(3) intro: never_new_local) (metis never_new_local snd_conv)+
qed

lemma never_new_iteration:
  assumes "ec_MyIndex cfg \<noteq> 0" and "never_new w"
  shows "never_new (snd (run_iteration api cfg bin it w))"
proof -
  have "never_new (snd (join_branch api cfg bin it info w))" for info
    using never_new_join [OF assms(2), of api "manager_config cfg" "ec_MyIPs cfg" "DeadNames info" bin] assms(2)
    by (auto simp: join_branch_def split: gores.split prod.split)
  then show ?thesis using assms by (simp add: run_iteration_def init_branch_def split: sum.split)
qed

interpretation bootstrap: invariant_system
  "\<lambda>w. never_new w \<and> ec_MyIndex cfg \<noteq> 0" "loop_step api cfg bin"
  "\<lambda>w. never_new w \<and> ec_MyIndex cfg \<noteq> 0"
  for api :: "'e etcd_api" and cfg bin
proof
  fix s t :: "'e world"
  assume inv: "never_new s \<and> ec_MyIndex cfg \<noteq> 0" and "loop_step api cfg bin s t"
  from this(2) show "never_new t \<and> ec_MyIndex cfg \<noteq> 0"
  proof cases
    case (loop_iterate it r)
    then show ?thesis using never_new_iteration [of cfg s api bin it] inv by simp
  next
    case (loop_environment e f st)
    then show ?thesis using inv by (simp add: never_new_def)
  qed
qed

section \<open>When the bootstrap branch is taken\<close>

lemma discovery_facts:
  assumes ok: "DiscoverEndpoints (it_order it) (it_disc it) (discovery_config cfg) = Inr info"
    and order: "\<And>xs. set (it_order it xs) = set xs"
    and l: "listing (it_disc it) (ec_NodeIPDir cfg) = Some entries"
  shows "ReadyNodes info \<noteq> [] \<longleftrightarrow> (\<exists>m \<in> set (candidates entries). \<exists>ips.
      classify (it_disc it) (discovery_config cfg) m = NodeReady ips)"
    and "NotReadyNodes info \<noteq> {} \<longleftrightarrow>
      (\<exists>m \<in> set (candidates entries). classify (it_disc it) (discovery_config cfg) m = NodeNotReady)"
proof -
  have dir: "dc_NodeIPDir (discovery_config cfg) = ec_NodeIPDir cfg" by (simp add: discovery_config_def)
  have facts: "(\<forall>m ips. map_of (ReadyNodes info) m = Some ips \<longleftrightarrow>
      m \<in> set (candidates entries) \<and> classify (it_disc it) (discovery_config cfg) m = NodeReady ips) \<and>
    NotReadyNodes info =
      {m \<in> set (candidates entries). classify (it_disc it) (discovery_config cfg) m = NodeNotReady}"
  proof (rule DiscoverEndpoints_spec [OF ok order])
    fix es
    assume "listing (it_disc it) (dc_NodeIPDir (discovery_config cfg)) = Some es"
    then have "es = entries" using l dir by simp
    moreover assume "\<And>m ips. map_of (ReadyNodes info) m = Some ips \<longleftrightarrow>
        m \<in> set (candidates es) \<and> classify (it_disc it) (discovery_config cfg) m = NodeReady ips"
      and "NotReadyNodes info =
        {m \<in> set (candidates es). classify (it_disc it) (discovery_config cfg) m = NodeNotReady}"
    ultimately show ?thesis by blast
  qed
  note ready = facts [THEN conjunct1, rule_format] and nr = facts [THEN conjunct2]
  have "ReadyNodes info \<noteq> [] \<longleftrightarrow> (\<exists>m ips. map_of (ReadyNodes info) m = Some ips)"
    by (cases "ReadyNodes info") (auto intro: exI [of _ "fst (hd (ReadyNodes info))"])
  then show "ReadyNodes info \<noteq> [] \<longleftrightarrow> (\<exists>m \<in> set (candidates entries). \<exists>ips.
      classify (it_disc it) (discovery_config cfg) m = NodeReady ips)"
    unfolding ready by blast
  show "NotReadyNodes info \<noteq> {} \<longleftrightarrow>
      (\<exists>m \<in> set (candidates entries). classify (it_disc it) (discovery_config cfg) m = NodeNotReady)"
    using nr by blast
qed

lemma waitExit_returns [simp]: "waitExit kill_ok evs \<noteq> WaitReturns"
  by (induction kill_ok evs rule: waitExit.induct) auto

lemma await_exited: "await_process_exit evs = WaitReturns \<Longrightarrow> ProcessExited \<in> set evs"
  by (induction evs rule: await_process_exit.induct) auto

text \<open>The checker has reported a split after some fruitless receives, and then etcd has exited.\<close>

definition split_seen :: "(checker_event list \<Rightarrow> checker) \<Rightarrow> wait_event list \<Rightarrow> bool" where
  "split_seen checker evs \<longleftrightarrow>
     (\<exists>pre ces post r. evs = pre @ CheckerReady ces # post \<and> result_received (checker ces) = Some r \<and>
        BrainSplitDetected r \<and> ProcessExited \<in> set post \<and>
        (\<forall>ev \<in> set pre. \<exists>ces'. ev = CheckerReady ces' \<and> result_received (checker ces') = None))"

lemma split_seen_now:
  "result_received (checker ces) = Some r \<Longrightarrow> BrainSplitDetected r \<Longrightarrow> ProcessExited \<in> set evs \<Longrightarrow>
     split_seen checker (CheckerReady ces # evs)"
  unfolding split_seen_def by (rule exI [of _ "[]"]) simp

lemma split_seen_later:
  assumes "result_received (checker ces) = None" and "split_seen checker evs"
  shows "split_seen checker (CheckerReady ces # evs)"
proof -
  obtain pre c post r where "evs = pre @ CheckerReady c # post" "result_received (checker c) = Some r"
    "BrainSplitDetected r" "ProcessExited \<in> set post"
    "\<forall>e \<in> set pre. \<exists>ces'. e = CheckerReady ces' \<and> result_received (checker ces') = None"
    using assms(2) by (auto simp: split_seen_def)
  then show ?thesis
    unfolding split_seen_def using assms(1)
    by (intro exI [of _ "CheckerReady ces # pre"] exI [of _ c] exI [of _ post] exI [of _ r]) auto
qed

lemma wait_split_return:
  "waitExitWithBrainSplitCheck kill_ok term_ok checker evs = WaitReturns \<Longrightarrow> split_seen checker evs"
proof (induction kill_ok term_ok checker evs rule: waitExitWithBrainSplitCheck.induct)
  case (4 kill_ok term_ok checker ces evs)
  then show ?case
    by (cases "result_received (checker ces)")
      (auto intro: split_seen_later split_seen_now dest: await_exited split: if_splits)
qed (auto split: if_splits)

section \<open>Properties\<close>

text \<open>
  Only pod 0 bootstraps: from a world in which no etcd runs with
  \<open>ETCD_INITIAL_CLUSTER_STATE=new\<close>, any number of iterations of a pod with another index, mixed
  with arbitrary changes of the cluster and the files, never starts an etcd with that state.
\<close>

lemma only_pod_zero_bootstraps:
  assumes "(loop_step api cfg bin)\<^sup>*\<^sup>* w w'" and "ec_MyIndex cfg \<noteq> 0"
    and "env w ''ETCD_INITIAL_CLUSTER_STATE'' \<noteq> Some ''new''"
    and "\<forall>p \<in> set (procs w). proc_env p ''ETCD_INITIAL_CLUSTER_STATE'' \<noteq> Some ''new''"
  shows "\<forall>p \<in> set (procs w'). proc_env p ''ETCD_INITIAL_CLUSTER_STATE'' \<noteq> Some ''new''"
  using bootstrap.steps_inv [OF assms(1)] assms(2-4) by (simp add: never_new_def state_var_def)

text \<open>A configuration for the witnesses; \<open>i\<close> is the pod's index.\<close>

definition loop_cfg :: "int \<Rightarrow> etcd_config" where
  "loop_cfg i = \<lparr>ec_PodName = ''etcd-1'', ec_PodNamespace = ''ns'', ec_ServiceName = ''svc'', ec_CliName = [],
     ec_Max = 3, ec_ClientPort = ''2479'', ec_ClientHTTPPort = ''2481'', ec_PeerPort = ''2480'',
     ec_DataDir = ''/data'', ec_CertDir = ''/c'', ec_NodeIPDir = ''/d'', ec_CAFile = [], ec_CAKeyFile = [],
     ec_Interfaces = [''eth0''], ec_Labels = [], ec_Prefix = ''etcd'', ec_MyIndex = i, ec_MyIPs = [''10.0.0.1'']\<rparr>"

definition loop_iter :: "disc_env \<Rightarrow> wait_event list \<Rightarrow> iteration" where
  "loop_iter d evs = \<lparr>it_disc = d, it_order = rev, it_client_ok = (\<lambda>es. True), it_kill_ok = True,
     it_term_ok = True, it_events = evs\<rparr>"

text \<open>
  What an iteration does after a successful discovery is decided by the classes of the
  listed nodes: with a ready node the pod joins; with none ready but one not ready it only
  looks again; otherwise every listed node is unreachable or has an unreadable file, and the
  pod goes to the bootstrap branch. Unreadable files thus do not keep pod 0 from bootstrapping.
\<close>

lemma iteration_decision:
  assumes "DiscoverEndpoints (it_order it) (it_disc it) (discovery_config cfg) = Inr info"
    and "\<forall>xs. set (it_order it xs) = set xs"
    and "listing (it_disc it) (ec_NodeIPDir cfg) = Some entries"
  shows "run_iteration api cfg bin it w =
    (if \<exists>m \<in> set (candidates entries). \<exists>ips. classify (it_disc it) (discovery_config cfg) m = NodeReady ips
     then join_branch api cfg bin it info w
     else if \<exists>m \<in> set (candidates entries). classify (it_disc it) (discovery_config cfg) m = NodeNotReady
     then (LoopAgain, w)
     else init_branch api cfg bin it w)"
proof -
  have order: "\<And>xs. set (it_order it xs) = set xs" using assms(2) by simp
  note facts = discovery_facts [OF assms(1) order assms(3)]
  show ?thesis unfolding run_iteration_def assms(1) using facts by auto
qed

definition all_dead :: disc_env where
  "all_dead = demo_env\<lparr>files := \<lparr>node = (\<lambda>p. LockedFile), sticky = (\<lambda>p. False)\<rparr>\<rparr>"

text \<open>
  A wait for etcd returns to the loop, so that the node rejoins, only after the checker has
  reported a detected brain split and the process has exited; in every other case the program
  ends together with etcd (or dies, or still waits). A wait after a join never returns.
\<close>

lemma wait_returns_only_on_split:
  "(waitExitWithBrainSplitCheck kill_ok term_ok checker evs = WaitReturns \<longrightarrow>
      (\<exists>pre ces post r. evs = pre @ CheckerReady ces # post \<and> result_received (checker ces) = Some r \<and>
         BrainSplitDetected r \<and> ProcessExited \<in> set post \<and>
         (\<forall>ev \<in> set pre. \<exists>ces'. ev = CheckerReady ces' \<and> result_received (checker ces') = None))) \<and>
   waitExit kill_ok evs \<noteq> WaitReturns"
  using wait_split_return by (auto simp: split_seen_def)

text \<open>
  When the checker cannot load its TLS key pair it ends at once without a result; the
  receive on its closed channel yields the zero value, which the wait reads as ``no brain
  split'': from then on nobody checks, whatever the other nodes would have reported.
\<close>

lemma tls_failure_disables_checking:
  assumes "\<not> key_pair d (bs_CertFile bcfg) (bs_KeyFile bcfg)"
  shows "waitExitWithBrainSplitCheck kill_ok term_ok (StartBrainSplitChecker mgr bcfg d) (CheckerReady ces # evs) =
    waitExit kill_ok evs"
  using assms by (simp add: StartBrainSplitChecker_def start_checker_def loadTLSConfig_def)

end
