(* ===== verification/Full_Restart.thy ===== *)
theory Full_Restart
  imports Cluster_Loop
begin

text \<open>
  All etcd pods of a cluster restart at once, with their data in place: what one iteration of the
  management loop (\<open>cmd/etcdcluster/main.go\<close> with \<open>pkg/cluster/manager.go\<close>) does in pod 0, which
  finds no etcd, and then in any other pod, which finds the cluster that pod 0 has formed.
\<close>

section \<open>Lemmas\<close>

text \<open>A network on which no endpoint accepts a connection.\<close>

lemma no_dial_class:
  assumes "\<forall>ep. \<not> tcp_dial (network e) ep"
  shows "classify e cfg m = NodeUnreachable \<or> classify e cfg m = NodeDead"
proof -
  have down: "collect_health HealthUnreachable hs = HealthUnreachable" if "\<forall>h \<in> set hs. h = HealthUnreachable" for hs
    using that by (induction hs) auto
  have "checkEndpointHealth (network e) ips port = HealthUnreachable" for ips port
    using assms by (auto simp: checkEndpointHealth_def checkSingleEndpoint_unreachable intro!: down)
  then show ?thesis by (simp add: classify_def split: option.split)
qed

lemma no_dial_iteration:
  assumes "DiscoverEndpoints (it_order it) (it_disc it) (discovery_config cfg) = Inr info"
    and "\<forall>xs. set (it_order it xs) = set xs" and "listing (it_disc it) (ec_NodeIPDir cfg) = Some entries"
    and "\<forall>ep. \<not> tcp_dial (network (it_disc it)) ep"
  shows "run_iteration api cfg bin it w = init_branch api cfg bin it w"
proof -
  have "classify (it_disc it) (discovery_config cfg) m \<noteq> NodeReady ips \<and>
      classify (it_disc it) (discovery_config cfg) m \<noteq> NodeNotReady" for m ips
    using no_dial_class [OF assms(4), of "discovery_config cfg" m] by auto
  then show ?thesis using iteration_decision [OF assms(1-3), of api bin w] by simp
qed

text \<open>A pod that does not know itself in the member list clears its data, whatever follows.\<close>

lemma unknown_member_clears:
  assumes run: "JoinExistingCluster api cfg ips dead bin w = (r, w')"
    and list: "fst (api_list api (etcd w)) = Some ms"
    and unknown: "\<forall>m \<in> set ms. \<not> is_self cfg (buildPeerURLSet ips (mc_PeerPort cfg)) m"
    and dir: "node (fs w) (member_dir cfg) = Directory"
  shows "fs w' = remove_all (member_dir cfg) (fs w)"
proof -
  let ?mine = "buildPeerURLSet ips (mc_PeerPort cfg)"
  obtain w1 where l: "call_list api w = (Some ms, w1)"
    using list by (cases "api_list api (etcd w)") (auto simp: call_list_def)
  obtain si w2 where p: "processMembers api cfg ms dead ?mine w1 = (si, w2)"
    by (cases "processMembers api cfg ms dead ?mine w1")
  have "self_members cfg ?mine ms = []" using unknown by (auto simp: self_members_def filter_empty_conv)
  then have "si_ID si = 0" using processMembers_info [of api cfg ms dead ?mine w1] p by (simp add: self_id_def)
  moreover have "same_local w1 w2" using processMembers_world(2) [of w1 api cfg ms dead ?mine] p by simp
  then have "fs w2 = fs w" using call_add_facts(3) [OF l] by (simp add: same_local_def)
  moreover have "handleMemberJoin api cfg (si_ID si) (si_IsLearner si) ips (si_Voting si) bin w2 = (r, w')"
    using run l p by (simp add: JoinExistingCluster_def)
  ultimately have "addMemberAndStart api cfg ips (si_Voting si) bin (w2\<lparr>fs := remove_all (member_dir cfg) (fs w)\<rparr>) = (r, w')"
    using dir by (simp add: handleMemberJoin_def)
  from addMemberAndStart_spec(1) [OF this] show ?thesis by simp
qed

lemma InitializeNewCluster_clears:
  assumes "startable w bin" and "node (fs w) (member_dir cfg) = Directory"
  shows "\<exists>w'. InitializeNewCluster api cfg ips bin w = (GoOk (length (procs w)), w') \<and>
    fs w' = remove_all (member_dir cfg) (fs w)"
  using assms by (simp add: InitializeNewCluster_def Let_def startEtcd_def setenv_def)

section \<open>Properties\<close>


text \<open>Two pods restart: pod 0 on a network without etcd, then its neighbour.\<close>

definition restart_iter :: iteration where
  "restart_iter = loop_iter (demo_env\<lparr>network := demo_probe\<lparr>tcp_dial := (\<lambda>ep. False)\<rparr>\<rparr>) []"

definition neighbour_cfg :: etcd_config where
  "neighbour_cfg = (loop_cfg 1)\<lparr>ec_PodName := ''etcd-2'', ec_MyIPs := [''10.0.0.2'']\<rparr>"

definition restarted_api :: "nat etcd_api" where
  "restarted_api = fixed_api [demo_member 6 ''etcd-1'' ''10.0.0.1'' False] True"


end
