(* ===== verification/Split_Recovery.thy ===== *)
theory Split_Recovery
  imports Cluster_Loop
begin

text \<open>
  What becomes of a detected split brain: two iterations of the management loop of pod 0 in a
  row (\<open>cmd/etcdcluster/main.go\<close> with \<open>pkg/cluster/manager.go\<close>). In the first the pod bootstraps a
  cluster of its own, which the checker finds to be split off, and etcd is terminated so that
  the node rejoins; between the two its etcd has left its data; in the second the other nodes
  are reachable.
\<close>

section \<open>Lemmas\<close>

lemma after_wait_again: "after_wait r = LoopAgain \<longleftrightarrow> r = WaitReturns"
  by (simp add: after_wait_def)

lemma InitializeNewCluster_started:
  assumes "InitializeNewCluster api cfg ips bin w = (GoOk p, w1)"
  shows "startable w bin" and "node (fs w) (member_dir cfg) \<noteq> StatFails"
  using assms
  by (auto simp: InitializeNewCluster_def Let_def startEtcd_def setenv_def DirExists_def
      split: gores.splits bool.splits if_splits fnode.splits)

text \<open>The own member, where every member that counts as the own one is a voter.\<close>

lemma own_voter:
  assumes "\<exists>m \<in> set ms. is_self cfg mine m" and "\<forall>m \<in> set ms. is_self cfg mine m \<longrightarrow> m_ID m \<noteq> 0 \<and> \<not> m_IsLearner m"
  shows "self_id cfg mine ms \<noteq> 0" and "\<not> self_learner cfg mine ms"
proof -
  let ?s = "self_members cfg mine ms"
  have s: "m_ID m \<noteq> 0 \<and> \<not> m_IsLearner m" if "m \<in> set ?s" for m
    using assms(2) that by (simp add: self_members_def)
  have ne: "?s \<noteq> []" using assms(1) by (auto simp: self_members_def filter_empty_conv)
  have "filter (\<lambda>i. i \<noteq> 0) (map m_ID ?s) = map m_ID ?s" using s by (auto simp: filter_id_conv)
  then have "self_id cfg mine ms = m_ID (last ?s)" using ne by (simp add: self_id_def last_or_def last_map)
  then show "self_id cfg mine ms \<noteq> 0" using s ne by simp
  show "\<not> self_learner cfg mine ms" using s ne by (simp add: self_learner_def last_or_def last_map)
qed

text \<open>The iteration of pod 0 that bootstraps and goes on: the checker has reported a split.\<close>

lemma bootstrap_split:
  assumes run: "run_iteration api cfg bin it w = (LoopAgain, w1)"
    and disc: "DiscoverEndpoints (it_order it) (it_disc it) (discovery_config cfg) = Inr info"
    and alone: "ReadyNodes info = []" "NotReadyNodes info = {}" and zero: "ec_MyIndex cfg = 0"
    and ini: "InitializeNewCluster api (manager_config cfg) (ec_MyIPs cfg) bin w = (GoOk p, w')"
  shows "w1 = signal_term p w'"
    and "split_seen (StartBrainSplitChecker (manager_config cfg) (brain_split_config cfg) (it_disc it)) (it_events it)"
proof -
  let ?r = "waitExitWithBrainSplitCheck (it_kill_ok it) (it_term_ok it)
    (StartBrainSplitChecker (manager_config cfg) (brain_split_config cfg) (it_disc it)) (it_events it)"
  have eq: "(after_wait ?r, if ?r = WaitReturns then signal_term p w' else w') = (LoopAgain, w1)"
    using run disc alone zero ini by (simp add: run_iteration_def init_branch_def Let_def)
  then have "?r = WaitReturns" by (simp add: after_wait_again)
  with eq show "w1 = signal_term p w'"
    and "split_seen (StartBrainSplitChecker (manager_config cfg) (brain_split_config cfg) (it_disc it)) (it_events it)"
    using wait_split_return by auto
qed

section \<open>Properties\<close>

text \<open>
  C14: A detected split brain survives the rejoin: when the cluster that pod 0 finds afterwards
  still lists it, under its name and as a voter, the pod starts etcd again on the data of the
  cluster it has bootstrapped, with the environment of a bootstrap and no call that adds or
  removes its member; and it then waits for etcd without the checker, so that nobody looks at the
  split any more and the loop never goes on.
\<close>

theorem split_survives_rejoin:
  assumes first: "run_iteration api cfg bin it1 w0 = (LoopAgain, w1)"
    and alone: "DiscoverEndpoints (it_order it1) (it_disc it1) (discovery_config cfg) = Inr info1"
      "ReadyNodes info1 = []" "NotReadyNodes info1 = {}" "ec_MyIndex cfg = 0"
    and started: "InitializeNewCluster api (manager_config cfg) (ec_MyIPs cfg) bin w0 = (GoOk p, wi)"
    and data: "w2 = w1\<lparr>fs := f, etcd := e\<rparr>" "node f [ec_DataDir cfg, ''member''] = Directory"
    and others: "DiscoverEndpoints (it_order it2) (it_disc it2) (discovery_config cfg) = Inr info2"
      "GetClient (key_pair (it_disc it2)) (it_client_ok it2) (manager_config cfg) (ReadyNodes info2) = GoOk eps"
      "fst (api_list api e) = Some ms"
    and listed: "\<exists>m \<in> set ms. m_Name m = ec_PodName cfg"
      "\<forall>m \<in> set ms. is_self (manager_config cfg) (buildPeerURLSet (ec_MyIPs cfg) (ec_PeerPort cfg)) m \<longrightarrow>
         m_ID m \<noteq> 0 \<and> \<not> m_IsLearner m"
  shows "(\<exists>ces r. result_received (StartBrainSplitChecker (manager_config cfg) (brain_split_config cfg) (it_disc it1) ces) = Some r \<and>
      BrainSplitDetected r) \<and>
    (\<exists>w3. run_iteration api cfg bin it2 w2 = (after_wait (waitExit (it_kill_ok it2) (it_events it2)), w3) \<and>
      after_wait (waitExit (it_kill_ok it2) (it_events it2)) \<noteq> LoopAgain \<and>
      fs w3 = f \<and> procs w3 = procs w2 @ [\<lparr>proc_bin = bin, proc_env = env w2, proc_sigterm = False\<rparr>] \<and>
      env w2 ''ETCD_INITIAL_CLUSTER_STATE'' = Some ''new'' \<and>
      env w2 ''ETCD_INITIAL_CLUSTER'' = Some (join '','' (map (\<lambda>ip. ec_PodName cfg @ ''='' @ peer_url ip (ec_PeerPort cfg)) (ec_MyIPs cfg))) \<and>
      calls w3 = calls w2 @ CallList # map (CallRemove \<circ> m_ID)
        (removed_members (manager_config cfg) (DeadNames info2) (buildPeerURLSet (ec_MyIPs cfg) (ec_PeerPort cfg)) ms))"
proof -
  let ?m = "manager_config cfg"
  let ?mine = "buildPeerURLSet (ec_MyIPs cfg) (mc_PeerPort ?m)"
  have sel: "mc_PodName ?m = ec_PodName cfg" "mc_PeerPort ?m = ec_PeerPort cfg" "mc_DataDir ?m = ec_DataDir cfg"
    by (simp_all add: manager_config_def)
  note split = bootstrap_split [OF first alone started]
  note st = InitializeNewCluster_started [OF started]
  obtain wi' where "InitializeNewCluster api ?m (ec_MyIPs cfg) bin w0 = (GoOk (length (procs w0)), wi')"
    and envi: "env wi' = (env w0)(''ETCD_INITIAL_CLUSTER_STATE'' \<mapsto> ''new'', ''ETCD_INITIAL_CLUSTER'' \<mapsto>
      join '','' (map (\<lambda>ip. mc_PodName ?m @ ''='' @ peer_url ip (mc_PeerPort ?m)) (ec_MyIPs cfg)))"
    using initialize_new_cluster [OF st(2,1)] by blast
  then have wi: "wi' = wi" using started by simp
  have env2: "env w2 = env wi" by (simp add: data split(1))
  have "startable wi = startable w0"
    using started by (auto simp: InitializeNewCluster_def Let_def startEtcd_def setenv_def split: gores.splits bool.splits if_splits)
  then have able: "startable w2 bin" using st(1) by (simp add: data split(1) signal_term_def)
  have "\<exists>m \<in> set ms. is_self ?m ?mine m" using listed(1) by (auto simp: is_self_def sel)
  then have own: "self_id ?m ?mine ms \<noteq> 0" "\<not> self_learner ?m ?mine ms"
    using own_voter listed(2) by (simp_all add: sel)
  have "fst (api_list api (etcd w2)) = Some ms" "node (fs w2) (member_dir ?m) = Directory"
    using others(3) data by (simp_all add: member_dir_def sel)
  then obtain w3 where join: "JoinExistingCluster api ?m (ec_MyIPs cfg) (DeadNames info2) bin w2 = (GoOk (length (procs w2)), w3)"
    and w3: "calls w3 = calls w2 @ CallList # map (CallRemove \<circ> m_ID) (removed_members ?m (DeadNames info2) ?mine ms)"
      "fs w3 = fs w2" "procs w3 = procs w2 @ [\<lparr>proc_bin = bin, proc_env = env w2, proc_sigterm = False\<rparr>]"
    using known_voter_restarts [OF _ own _ able] by blast
  have "0 < length (ReadyNodes info2)" using others(2) by (auto simp: GetClient_def split: if_splits)
  then have "run_iteration api cfg bin it2 w2 = (after_wait (waitExit (it_kill_ok it2) (it_events it2)), w3)"
    using others(1,2) join by (simp add: run_iteration_def join_branch_def)
  moreover have "\<exists>ces r. result_received (StartBrainSplitChecker ?m (brain_split_config cfg) (it_disc it1) ces) = Some r \<and>
      BrainSplitDetected r" using split(2) unfolding split_seen_def by blast
  moreover have "env w2 ''ETCD_INITIAL_CLUSTER_STATE'' = Some ''new''"
    "env w2 ''ETCD_INITIAL_CLUSTER'' = Some (join '','' (map (\<lambda>ip. ec_PodName cfg @ ''='' @ peer_url ip (ec_PeerPort cfg)) (ec_MyIPs cfg)))"
    unfolding env2 wi [symmetric] envi by (simp_all add: sel)
  moreover have "fs w3 = f" using w3(2) data by simp
  ultimately show ?thesis using w3(1,3) by (simp add: after_wait_again sel)
qed

text \<open>Pod 0 alone, then split off from a cluster of two that has its name.\<close>

definition split_iter :: iteration where
  "split_iter = loop_iter all_dead [CheckerReady [Tick (two_nodes 12)], ProcessExited]"

definition rejoin_iter :: iteration where
  "rejoin_iter = loop_iter demo_env [ProcessExited]"

definition listing_api :: "nat etcd_api" where
  "listing_api = fixed_api [demo_member 6 ''etcd-1'' ''10.0.0.1'' False, demo_member 7 ''etcd-2'' ''10.0.0.2'' False] False"

theorem split_survives_rejoin_witness:
  "\<exists>w1 w3. run_iteration listing_api (loop_cfg 0) ''etcd'' split_iter (demo_world Absent) = (LoopAgain, w1) \<and>
     run_iteration listing_api (loop_cfg 0) ''etcd'' rejoin_iter
       (w1\<lparr>fs := \<lparr>node = (\<lambda>p. Directory), sticky = (\<lambda>p. False)\<rparr>, etcd := 0\<rparr>) = (LoopEnds WaitExits, w3) \<and>
     proc_env (procs w3 ! 1) ''ETCD_INITIAL_CLUSTER_STATE'' = Some ''new''"
proof -
  let ?f = "\<lparr>node = (\<lambda>p. Directory), sticky = (\<lambda>p. False)\<rparr>"
  obtain r w1 where r: "run_iteration listing_api (loop_cfg 0) ''etcd'' split_iter (demo_world Absent) = (r, w1)"
    by (meson surj_pair)
  have "fst (run_iteration listing_api (loop_cfg 0) ''etcd'' split_iter (demo_world Absent)) = LoopAgain" by code_simp
  then have first: "run_iteration listing_api (loop_cfg 0) ''etcd'' split_iter (demo_world Absent) = (LoopAgain, w1)" using r by simp
  have "(case DiscoverEndpoints (it_order split_iter) (it_disc split_iter) (discovery_config (loop_cfg 0)) of
      Inl x \<Rightarrow> False | Inr info \<Rightarrow> ReadyNodes info = [] \<and> NotReadyNodes info = {})" by code_simp
  then obtain info1 where d1: "DiscoverEndpoints (it_order split_iter) (it_disc split_iter) (discovery_config (loop_cfg 0)) = Inr info1"
    "ReadyNodes info1 = []" "NotReadyNodes info1 = {}" by (auto split: sum.splits)
  have zero: "ec_MyIndex (loop_cfg 0) = 0" by (simp add: loop_cfg_def)
  have can: "node (fs (demo_world Absent)) (member_dir (manager_config (loop_cfg 0))) \<noteq> StatFails" "startable (demo_world Absent) ''etcd''"
    by (simp_all add: demo_world_def)
  obtain p wi where ini: "InitializeNewCluster listing_api (manager_config (loop_cfg 0)) (ec_MyIPs (loop_cfg 0)) ''etcd'' (demo_world Absent) = (GoOk p, wi)"
    using initialize_new_cluster [OF can, of listing_api "ec_MyIPs (loop_cfg 0)"] by blast
  have dir: "node ?f [ec_DataDir (loop_cfg 0), ''member''] = Directory" by simp
  have "(case DiscoverEndpoints (it_order rejoin_iter) (it_disc rejoin_iter) (discovery_config (loop_cfg 0)) of
      Inl x \<Rightarrow> False | Inr info \<Rightarrow> ReadyNodes info \<noteq> [])" by code_simp
  then obtain info2 where d2: "DiscoverEndpoints (it_order rejoin_iter) (it_disc rejoin_iter) (discovery_config (loop_cfg 0)) = Inr info2"
    and ne: "ReadyNodes info2 \<noteq> []" by (auto split: sum.splits)
  have cl: "GetClient (key_pair (it_disc rejoin_iter)) (it_client_ok rejoin_iter) (manager_config (loop_cfg 0)) (ReadyNodes info2)
      = GoOk (client_endpoints (manager_config (loop_cfg 0)) (ReadyNodes info2))"
    using ne by (simp add: GetClient_def rejoin_iter_def loop_iter_def demo_env_def)
  let ?ms = "[demo_member 6 ''etcd-1'' ''10.0.0.1'' False, demo_member 7 ''etcd-2'' ''10.0.0.2'' False]"
  have ls: "fst (api_list listing_api 0) = Some ?ms" by (simp add: listing_api_def fixed_api_def)
  have named: "\<exists>m \<in> set ?ms. m_Name m = ec_PodName (loop_cfg 0)" by (simp add: demo_member_def loop_cfg_def)
  have voters: "\<forall>m \<in> set ?ms. is_self (manager_config (loop_cfg 0)) (buildPeerURLSet (ec_MyIPs (loop_cfg 0)) (ec_PeerPort (loop_cfg 0))) m \<longrightarrow>
      m_ID m \<noteq> 0 \<and> \<not> m_IsLearner m" by (simp add: demo_member_def)
  obtain w3 where w3: "run_iteration listing_api (loop_cfg 0) ''etcd'' rejoin_iter (w1\<lparr>fs := ?f, etcd := 0\<rparr>) =
      (after_wait (waitExit (it_kill_ok rejoin_iter) (it_events rejoin_iter)), w3)"
    "procs w3 = procs (w1\<lparr>fs := ?f, etcd := 0\<rparr>) @ [\<lparr>proc_bin = ''etcd'', proc_env = env (w1\<lparr>fs := ?f, etcd := 0\<rparr>), proc_sigterm = False\<rparr>]"
    "env (w1\<lparr>fs := ?f, etcd := 0\<rparr>) ''ETCD_INITIAL_CLUSTER_STATE'' = Some ''new''"
    using split_survives_rejoin [OF first d1 zero ini refl dir d2 cl ls named voters] by blast
  have "length (procs w1) = 1"
  proof -
    have "length (procs (snd (run_iteration listing_api (loop_cfg 0) ''etcd'' split_iter (demo_world Absent)))) = 1" by code_simp
    then show ?thesis by (simp add: first)
  qed
  then have "proc_env (procs w3 ! 1) ''ETCD_INITIAL_CLUSTER_STATE'' = Some ''new''" using w3(2,3) by (simp add: nth_append)
  moreover have "after_wait (waitExit (it_kill_ok rejoin_iter) (it_events rejoin_iter)) = LoopEnds WaitExits"
    by (simp add: rejoin_iter_def loop_iter_def after_wait_def)
  ultimately show ?thesis using first w3(1) by auto
qed

end
