(* ===== verification/Shared_Members.thy ===== *)
theory Shared_Members
  imports Cluster_Loop
begin

text \<open>
  Several pods share one etcd cluster. What the management loop of one pod
  (\<open>cmd/etcdcluster/main.go\<close> with \<open>pkg/cluster/manager.go\<close>) relies on in the etcd client and in the
  other pods, whose actions may fall between any two of its calls, and what it guarantees them:
  the cluster never has two members that count as this pod, and the pod adds no address but its own.
\<close>

section \<open>What a pod relies on\<close>

text \<open>The IDs of the members that \<open>processMembers\<close> takes for the pod, by name or by peer URLs.\<close>

definition self_ids :: "mgr_config \<Rightarrow> string list \<Rightarrow> member list \<Rightarrow> member_id set" where
  "self_ids cfg ips ms = m_ID ` set (self_members cfg (buildPeerURLSet ips (mc_PeerPort cfg)) ms)"

text \<open>
  \<open>members\<close> are those of the cluster the client reaches. A call may be preceded and followed by
  actions of other pods, which never add to this pod's members, and a refused call may have had its
  effect all the same (a timeout). A list shows the pod's members, of non-zero ID, at some moment of
  the call; an accepted removal is done and IDs are not used again; an addition adds one member;
  starting etcd names only the pod's member, which its distinct addresses have made known before, or forms a cluster of one member.
\<close>

definition pod_relies :: "mgr_config \<Rightarrow> string list \<Rightarrow> 'e etcd_api \<Rightarrow> ('e \<Rightarrow> member list) \<Rightarrow> bool" where
  "pod_relies cfg ips api members \<longleftrightarrow>
     (\<forall>e. case api_list api e of
            (None, e') \<Rightarrow> self_ids cfg ips (members e') \<subseteq> self_ids cfg ips (members e)
          | (Some ms, e') \<Rightarrow> self_ids cfg ips (members e') \<subseteq> self_ids cfg ips ms \<and>
              self_ids cfg ips ms \<subseteq> self_ids cfg ips (members e) \<and> 0 \<notin> self_ids cfg ips ms) \<and>
     (\<forall>i e. case api_remove api i e of
            (ok, e') \<Rightarrow> self_ids cfg ips (members e') \<subseteq> self_ids cfg ips (members e) \<and>
              (ok \<longrightarrow> i \<notin> self_ids cfg ips (members e'))) \<and>
     (\<forall>us e. \<exists>i. self_ids cfg ips (members (snd (api_add api us e))) \<subseteq> insert i (self_ids cfg ips (members e))) \<and>
     (\<forall>us e. \<exists>i. self_ids cfg ips (members (snd (api_add_learner api us e))) \<subseteq> insert i (self_ids cfg ips (members e))) \<and>
     (\<forall>i e. self_ids cfg ips (members (snd (api_promote api i e))) \<subseteq> self_ids cfg ips (members e)) \<and>
     (\<forall>v e. self_ids cfg ips (members (api_started api v e)) \<subseteq> self_ids cfg ips (members e) \<or>
            (\<exists>i. self_ids cfg ips (members (api_started api v e)) \<subseteq> {i}))"

text \<open>The loop among other pods: between two iterations they may do anything but add this pod.\<close>

inductive shared_step ::
    "'e etcd_api \<Rightarrow> etcd_config \<Rightarrow> string \<Rightarrow> ('e \<Rightarrow> member list) \<Rightarrow> 'e world \<Rightarrow> 'e world \<Rightarrow> bool"
  for api :: "'e etcd_api" and cfg :: etcd_config and bin :: string and members :: "'e \<Rightarrow> member list" where
  own_iteration: "run_iteration api cfg bin it w = (r, w') \<Longrightarrow> shared_step api cfg bin members w w'"
| other_pods: "self_ids (manager_config cfg) (ec_MyIPs cfg) (members e) \<subseteq>
      self_ids (manager_config cfg) (ec_MyIPs cfg) (members (etcd w)) \<Longrightarrow>
    shared_step api cfg bin members w (w\<lparr>etcd := e, fs := f, startable := st\<rparr>)"

section \<open>Lemmas\<close>

lemma finite_self_ids [simp]: "finite (self_ids cfg ips ms)"
  by (simp add: self_ids_def)

definition one_self :: "mgr_config \<Rightarrow> string list \<Rightarrow> member list \<Rightarrow> bool" where
  "one_self cfg ips ms \<longleftrightarrow> card (self_ids cfg ips ms) \<le> 1"

lemma one_self_iff: "one_self cfg ips ms \<longleftrightarrow> (\<exists>i. self_ids cfg ips ms \<subseteq> {i})"
proof -
  have "one_self cfg ips ms \<longleftrightarrow> (\<forall>i \<in> self_ids cfg ips ms. \<forall>j \<in> self_ids cfg ips ms. i = j)"
    unfolding one_self_def using card_le_Suc0_iff_eq [of "self_ids cfg ips ms"] by simp
  then show ?thesis by blast
qed

lemma one_self_mono: "self_ids cfg ips ms \<subseteq> self_ids cfg ips ms' \<Longrightarrow> one_self cfg ips ms' \<Longrightarrow> one_self cfg ips ms"
  unfolding one_self_iff by blast

text \<open>What \<open>processMembers\<close> finds of the pod.\<close>

lemma self_id_none:
  assumes "self_id cfg (buildPeerURLSet ips (mc_PeerPort cfg)) ms = 0" and "0 \<notin> self_ids cfg ips ms"
  shows "self_ids cfg ips ms = {}"
proof (rule ccontr)
  let ?is = "map m_ID (self_members cfg (buildPeerURLSet ips (mc_PeerPort cfg)) ms)"
  assume "self_ids cfg ips ms \<noteq> {}"
  then have "?is \<noteq> []" by (simp add: self_ids_def)
  moreover have "filter (\<lambda>i. i \<noteq> 0) ?is = ?is" using assms(2) by (auto simp: self_ids_def filter_id_conv)
  ultimately have "last ?is = 0" using assms(1) by (simp add: self_id_def last_or_def)
  then have "0 \<in> set ?is" using last_in_set [OF \<open>?is \<noteq> []\<close>] by simp
  then show False using assms(2) by (simp add: self_ids_def)
qed

lemma self_id_some:
  assumes "self_id cfg (buildPeerURLSet ips (mc_PeerPort cfg)) ms \<noteq> 0"
  shows "self_id cfg (buildPeerURLSet ips (mc_PeerPort cfg)) ms \<in> self_ids cfg ips ms"
proof -
  let ?is = "filter (\<lambda>i. i \<noteq> 0) (map m_ID (self_members cfg (buildPeerURLSet ips (mc_PeerPort cfg)) ms))"
  have "?is \<noteq> []" using assms by (auto simp: self_id_def last_or_def)
  then have "last ?is \<in> set ?is" by (rule last_in_set)
  then show ?thesis using \<open>?is \<noteq> []\<close> by (auto simp: self_id_def last_or_def self_ids_def)
qed

text \<open>The calls under these laws.\<close>

abbreviation own :: "mgr_config \<Rightarrow> string list \<Rightarrow> ('e \<Rightarrow> member list) \<Rightarrow> 'e world \<Rightarrow> member_id set" where
  "own cfg ips members w \<equiv> self_ids cfg ips (members (etcd w))"

lemma call_list_own:
  assumes "pod_relies cfg ips api members"
  shows "call_list api w = (None, w') \<Longrightarrow> own cfg ips members w' \<subseteq> own cfg ips members w"
    and "call_list api w = (Some ms, w') \<Longrightarrow> own cfg ips members w' \<subseteq> self_ids cfg ips ms \<and>
      self_ids cfg ips ms \<subseteq> own cfg ips members w \<and> 0 \<notin> self_ids cfg ips ms"
proof -
  have law: "case api_list api (etcd w) of
      (None, e') \<Rightarrow> self_ids cfg ips (members e') \<subseteq> own cfg ips members w
    | (Some ms, e') \<Rightarrow> self_ids cfg ips (members e') \<subseteq> self_ids cfg ips ms \<and>
        self_ids cfg ips ms \<subseteq> own cfg ips members w \<and> 0 \<notin> self_ids cfg ips ms"
    by (rule spec [OF conjunct1 [OF assms [unfolded pod_relies_def]]])
  show "call_list api w = (None, w') \<Longrightarrow> own cfg ips members w' \<subseteq> own cfg ips members w"
    and "call_list api w = (Some ms, w') \<Longrightarrow> own cfg ips members w' \<subseteq> self_ids cfg ips ms \<and>
      self_ids cfg ips ms \<subseteq> own cfg ips members w \<and> 0 \<notin> self_ids cfg ips ms"
    using law by (auto simp: call_list_def split: prod.splits)
qed

lemma call_remove_own:
  assumes "pod_relies cfg ips api members" and "call_remove api i w = (ok, w')"
  shows "own cfg ips members w' \<subseteq> own cfg ips members w" and "ok \<Longrightarrow> i \<notin> own cfg ips members w'"
proof -
  have law: "case api_remove api i (etcd w) of
      (ok, e') \<Rightarrow> self_ids cfg ips (members e') \<subseteq> own cfg ips members w \<and> (ok \<longrightarrow> i \<notin> self_ids cfg ips (members e'))"
    by (rule spec [OF spec [OF conjunct1 [OF conjunct2 [OF assms(1) [unfolded pod_relies_def]]]]])
  show "own cfg ips members w' \<subseteq> own cfg ips members w" and "ok \<Longrightarrow> i \<notin> own cfg ips members w'"
    using law assms(2) by (auto simp: call_remove_def split: prod.splits)
qed

lemma call_adds_own:
  assumes "pod_relies cfg ips api members"
  shows "call_add api us w = (r, w') \<Longrightarrow> \<exists>i. own cfg ips members w' \<subseteq> insert i (own cfg ips members w)"
    and "call_add_learner api us w = (r, w') \<Longrightarrow> \<exists>i. own cfg ips members w' \<subseteq> insert i (own cfg ips members w)"
proof -
  have "\<exists>i. self_ids cfg ips (members (snd (api_add api us (etcd w)))) \<subseteq> insert i (own cfg ips members w)"
    using assms unfolding pod_relies_def by blast
  then show "call_add api us w = (r, w') \<Longrightarrow> \<exists>i. own cfg ips members w' \<subseteq> insert i (own cfg ips members w)"
    by (cases "api_add api us (etcd w)") (clarsimp simp: call_add_def, rule exI, assumption)
  have "\<exists>i. self_ids cfg ips (members (snd (api_add_learner api us (etcd w)))) \<subseteq> insert i (own cfg ips members w)"
    using assms unfolding pod_relies_def by blast
  then show "call_add_learner api us w = (r, w') \<Longrightarrow> \<exists>i. own cfg ips members w' \<subseteq> insert i (own cfg ips members w)"
    by (cases "api_add_learner api us (etcd w)") (clarsimp simp: call_add_learner_def, rule exI, assumption)
qed

lemma promoteLearner_own:
  assumes "pod_relies cfg ips api members" and "promoteLearner api i w = (r, w')"
  shows "own cfg ips members w' \<subseteq> own cfg ips members w"
proof -
  have "own cfg ips members (snd (promote_once api i v)) \<subseteq> own cfg ips members v" for v
  proof -
    have "self_ids cfg ips (members (snd (api_promote api i (etcd v)))) \<subseteq> own cfg ips members v"
      using assms(1) unfolding pod_relies_def by blast
    then show ?thesis by (cases "api_promote api i (etcd v)") (simp add: promote_once_def call_promote_def)
  qed
  then have "own cfg ips members (snd (promote_loop api i max_promote_retries w)) \<subseteq> own cfg ips members w"
    by (intro promotion.loop_invariant [where P = "\<lambda>v. own cfg ips members v \<subseteq> own cfg ips members w"]) auto
  moreover have "w' = snd (promote_loop api i max_promote_retries w)"
    using assms(2) by (auto simp: promoteLearner_def split: prod.splits option.splits)
  ultimately show ?thesis by simp
qed

text \<open>The invariant of a world, and the steps of a join.\<close>

definition self_once :: "mgr_config \<Rightarrow> string list \<Rightarrow> ('e \<Rightarrow> member list) \<Rightarrow> 'e world \<Rightarrow> bool" where
  "self_once cfg ips members w \<longleftrightarrow> one_self cfg ips (members (etcd w))"

lemma self_once_local: "etcd w' = etcd w \<Longrightarrow> self_once cfg ips members w' = self_once cfg ips members w"
  by (simp add: self_once_def)

lemma self_once_mono:
  "own cfg ips members w' \<subseteq> own cfg ips members w \<Longrightarrow> self_once cfg ips members w \<Longrightarrow> self_once cfg ips members w'"
  unfolding self_once_def by (rule one_self_mono)

lemma self_once_start:
  assumes "pod_relies cfg ips api members" and "self_once cfg ips members w"
  shows "self_once cfg ips members (snd (startEtcd api bin w))"
proof -
  have "own cfg ips members w' \<subseteq> own cfg ips members w \<or> (\<exists>i. own cfg ips members w' \<subseteq> {i})"
    if "etcd w' = api_started api (env w) (etcd w)" for w' :: "'a world"
    using assms(1) that unfolding pod_relies_def by simp
  then have "self_once cfg ips members w'" if "etcd w' = api_started api (env w) (etcd w)" for w'
    using that assms(2) self_once_mono by (metis one_self_iff self_once_def)
  then show ?thesis using assms(2) by (simp add: startEtcd_def)
qed

lemma self_once_start_added:
  assumes "pod_relies cfg ips api members" and "self_once cfg ips members w"
  shows "self_once cfg ips members (snd (start_added api cfg' bin pr resp w))"
proof -
  let ?w1 = "setenv ''ETCD_INITIAL_CLUSTER'' (join '','' (buildClusterConfig cfg' (ar_Members resp)))
    (setenv ''ETCD_INITIAL_CLUSTER_STATE'' ''existing'' w)"
  have "self_once cfg ips members ?w1" using assms(2) by (simp add: self_once_def setenv_def)
  then have st: "self_once cfg ips members (snd (startEtcd api bin ?w1))" using assms(1) by (intro self_once_start)
  have pr: "self_once cfg ips members v'" if "promoteLearner api i v = (r, v')" "self_once cfg ips members v" for i v r v'
    using promoteLearner_own [OF assms(1) that(1)] that(2) by (rule self_once_mono)
  have sg: "self_once cfg ips members (signal_term p v) = self_once cfg ips members v" for p v
    by (simp add: self_once_def signal_term_def)
  show ?thesis using st
    by (auto simp: start_added_def Let_def sg intro: pr split: prod.split gores.split)
qed

lemma self_once_add:
  assumes "pod_relies cfg ips api members" and "own cfg ips members w = {}"
  shows "self_once cfg ips members (snd (addMemberAndStart api cfg' ips' n bin w))"
proof -
  have 1: "self_once cfg ips members w1"
    if "call_add api us w = (r, w1) \<or> call_add_learner api us w = (r, w1)" for us r w1
    using call_adds_own [OF assms(1), of us w r w1] that assms(2) by (auto simp: self_once_def one_self_iff)
  have "self_once cfg ips members w" using assms(2) by (simp add: self_once_def one_self_iff)
  then show ?thesis
    by (auto simp: addMemberAndStart_def Let_def intro!: self_once_start_added [OF assms(1)]
        intro: 1 split: prod.split option.split)
qed

lemma removals_own:
  assumes "pod_relies cfg ips api members"
  shows "own cfg ips members (snd (process_loop api cfg' dead mine ms acc w)) \<subseteq> own cfg ips members w"
proof (induction ms arbitrary: acc w)
  case (Cons m ms)
  have "own cfg ips members (removeDeadMember api (m_ID m) w) \<subseteq> own cfg ips members w"
    using call_remove_own(1) [OF assms, of "m_ID m" w] unfolding removeDeadMember_def by (metis prod.collapse)
  then have "own cfg ips members (snd (process_loop api cfg' dead mine ms acc (removeDeadMember api (m_ID m) w)))
      \<subseteq> own cfg ips members w" for acc using Cons.IH by (rule subset_trans [rotated])
  then show ?case using Cons.IH by simp
qed simp

lemma self_once_withData:
  assumes "pod_relies cfg ips api members" and "self_once cfg ips members w"
  shows "self_once cfg ips members (snd (handleExistingMemberWithData api cfg' i l bin w))"
proof (cases "promoteLearner api i w")
  case (Pair r w1)
  have w1: "self_once cfg ips members w1"
    using promoteLearner_own [OF assms(1) Pair] assms(2) by (rule self_once_mono)
  then have "self_once cfg ips members (removeDeadMember api i w1)"
    using call_remove_own(1) [OF assms(1), of i w1] unfolding removeDeadMember_def
    by (metis self_once_mono surjective_pairing)
  then have "self_once cfg ips members ((removeDeadMember api i w1)\<lparr>fs := f\<rparr>)" for f by (simp add: self_once_def)
  then show ?thesis using w1 Pair assms
    by (simp add: handleExistingMemberWithData_def Let_def self_once_start split: gores.split)
qed

lemma self_once_join:
  assumes law: "pod_relies cfg ips api members" and once: "self_once cfg ips members w"
  shows "self_once cfg ips members (snd (JoinExistingCluster api cfg ips dead bin w))"
proof -
  let ?mine = "buildPeerURLSet ips (mc_PeerPort cfg)"
  obtain l w1 where c: "call_list api w = (l, w1)" by (cases "call_list api w")
  show ?thesis
  proof (cases l)
    case None
    then have "self_once cfg ips members w1" using call_list_own(1) [OF law] c once self_once_mono by blast
    with None c show ?thesis by (simp add: JoinExistingCluster_def)
  next
    case (Some ms)
    note shown = call_list_own(2) [OF law c [unfolded Some]]
    obtain si w2 where p: "processMembers api cfg ms dead ?mine w1 = (si, w2)"
      by (cases "processMembers api cfg ms dead ?mine w1")
    have si: "si_ID si = self_id cfg ?mine ms" using processMembers_info [of api cfg ms dead ?mine w1] p by simp
    have own2: "own cfg ips members w2 \<subseteq> self_ids cfg ips ms"
      using removals_own [OF law, of cfg dead ?mine ms _ w1] shown p unfolding processMembers_def
      by (metis snd_conv subset_trans)
    have one: "one_self cfg ips ms" using once shown one_self_mono unfolding self_once_def one_self_iff by blast
    then have once2: "self_once cfg ips members w2" using own2 unfolding self_once_def one_self_iff by blast
    have files: "own cfg ips members (v\<lparr>fs := f\<rparr>) = own cfg ips members v" for v :: "'a world" and f by simp
    have "self_once cfg ips members (snd (handleMemberJoin api cfg (si_ID si) lr ips n bin w2))" for lr n
    proof (cases "si_ID si = 0")
      case True
      then have "own cfg ips members w2 = {}" using self_id_none shown own2 si by fastforce
      then show ?thesis using True once2
        by (auto simp: handleMemberJoin_def intro!: self_once_add [OF law] split: gores.split bool.split)
    next
      case False
      then have "self_ids cfg ips ms \<subseteq> {si_ID si}" using self_id_some [of cfg ips ms] si one unfolding one_self_iff by auto
      then have "own cfg ips members w3 = {}" if "call_remove api (si_ID si) w2 = (True, w3)" for w3
        using call_remove_own [OF law that] own2 by blast
      moreover have "self_once cfg ips members w3" if "call_remove api (si_ID si) w2 = (ok, w3)" for ok w3
        using call_remove_own(1) [OF law that] once2 by (rule self_once_mono)
      ultimately show ?thesis using False once2
        by (auto simp: handleMemberJoin_def handleExistingMemberWithoutData_def
            intro!: self_once_add [OF law] self_once_withData [OF law] split: gores.split bool.split prod.split)
    qed
    then show ?thesis using Some c p by (simp add: JoinExistingCluster_def)
  qed
qed

lemma self_once_iteration:
  assumes "pod_relies (manager_config cfg) (ec_MyIPs cfg) api members"
    and "self_once (manager_config cfg) (ec_MyIPs cfg) members w"
  shows "self_once (manager_config cfg) (ec_MyIPs cfg) members (snd (run_iteration api cfg bin it w))"
proof -
  let ?m = "manager_config cfg"
  have j: "self_once ?m (ec_MyIPs cfg) members (snd (join_branch api cfg bin it info w))" for info
    using self_once_join [OF assms, of "DeadNames info" bin] assms(2)
    by (auto simp: join_branch_def split: gores.split prod.split)
  have "self_once ?m (ec_MyIPs cfg) members (snd (InitializeNewCluster api ?m (ec_MyIPs cfg) bin w))"
    using assms(2) by (auto simp: InitializeNewCluster_def Let_def self_once_def setenv_def
      intro!: self_once_start [OF assms(1), unfolded self_once_def] split: gores.split bool.split)
  then have "self_once ?m (ec_MyIPs cfg) members (snd (init_branch api cfg bin it w))"
    using assms(2) by (auto simp: init_branch_def Let_def self_once_def signal_term_def split: gores.split prod.split)
  with j assms(2) show ?thesis by (simp add: run_iteration_def split: sum.split)
qed

subsection \<open>What it guarantees\<close>

text \<open>Every addition in a log of calls is of the addresses \<open>us\<close>.\<close>

definition adds_only :: "string list \<Rightarrow> api_call list \<Rightarrow> bool" where
  "adds_only us cs \<longleftrightarrow> (\<forall>v. CallAdd v \<in> set cs \<or> CallAddLearner v \<in> set cs \<longrightarrow> v = us)"

abbreviation own_urls :: "etcd_config \<Rightarrow> string list" where
  "own_urls cfg \<equiv> map (\<lambda>ip. peer_url ip (ec_PeerPort cfg)) (ec_MyIPs cfg)"

lemma adds_only_append [simp]: "adds_only us (cs @ ds) \<longleftrightarrow> adds_only us cs \<and> adds_only us ds"
  by (auto simp: adds_only_def)

lemma add_calls_only: "add_calls mode us cs \<Longrightarrow> adds_only us cs"
  by (cases mode) (auto simp: adds_only_def)

lemma plan_calls_only: "plan_calls plan us cs \<Longrightarrow> adds_only us cs"
  by (cases plan) (auto simp: adds_only_def dest: add_calls_only [unfolded adds_only_def])

lemma adds_only_join:
  assumes "JoinExistingCluster api cfg ips dead bin w = (r, w')"
    and "adds_only (map (\<lambda>ip. peer_url ip (mc_PeerPort cfg)) ips) (calls w)"
  shows "adds_only (map (\<lambda>ip. peer_url ip (mc_PeerPort cfg)) ips) (calls w')"
proof (cases "fst (api_list api (etcd w))")
  case None
  then have "calls w' = calls w @ [CallList]"
    using assms(1) by (auto simp: JoinExistingCluster_def call_list_def split: prod.splits)
  with assms(2) show ?thesis by (simp add: adds_only_def)
next
  case (Some ms)
  let ?rm = "removed_members cfg dead (buildPeerURLSet ips (mc_PeerPort cfg)) ms"
  obtain cs plan where "calls w' = calls w @ CallList # map (CallRemove \<circ> m_ID) ?rm @ cs"
    "plan_calls plan (map (\<lambda>ip. peer_url ip (mc_PeerPort cfg)) ips) cs"
    using JoinExistingCluster_refines(3) [OF assms(1) Some] by blast
  moreover have "adds_only us (CallList # map (CallRemove \<circ> m_ID) ?rm)" for us by (auto simp: adds_only_def)
  ultimately show ?thesis using assms(2) plan_calls_only
    by (metis (no_types, lifting) adds_only_append append_Cons)
qed

lemma InitializeNewCluster_calls: "calls (snd (InitializeNewCluster api cfg ips bin w)) = calls w"
  by (auto simp: InitializeNewCluster_def Let_def startEtcd_def setenv_def split: gores.split bool.split)

lemma adds_only_iteration:
  assumes "adds_only (own_urls cfg) (calls w)"
  shows "adds_only (own_urls cfg) (calls (snd (run_iteration api cfg bin it w)))"
proof -
  have port: "mc_PeerPort (manager_config cfg) = ec_PeerPort cfg" by (simp add: manager_config_def)
  have "adds_only (own_urls cfg) (calls (snd (join_branch api cfg bin it info w)))" for info
    using assms adds_only_join [of api "manager_config cfg" "ec_MyIPs cfg" "DeadNames info" bin w]
    by (auto simp: join_branch_def port split: gores.split prod.split)
  moreover have "adds_only (own_urls cfg) (calls (snd (init_branch api cfg bin it w)))"
    using assms InitializeNewCluster_calls [of api "manager_config cfg" "ec_MyIPs cfg" bin w]
    by (auto simp: init_branch_def Let_def split: gores.split prod.split)
  ultimately show ?thesis using assms by (simp add: run_iteration_def split: sum.split)
qed

subsection \<open>Both, for every run of the loop\<close>

definition shared_inv :: "'e etcd_api \<Rightarrow> etcd_config \<Rightarrow> ('e \<Rightarrow> member list) \<Rightarrow> 'e world \<Rightarrow> bool" where
  "shared_inv api cfg members w \<longleftrightarrow> pod_relies (manager_config cfg) (ec_MyIPs cfg) api members \<and>
     self_once (manager_config cfg) (ec_MyIPs cfg) members w \<and> adds_only (own_urls cfg) (calls w)"

interpretation shared: invariant_system
  "shared_inv api cfg members" "shared_step api cfg bin members" "shared_inv api cfg members"
  for api :: "'e etcd_api" and cfg bin members
proof
  fix s t :: "'e world"
  assume inv: "shared_inv api cfg members s" and "shared_step api cfg bin members s t"
  from this(2) show "shared_inv api cfg members t"
  proof cases
    case (own_iteration it r)
    then have "t = snd (run_iteration api cfg bin it s)" by simp
    then show ?thesis using inv self_once_iteration adds_only_iteration unfolding shared_inv_def by metis
  next
    case (other_pods e f st)
    then have "self_once (manager_config cfg) (ec_MyIPs cfg) members t"
      using inv self_once_mono [of "manager_config cfg" "ec_MyIPs cfg" members t s] by (simp add: shared_inv_def)
    then show ?thesis using inv other_pods by (simp add: shared_inv_def)
  qed
qed

section \<open>Properties\<close>

text \<open>
  C4: A pod never has two members in the cluster: whatever the other pods do between any two of its
  calls, and whether or not a call that failed has had its effect, after any number of iterations
  the cluster has at most one member that counts as this pod, by its name or its addresses, if it
  had at most one at first; and the pod never adds addresses other than its own, so that it keeps
  its side of what other pods rely on.
\<close>

theorem one_member_per_pod:
  assumes "(shared_step api cfg bin members)\<^sup>*\<^sup>* w w'"
    and "pod_relies (manager_config cfg) (ec_MyIPs cfg) api members"
    and "card (self_ids (manager_config cfg) (ec_MyIPs cfg) (members (etcd w))) \<le> 1"
    and "calls w = []"
  shows "card (self_ids (manager_config cfg) (ec_MyIPs cfg) (members (etcd w'))) \<le> 1 \<and>
    (\<forall>us. CallAdd us \<in> set (calls w') \<or> CallAddLearner us \<in> set (calls w') \<longrightarrow>
       us = map (\<lambda>ip. peer_url ip (ec_PeerPort cfg)) (ec_MyIPs cfg))"
proof -
  have "shared_inv api cfg members w"
    using assms(2-4) by (simp add: shared_inv_def self_once_def one_self_def adds_only_def)
  then have "shared_inv api cfg members w'" by (rule shared.steps_inv [OF assms(1)])
  then show ?thesis by (simp add: shared_inv_def self_once_def one_self_def adds_only_def)
qed

text \<open>
  An etcd cluster as a list of members and the next ID, for the witness: an addition is of a
  nameless member, and starting etcd gives the pod's member its name.
\<close>

type_synonym store = "member list \<times> member_id"

definition store_members :: "store \<Rightarrow> member list" where
  "store_members e = filter (\<lambda>m. m_ID m \<noteq> 0) (fst e)"

definition store_add :: "bool \<Rightarrow> string list \<Rightarrow> store \<Rightarrow> add_resp option \<times> store" where
  "store_add learner us e =
     (let ms = fst e @ [\<lparr>m_ID = snd e, m_Name = [], m_PeerURLs = us, m_IsLearner = learner\<rparr>]
      in (Some \<lparr>ar_ID = snd e, ar_Members = ms\<rparr>, ms, snd e + 1))"

definition store_api :: "store etcd_api" where
  "store_api = \<lparr>api_list = (\<lambda>e. (Some (store_members e), e)),
     api_remove = (\<lambda>i e. (True, filter (\<lambda>m. m_ID m \<noteq> i) (fst e), snd e)),
     api_add = store_add False, api_add_learner = store_add True,
     api_promote = (\<lambda>i e. (True, map (\<lambda>m. if m_ID m = i then m\<lparr>m_IsLearner := False\<rparr> else m) (fst e), snd e)),
     api_started = (\<lambda>v e. (map (\<lambda>m. if m_PeerURLs m = [peer_url ''10.0.0.1'' ''2480''] then m\<lparr>m_Name := ''etcd-1''\<rparr> else m) (fst e), snd e))\<rparr>"

lemma self_ids_append [simp]: "self_ids cfg ips (xs @ ys) = self_ids cfg ips xs \<union> self_ids cfg ips ys"
  by (simp add: self_ids_def self_members_def image_Un)

lemma self_ids_filter: "self_ids cfg ips (filter P ms) \<subseteq> self_ids cfg ips ms"
  by (auto simp: self_ids_def self_members_def)

lemma store_relies: "pod_relies (manager_config (loop_cfg 2)) (ec_MyIPs (loop_cfg 2)) store_api store_members"
proof -
  let ?c = "manager_config (loop_cfg 2)" and ?ips = "ec_MyIPs (loop_cfg 2)"
  have zero: "0 \<notin> self_ids ?c ?ips (store_members e)" for e
    by (auto simp: self_ids_def self_members_def store_members_def)
  have rem: "self_ids ?c ?ips (store_members (filter (\<lambda>m. m_ID m \<noteq> i) (fst e), n)) \<subseteq> self_ids ?c ?ips (store_members e) - {i}" for i e n
    by (auto simp: self_ids_def self_members_def store_members_def)
  have add: "\<exists>i. self_ids ?c ?ips (store_members (snd (store_add l us e))) \<subseteq> insert i (self_ids ?c ?ips (store_members e))" for l us e
    by (rule exI [of _ "snd e"]) (auto simp: store_add_def Let_def store_members_def self_ids_def self_members_def)
  have ren: "self_ids ?c ?ips (store_members (map g (fst e), n)) \<subseteq> self_ids ?c ?ips (store_members e)"
    if "\<And>m. m_ID (g m) = m_ID m" "\<And>m. is_self ?c (buildPeerURLSet ?ips (mc_PeerPort ?c)) (g m) \<Longrightarrow>
      is_self ?c (buildPeerURLSet ?ips (mc_PeerPort ?c)) m" for g e n
    using that by (force simp: self_ids_def self_members_def store_members_def)
  have pro: "self_ids ?c ?ips (store_members (snd (api_promote store_api i e))) \<subseteq> self_ids ?c ?ips (store_members e)" for i e
    by (simp add: store_api_def, rule ren) (auto simp: is_self_def split: if_splits)
  have sta: "self_ids ?c ?ips (store_members (api_started store_api v e)) \<subseteq> self_ids ?c ?ips (store_members e)" for v e
    by (simp add: store_api_def, rule ren)
      (auto simp: is_self_def loop_cfg_def manager_config_def buildPeerURLSet_def peerURLsMatch_def split: if_splits)
  show ?thesis
    unfolding pod_relies_def
  proof (intro conjI)
    show "\<forall>i e. case api_remove store_api i e of (ok, e') \<Rightarrow>
        self_ids ?c ?ips (store_members e') \<subseteq> self_ids ?c ?ips (store_members e) \<and>
        (ok \<longrightarrow> i \<notin> self_ids ?c ?ips (store_members e'))"
      using rem by (fastforce simp: store_api_def)
  qed (use zero add pro sta in \<open>auto simp: store_api_def\<close>)
qed

text \<open>The pod has lost its data: its member is replaced, and its new one is the only one.\<close>

definition stale_world :: "store world" where
  "stale_world = \<lparr>env = Map.empty, fs = \<lparr>node = (\<lambda>p. Absent), sticky = (\<lambda>p. False)\<rparr>, procs = [],
     startable = (\<lambda>b. True),
     etcd = ([demo_member 5 ''etcd-0'' ''10.0.0.9'' False, demo_member 6 ''etcd-1'' ''10.0.0.1'' False,
       demo_member 7 ''etcd-2'' ''10.0.0.2'' False], 8), calls = []\<rparr>"

theorem one_member_per_pod_witness:
  "\<exists>w'. shared_step store_api (loop_cfg 2) ''etcd'' store_members stale_world w' \<and>
     self_ids (manager_config (loop_cfg 2)) (ec_MyIPs (loop_cfg 2)) (store_members (etcd stale_world)) = {6} \<and>
     self_ids (manager_config (loop_cfg 2)) (ec_MyIPs (loop_cfg 2)) (store_members (etcd w')) = {8} \<and>
     (\<forall>us. CallAdd us \<in> set (calls w') \<longrightarrow> us = [peer_url ''10.0.0.1'' ''2480''])"
proof -
  let ?c = "manager_config (loop_cfg 2)" and ?ips = "ec_MyIPs (loop_cfg 2)"
  let ?it = "loop_iter demo_env [ProcessExited]"
  let ?w = "snd (run_iteration store_api (loop_cfg 2) ''etcd'' ?it stale_world)"
  have step: "shared_step store_api (loop_cfg 2) ''etcd'' store_members stale_world ?w"
    by (rule own_iteration [where it = ?it]) (rule prod.collapse [symmetric])
  have before: "self_ids ?c ?ips (store_members (etcd stale_world)) = {6}" by code_simp
  have after: "self_ids ?c ?ips (store_members (etcd ?w)) = {8}" by code_simp
  have "card (self_ids ?c ?ips (store_members (etcd stale_world))) \<le> 1" by (simp add: before)
  from one_member_per_pod [OF r_into_rtranclp [of "shared_step store_api (loop_cfg 2) ''etcd'' store_members", OF step] store_relies this]
  have "\<forall>us. CallAdd us \<in> set (calls ?w) \<longrightarrow> us = [peer_url ''10.0.0.1'' ''2480'']"
    by (simp add: stale_world_def loop_cfg_def)
  then show ?thesis using step before after by blast
qed

end
