(* ===== verification/Init_Cert.thy ===== *)
theory Init_Cert
  imports Go_Net Util_Tool
begin

text \<open>
  \<open>pkg/init/cert.go\<close>: the server certificate of an etcd pod, made once and kept in the
  certificate directory. Go's cryptography is a parameter (\<open>signer\<close>; \<open>'s\<close> is whatever key the
  CA key file holds, \<open>'k\<close> the generated ECDSA key). The file system of \<open>Util_Tool\<close> gets the
  operations that write, with the faults they can report in a record. On an error the files keep
  what was written before it.
\<close>

section \<open>Writing files\<close>

text \<open>
  \<open>mkdir_fails\<close>, \<open>create_fails\<close> and \<open>write_fails\<close> hold of the paths where \<open>os.MkdirAll\<close>, opening
  a file for writing, and writing to the open file fail.
\<close>

record os_faults =
  mkdir_fails :: "path \<Rightarrow> bool"
  create_fails :: "path \<Rightarrow> bool"
  write_fails :: "path \<Rightarrow> bool"

definition put_node :: "path \<Rightarrow> fnode \<Rightarrow> fsys \<Rightarrow> fsys" where
  "put_node p n f = f\<lparr>node := (node f)(p := n)\<rparr>"

definition mkdir_all :: "os_faults \<Rightarrow> path \<Rightarrow> fsys \<Rightarrow> bool \<times> fsys" where
  "mkdir_all o' p f =
     (if node f p = Directory then (True, f)
      else if node f p = Absent \<and> \<not> mkdir_fails o' p then (True, put_node p Directory f)
      else (False, f))"

text \<open>\<open>os.Create\<close> truncates; writing puts the bytes there or leaves the empty file.\<close>

definition create_file :: "os_faults \<Rightarrow> path \<Rightarrow> fsys \<Rightarrow> bool \<times> fsys" where
  "create_file o' p f =
     (if node f p = Directory \<or> create_fails o' p then (False, f) else (True, put_node p (RegFile []) f))"

definition write_bytes :: "os_faults \<Rightarrow> path \<Rightarrow> string \<Rightarrow> fsys \<Rightarrow> bool \<times> fsys" where
  "write_bytes o' p c f = (if write_fails o' p then (False, f) else (True, put_node p (RegFile c) f))"

text \<open>\<open>os.WriteFile\<close>.\<close>

definition write_file :: "os_faults \<Rightarrow> path \<Rightarrow> string \<Rightarrow> fsys \<Rightarrow> bool \<times> fsys" where
  "write_file o' p c f =
     (case create_file o' p f of (False, f1) \<Rightarrow> (False, f1) | (True, f1) \<Rightarrow> write_bytes o' p c f1)"

section \<open>Certificates\<close>

record InitCertConfig =
  ic_PodName :: string
  ic_Namespace :: string
  ic_ServiceName :: string
  ic_CliName :: string
  ic_IPs :: "string list"
  ic_CertDir :: string
  ic_CAFile :: string
  ic_CAKeyFile :: string

text \<open>A serial number that could not be drawn is nil; an address that does not parse is nil.\<close>

record cert_template =
  ct_Serial :: "nat option"
  ct_CommonName :: string
  ct_ValidHours :: int
  ct_KeyUsage :: "key_usage list"
  ct_ExtKeyUsage :: "ext_key_usage list"
  ct_BasicConstraintsValid :: bool
  ct_DNSNames :: "string list"
  ct_IPAddresses :: "nat list option list"

record ('k, 's) signer =
  sg_pem_decode :: "string \<Rightarrow> (string \<times> string) option"
  sg_pem_encode :: "string \<Rightarrow> string \<Rightarrow> string"
  sg_parse_cert :: "string \<Rightarrow> bool"
  sg_parse_pkcs1 :: "string \<Rightarrow> 's option"
  sg_parse_ec :: "string \<Rightarrow> 's option"
  sg_parse_pkcs8 :: "string \<Rightarrow> 's option"
  sg_create_cert :: "cert_template \<Rightarrow> string \<Rightarrow> 's \<Rightarrow> 'k \<Rightarrow> string option"
  sg_marshal_ec :: "'k \<Rightarrow> string option"

datatype init_cert_error =
  CertDirNotCreated | CACertNotRead | CACertBadPEM | CACertNotParsed | CAKeyNotRead | CAKeyBadPEM
| CAKeyUnsupported string | CAKeyNotParsed | PrivateKeyNotGenerated | CertNotSigned
| CertFileNotCreated | CertNotWritten | KeyFileNotCreated | PrivateKeyNotMarshalled | KeyNotWritten | CANotCopied

definition cert_file_of :: "InitCertConfig \<Rightarrow> path" where
  "cert_file_of cfg = [ic_CertDir cfg, ic_PodName cfg @ ''.pem'']"

definition key_file_of :: "InitCertConfig \<Rightarrow> path" where
  "key_file_of cfg = [ic_CertDir cfg, ic_PodName cfg @ ''-key.pem'']"

text \<open>The package's own \<open>fileExists\<close>: \<open>os.Stat\<close> without any error.\<close>

definition fileExists :: "fsys \<Rightarrow> path \<Rightarrow> bool" where
  "fileExists f p \<longleftrightarrow> node f p \<noteq> Absent \<and> node f p \<noteq> StatFails"

definition parseIP :: "string \<Rightarrow> nat list option" where
  "parseIP ipStr = parse_ip (trim_space ipStr)"

definition createCertTemplate :: "InitCertConfig \<Rightarrow> nat option \<Rightarrow> cert_template" where
  "createCertTemplate cfg serial =
     (let cli = ic_CliName cfg @ ''.'' @ ic_Namespace cfg;
          pod = ic_PodName cfg @ ''.'' @ ic_ServiceName cfg @ ''.'' @ ic_Namespace cfg
      in \<lparr>ct_Serial = serial, ct_CommonName = ic_PodName cfg, ct_ValidHours = 876000,
          ct_KeyUsage = [KeyEncipherment, DigitalSignature], ct_ExtKeyUsage = [ServerAuth, ClientAuth],
          ct_BasicConstraintsValid = True,
          ct_DNSNames = [cli, cli @ ''.svc'', cli @ ''.svc.cluster.local'',
            pod @ ''.svc'', pod, pod @ ''.svc.cluster.local'', ''localhost''],
          ct_IPAddresses = map parseIP (filter (\<lambda>ip. ip \<noteq> []) (''127.0.0.1'' # ic_IPs cfg))\<rparr>)"

definition loadCACertificate :: "('k, 's) signer \<Rightarrow> fsys \<Rightarrow> string \<Rightarrow> init_cert_error + string" where
  "loadCACertificate sg f certFile =
     (case read_file f [certFile] of
        None \<Rightarrow> Inl CACertNotRead
      | Some certPEM \<Rightarrow>
          (case sg_pem_decode sg certPEM of
             None \<Rightarrow> Inl CACertBadPEM
           | Some (t, der) \<Rightarrow> if sg_parse_cert sg der then Inr der else Inl CACertNotParsed))"

definition loadCAPrivateKey :: "('k, 's) signer \<Rightarrow> fsys \<Rightarrow> string \<Rightarrow> init_cert_error + 's" where
  "loadCAPrivateKey sg f keyFile =
     (case read_file f [keyFile] of
        None \<Rightarrow> Inl CAKeyNotRead
      | Some keyPEM \<Rightarrow>
          (case sg_pem_decode sg keyPEM of
             None \<Rightarrow> Inl CAKeyBadPEM
           | Some (t, b) \<Rightarrow>
               (let parsed = (if t = ''RSA PRIVATE KEY'' then Some (sg_parse_pkcs1 sg b)
                    else if t = ''EC PRIVATE KEY'' then Some (sg_parse_ec sg b)
                    else if t = ''PRIVATE KEY'' then Some (sg_parse_pkcs8 sg b) else None)
                in case parsed of
                     None \<Rightarrow> Inl (CAKeyUnsupported t)
                   | Some None \<Rightarrow> Inl CAKeyNotParsed
                   | Some (Some k) \<Rightarrow> Inr k)))"

definition loadCA_files :: "('k, 's) signer \<Rightarrow> fsys \<Rightarrow> string \<Rightarrow> string \<Rightarrow> init_cert_error + string \<times> 's" where
  "loadCA_files sg f certFile keyFile =
     (case loadCACertificate sg f certFile of
        Inl e \<Rightarrow> Inl e
      | Inr caCert \<Rightarrow>
          (case loadCAPrivateKey sg f keyFile of Inl e \<Rightarrow> Inl e | Inr caKey \<Rightarrow> Inr (caCert, caKey)))"

definition writeCertFiles ::
    "('k, 's) signer \<Rightarrow> os_faults \<Rightarrow> path \<Rightarrow> path \<Rightarrow> string \<Rightarrow> 'k \<Rightarrow> fsys \<Rightarrow> init_cert_error option \<times> fsys" where
  "writeCertFiles sg o' certFile keyFile certDER privateKey f =
     (case create_file o' certFile f of
        (False, f1) \<Rightarrow> (Some CertFileNotCreated, f1)
      | (True, f1) \<Rightarrow>
          (case write_bytes o' certFile (sg_pem_encode sg ''CERTIFICATE'' certDER) f1 of
             (False, f2) \<Rightarrow> (Some CertNotWritten, f2)
           | (True, f2) \<Rightarrow>
               (case create_file o' keyFile f2 of
                  (False, f3) \<Rightarrow> (Some KeyFileNotCreated, f3)
                | (True, f3) \<Rightarrow>
                    (case sg_marshal_ec sg privateKey of
                       None \<Rightarrow> (Some PrivateKeyNotMarshalled, f3)
                     | Some keyBytes \<Rightarrow>
                         (case write_bytes o' keyFile (sg_pem_encode sg ''EC PRIVATE KEY'' keyBytes) f3 of
                            (False, f4) \<Rightarrow> (Some KeyNotWritten, f4)
                          | (True, f4) \<Rightarrow> (None, f4))))))"

definition copyFile :: "os_faults \<Rightarrow> path \<Rightarrow> path \<Rightarrow> fsys \<Rightarrow> bool \<times> fsys" where
  "copyFile o' src dst f = (case read_file f src of None \<Rightarrow> (False, f) | Some d \<Rightarrow> write_file o' dst d f)"

definition copyCACert :: "os_faults \<Rightarrow> string \<Rightarrow> string \<Rightarrow> fsys \<Rightarrow> init_cert_error option \<times> fsys" where
  "copyCACert o' caFile certDir f =
     (let caPemFile = [certDir, ''ca.pem''] in
      if \<not> fileExists f caPemFile then
        (case copyFile o' [caFile] caPemFile f of
           (False, f1) \<Rightarrow> (Some CANotCopied, f1)
         | (True, f1) \<Rightarrow> (None, f1))
      else (None, f))"

text \<open>\<open>key\<close> and \<open>serial\<close> are what the random source yields in this run.\<close>

definition GenerateCertificate ::
    "('k, 's) signer \<Rightarrow> os_faults \<Rightarrow> 'k option \<Rightarrow> nat option \<Rightarrow> InitCertConfig \<Rightarrow> fsys
      \<Rightarrow> init_cert_error option \<times> fsys" where
  "GenerateCertificate sg o' key serial cfg f =
     (if fileExists f (cert_file_of cfg) \<and> fileExists f (key_file_of cfg) then (None, f)
      else (case mkdir_all o' [ic_CertDir cfg] f of
        (False, f1) \<Rightarrow> (Some CertDirNotCreated, f1)
      | (True, f1) \<Rightarrow>
          (case loadCA_files sg f1 (ic_CAFile cfg) (ic_CAKeyFile cfg) of
             Inl e \<Rightarrow> (Some e, f1)
           | Inr (caCert, caKey) \<Rightarrow>
               (case key of
                  None \<Rightarrow> (Some PrivateKeyNotGenerated, f1)
                | Some privateKey \<Rightarrow>
                    (case sg_create_cert sg (createCertTemplate cfg serial) caCert caKey privateKey of
                       None \<Rightarrow> (Some CertNotSigned, f1)
                     | Some certDER \<Rightarrow>
                         (case writeCertFiles sg o' (cert_file_of cfg) (key_file_of cfg) certDER privateKey f1 of
                            (Some e, f2) \<Rightarrow> (Some e, f2)
                          | (None, f2) \<Rightarrow> copyCACert o' (ic_CAFile cfg) (ic_CertDir cfg) f2))))))"

section \<open>Lemmas\<close>

lemma put_node_simps [simp]:
  "node (put_node p n f) q = (if q = p then n else node f q)" "sticky (put_node p n f) = sticky f"
  by (simp_all add: put_node_def)

lemma cert_paths [simp]: "cert_file_of cfg \<noteq> key_file_of cfg" "key_file_of cfg \<noteq> cert_file_of cfg"
  by (auto simp: cert_file_of_def key_file_of_def dest: arg_cong [of _ _ rev])

lemma create_file_ok: "create_file o' p f = (True, f') \<Longrightarrow> f' = put_node p (RegFile []) f"
  by (auto simp: create_file_def split: if_splits)

lemma write_bytes_ok: "write_bytes o' p c f = (True, f') \<Longrightarrow> f' = put_node p (RegFile c) f"
  by (auto simp: write_bytes_def split: if_splits)

lemma write_file_ok: "write_file o' p c f = (True, f') \<Longrightarrow> node f' = (node f)(p := RegFile c)"
  by (auto simp: write_file_def fun_eq_iff split: prod.splits bool.splits dest!: create_file_ok write_bytes_ok)

lemma write_file_other: "write_file o' p c f = (r, f') \<Longrightarrow> q \<noteq> p \<Longrightarrow> node f' q = node f q"
  by (auto simp: write_file_def create_file_def write_bytes_def split: prod.splits bool.splits if_splits)

lemma mkdir_all_ok: "mkdir_all o' p f = (True, f') \<Longrightarrow> node f' p = Directory \<and> (\<forall>q. q \<noteq> p \<longrightarrow> node f' q = node f q)"
  by (auto simp: mkdir_all_def split: if_splits)

lemma writeCertFiles_ok:
  assumes "writeCertFiles sg o' c k der key f = (None, f')" and "c \<noteq> k"
  obtains b where "sg_marshal_ec sg key = Some b"
    and "node f' = (node f)(c := RegFile (sg_pem_encode sg ''CERTIFICATE'' der),
           k := RegFile (sg_pem_encode sg ''EC PRIVATE KEY'' b))"
  using assms
  by (auto simp: writeCertFiles_def fun_eq_iff split: prod.splits bool.splits option.splits
      dest!: create_file_ok write_bytes_ok)

text \<open>A failure after the key file was created leaves it empty.\<close>

lemma writeCertFiles_partial:
  assumes "writeCertFiles sg o' c k der key f = (Some e, f')" and "c \<noteq> k"
    and "e = KeyNotWritten \<or> e = PrivateKeyNotMarshalled"
  shows "node f' k = RegFile []" and "node f' c = RegFile (sg_pem_encode sg ''CERTIFICATE'' der)"
  using assms
  by (auto simp: writeCertFiles_def write_bytes_def split: prod.splits bool.splits option.splits if_splits
      dest!: create_file_ok)

lemma copyCACert_ok:
  assumes "copyCACert o' ca dir f = (None, f')"
  shows "fileExists f' [dir, ''ca.pem'']" and "q \<noteq> [dir, ''ca.pem''] \<Longrightarrow> node f' q = node f q"
    and "\<not> fileExists f [dir, ''ca.pem''] \<Longrightarrow> node f' [dir, ''ca.pem''] = node f [ca]"
  using assms
  by (auto simp: copyCACert_def copyFile_def Let_def fileExists_def read_file_def split: prod.splits bool.splits
      option.splits fnode.splits if_splits dest!: write_file_ok)

lemma copyCACert_kept: "copyCACert o' ca dir f = (None, f') \<Longrightarrow> fileExists f q \<Longrightarrow> node f' q = node f q"
  by (cases "q = [dir, ''ca.pem'']") (auto simp: copyCACert_def Let_def copyCACert_ok(2) split: if_splits)

lemma read_file_mkdir:
  "mkdir_all o' p f = (True, f1) \<Longrightarrow> read_file f1 q = Some c \<Longrightarrow> read_file f q = Some c"
  using mkdir_all_ok [of o' p f f1] by (cases "q = p") (auto simp: read_file_def)

lemma loadCA_files_mkdir:
  assumes "mkdir_all o' p f = (True, f1)" and "loadCA_files sg f1 a b = Inr x"
  shows "loadCA_files sg f a b = Inr x"
proof -
  obtain c k where c: "loadCACertificate sg f1 a = Inr c" and k: "loadCAPrivateKey sg f1 b = Inr k" and x: "x = (c, k)"
    using assms(2) by (auto simp: loadCA_files_def split: sum.splits)
  obtain cp where "read_file f1 [a] = Some cp" using c by (auto simp: loadCACertificate_def split: option.splits)
  then have "loadCACertificate sg f a = Inr c"
    using c read_file_mkdir [OF assms(1)] by (simp add: loadCACertificate_def)
  moreover obtain kp where "read_file f1 [b] = Some kp" using k by (auto simp: loadCAPrivateKey_def split: option.splits)
  then have "loadCAPrivateKey sg f b = Inr k"
    using k read_file_mkdir [OF assms(1)] by (simp add: loadCAPrivateKey_def)
  ultimately show ?thesis by (simp add: loadCA_files_def x)
qed

text \<open>The run of a generation that gets as far as writing.\<close>

lemma GenerateCertificate_writes:
  assumes "GenerateCertificate sg o' key serial cfg f = (r, f')"
    and "\<not> (fileExists f (cert_file_of cfg) \<and> fileExists f (key_file_of cfg))"
    and "r \<in> {None, Some KeyNotWritten, Some PrivateKeyNotMarshalled}"
  obtains f1 caCert caKey k der where "mkdir_all o' [ic_CertDir cfg] f = (True, f1)"
    and "loadCA_files sg f1 (ic_CAFile cfg) (ic_CAKeyFile cfg) = Inr (caCert, caKey)" and "key = Some k"
    and "sg_create_cert sg (createCertTemplate cfg serial) caCert caKey k = Some der"
    and "(case writeCertFiles sg o' (cert_file_of cfg) (key_file_of cfg) der k f1 of
            (Some e, f2) \<Rightarrow> (Some e, f2)
          | (None, f2) \<Rightarrow> copyCACert o' (ic_CAFile cfg) (ic_CertDir cfg) f2) = (r, f')"
proof -
  have load: "loadCA_files sg f1 a b = Inl e \<Longrightarrow> Some e \<noteq> Some KeyNotWritten \<and> Some e \<noteq> Some PrivateKeyNotMarshalled"
    for f1 a b e
    by (auto simp: loadCA_files_def loadCACertificate_def loadCAPrivateKey_def Let_def split: option.splits if_splits sum.splits)
  obtain ok f1 where mk: "mkdir_all o' [ic_CertDir cfg] f = (ok, f1)" by (cases "mkdir_all o' [ic_CertDir cfg] f")
  note run = assms(1) [unfolded GenerateCertificate_def if_not_P [OF assms(2)] mk prod.case]
  have "ok" using run assms(3) by (cases ok) auto
  obtain caCert caKey where ca: "loadCA_files sg f1 (ic_CAFile cfg) (ic_CAKeyFile cfg) = Inr (caCert, caKey)"
    using run assms(3) load \<open>ok\<close> by (cases "loadCA_files sg f1 (ic_CAFile cfg) (ic_CAKeyFile cfg)") auto
  obtain k where k: "key = Some k" using run assms(3) \<open>ok\<close> ca by (cases key) auto
  obtain der where der: "sg_create_cert sg (createCertTemplate cfg serial) caCert caKey k = Some der"
    using run assms(3) \<open>ok\<close> ca k by (cases "sg_create_cert sg (createCertTemplate cfg serial) caCert caKey k") auto
  show thesis using that [OF _ ca k der] run mk \<open>ok\<close> ca k der by simp
qed

section \<open>Properties\<close>

text \<open>
  C27: A certificate generation that succeeds where the pair was not complete leaves in the
  certificate directory the PEM text of a certificate signed, for exactly the pod's names and
  addresses, with the key of the CA files, the PEM text of its private key, and a \<open>ca.pem\<close>.
\<close>

theorem generated_pair_installed:
  assumes run: "GenerateCertificate sg o' key serial cfg f = (None, f')"
    and new: "\<not> (fileExists f (cert_file_of cfg) \<and> fileExists f (key_file_of cfg))"
  shows "\<exists>caCert caKey k der b.
    loadCA_files sg f (ic_CAFile cfg) (ic_CAKeyFile cfg) = Inr (caCert, caKey) \<and> key = Some k \<and>
    sg_create_cert sg (createCertTemplate cfg serial) caCert caKey k = Some der \<and> sg_marshal_ec sg k = Some b \<and>
    node f' (cert_file_of cfg) = RegFile (sg_pem_encode sg ''CERTIFICATE'' der) \<and>
    node f' (key_file_of cfg) = RegFile (sg_pem_encode sg ''EC PRIVATE KEY'' b) \<and>
    fileExists f' [ic_CertDir cfg, ''ca.pem'']"
proof -
  obtain f1 caCert caKey k der where mk: "mkdir_all o' [ic_CertDir cfg] f = (True, f1)"
    and ca: "loadCA_files sg f1 (ic_CAFile cfg) (ic_CAKeyFile cfg) = Inr (caCert, caKey)" and k: "key = Some k"
    and der: "sg_create_cert sg (createCertTemplate cfg serial) caCert caKey k = Some der"
    and wr: "(case writeCertFiles sg o' (cert_file_of cfg) (key_file_of cfg) der k f1 of
            (Some e, f2) \<Rightarrow> (Some e, f2)
          | (None, f2) \<Rightarrow> copyCACert o' (ic_CAFile cfg) (ic_CertDir cfg) f2) = (None, f')"
    by (rule GenerateCertificate_writes [OF run new]) simp_all
  obtain f2 where w: "writeCertFiles sg o' (cert_file_of cfg) (key_file_of cfg) der k f1 = (None, f2)"
    and cp: "copyCACert o' (ic_CAFile cfg) (ic_CertDir cfg) f2 = (None, f')"
    using wr by (auto split: prod.splits option.splits)
  obtain b where b: "sg_marshal_ec sg k = Some b"
    and n2: "node f2 = (node f1)(cert_file_of cfg := RegFile (sg_pem_encode sg ''CERTIFICATE'' der),
           key_file_of cfg := RegFile (sg_pem_encode sg ''EC PRIVATE KEY'' b))"
    by (rule writeCertFiles_ok [OF w]) simp_all
  have "fileExists f2 (cert_file_of cfg)" "fileExists f2 (key_file_of cfg)" by (simp_all add: fileExists_def n2)
  note kept = this [THEN copyCACert_kept [OF cp]]
  show ?thesis
    using loadCA_files_mkdir [OF mk ca] k der b kept copyCACert_ok(1) [OF cp]
    by (intro exI [of _ caCert] exI [of _ caKey] exI [of _ k] exI [of _ der] exI [of _ b]) (simp add: n2)
qed

definition toy_signer :: "(nat, nat) signer" where
  "toy_signer = \<lparr>sg_pem_decode = (\<lambda>s. if CHR ''|'' \<in> set s
        then Some (takeWhile (\<lambda>c. c \<noteq> CHR ''|'') s, tl (dropWhile (\<lambda>c. c \<noteq> CHR ''|'') s)) else None),
     sg_pem_encode = (\<lambda>t b. t @ ''|'' @ b), sg_parse_cert = (\<lambda>d. True), sg_parse_pkcs1 = (\<lambda>b. None),
     sg_parse_ec = (\<lambda>b. Some (length b)), sg_parse_pkcs8 = (\<lambda>b. None),
     sg_create_cert = (\<lambda>t c s k. Some (c @ ''/'' @ ct_CommonName t)), sg_marshal_ec = (\<lambda>k. Some (replicate k CHR ''k''))\<rparr>"

definition toy_cert_cfg :: InitCertConfig where
  "toy_cert_cfg = \<lparr>ic_PodName = ''etcd-0'', ic_Namespace = ''ns'', ic_ServiceName = ''etcd'', ic_CliName = ''cli'',
     ic_IPs = [''10.0.0.1''], ic_CertDir = ''/ssl'', ic_CAFile = ''/ca'', ic_CAKeyFile = ''/key''\<rparr>"

definition toy_disk :: fsys where
  "toy_disk = \<lparr>node = (\<lambda>p. if p = [''/ca''] then RegFile ''CERTIFICATE|ca'' else
     if p = [''/key''] then RegFile ''EC PRIVATE KEY|kkk'' else Absent), sticky = (\<lambda>p. False)\<rparr>"

definition no_faults :: os_faults where
  "no_faults = \<lparr>mkdir_fails = (\<lambda>p. False), create_fails = (\<lambda>p. False), write_fails = (\<lambda>p. False)\<rparr>"

lemmas toy_cert_defs = toy_signer_def toy_cert_cfg_def toy_disk_def no_faults_def GenerateCertificate_def
  fileExists_def cert_file_of_def key_file_of_def mkdir_all_def loadCA_files_def loadCACertificate_def
  loadCAPrivateKey_def read_file_def Let_def writeCertFiles_def create_file_def write_bytes_def copyCACert_def
  copyFile_def write_file_def createCertTemplate_def

theorem generated_pair_installed_witness:
  "\<exists>f'. GenerateCertificate toy_signer no_faults (Some 2) (Some 1) toy_cert_cfg toy_disk = (None, f') \<and>
     fileExists f' [''/ssl'', ''ca.pem'']"
proof -
  obtain f' where run: "GenerateCertificate toy_signer no_faults (Some 2) (Some 1) toy_cert_cfg toy_disk = (None, f')"
    by (simp add: toy_cert_defs)
  have "\<not> (fileExists toy_disk (cert_file_of toy_cert_cfg) \<and> fileExists toy_disk (key_file_of toy_cert_cfg))"
    by (simp add: toy_cert_defs)
  from generated_pair_installed [OF run this] run show ?thesis by (auto simp: toy_cert_cfg_def)
qed

text \<open>
  C39: An interrupted generation is taken for a finished one: when the private key could not be
  written, the error is reported once, but its empty file stays, and every later generation
  finds the pair complete, reports success and leaves the empty key.
\<close>

theorem interrupted_generation_accepted:
  assumes run: "GenerateCertificate sg o1 k1 s1 cfg f = (Some e, f1)"
    and "e = KeyNotWritten \<or> e = PrivateKeyNotMarshalled"
  shows "node f1 (key_file_of cfg) = RegFile [] \<and> GenerateCertificate sg o2 k2 s2 cfg f1 = (None, f1)"
proof -
  have new: "\<not> (fileExists f (cert_file_of cfg) \<and> fileExists f (key_file_of cfg))"
    using run by (auto simp: GenerateCertificate_def split: if_splits)
  obtain f0 k der where wr: "(case writeCertFiles sg o1 (cert_file_of cfg) (key_file_of cfg) der k f0 of
            (Some e, f2) \<Rightarrow> (Some e, f2)
          | (None, f2) \<Rightarrow> copyCACert o1 (ic_CAFile cfg) (ic_CertDir cfg) f2) = (Some e, f1)"
    by (rule GenerateCertificate_writes [OF run new]) (use assms(2) in auto)
  have "copyCACert o1 (ic_CAFile cfg) (ic_CertDir cfg) f2 \<noteq> (Some e, f1)" for f2
    using assms(2) by (auto simp: copyCACert_def Let_def split: prod.splits bool.splits)
  then have w: "writeCertFiles sg o1 (cert_file_of cfg) (key_file_of cfg) der k f0 = (Some e, f1)"
    using wr by (auto split: prod.splits option.splits)
  have key: "node f1 (key_file_of cfg) = RegFile []"
    by (rule writeCertFiles_partial(1) [OF w]) (use assms(2) in simp_all)
  moreover have "node f1 (cert_file_of cfg) = RegFile (sg_pem_encode sg ''CERTIFICATE'' der)"
    by (rule writeCertFiles_partial(2) [OF w]) (use assms(2) in simp_all)
  ultimately show ?thesis by (simp add: GenerateCertificate_def fileExists_def)
qed

theorem interrupted_generation_accepted_witness:
  "\<exists>f1. GenerateCertificate toy_signer (no_faults\<lparr>write_fails := (\<lambda>p. p = key_file_of toy_cert_cfg)\<rparr>)
      (Some 2) (Some 1) toy_cert_cfg toy_disk = (Some KeyNotWritten, f1) \<and>
    GenerateCertificate toy_signer no_faults (Some 5) (Some 2) toy_cert_cfg f1 = (None, f1)"
proof -
  obtain f1 where run: "GenerateCertificate toy_signer (no_faults\<lparr>write_fails := (\<lambda>p. p = key_file_of toy_cert_cfg)\<rparr>)
      (Some 2) (Some 1) toy_cert_cfg toy_disk = (Some KeyNotWritten, f1)"
    by (simp add: toy_cert_defs)
  from interrupted_generation_accepted [OF run] run show ?thesis by auto
qed

end
