(* ===== verification/Init_Env.thy ===== *)
theory Init_Env
  imports Init_Cert
begin

text \<open>
  \<open>pkg/init/env.go\<close>: the process environment handed to etcd, the file with the same settings
  for \<open>etcdctl\<close>, the directories and the two probe scripts; and \<open>filepath.Join\<close> with its lexical
  cleaning, which fixes the text of the certificate paths.
\<close>

section \<open>filepath.Join\<close>

text \<open>The elements of a cleaned path, last first: empty ones and dots dropped, \<open>..\<close> resolved.\<close>

fun clean_loop :: "bool \<Rightarrow> string list \<Rightarrow> string list \<Rightarrow> string list" where
  "clean_loop rooted out [] = out"
| "clean_loop rooted out (x # xs) =
     (if x = [] \<or> x = ''.'' then clean_loop rooted out xs
      else if x = ''..'' then
        (case out of
           [] \<Rightarrow> clean_loop rooted (if rooted then [] else [''..'']) xs
         | y # ys \<Rightarrow> clean_loop rooted (if y = ''..'' then ''..'' # y # ys else ys) xs)
      else clean_loop rooted (x # out) xs)"

definition is_rooted :: "string \<Rightarrow> bool" where
  "is_rooted p \<longleftrightarrow> p \<noteq> [] \<and> hd p = CHR ''/''"

definition clean_elems :: "string \<Rightarrow> string list" where
  "clean_elems p = rev (clean_loop (is_rooted p) [] (split_on CHR ''/'' p))"

definition path_clean :: "string \<Rightarrow> string" where
  "path_clean p =
     (let body = join ''/'' (clean_elems p) in
      if is_rooted p then ''/'' @ body else if body = [] then ''.'' else body)"

definition path_join :: "string \<Rightarrow> string \<Rightarrow> string" where
  "path_join a b =
     (if a = [] then (if b = [] then [] else path_clean b)
      else if b = [] then path_clean a else path_clean (a @ ''/'' @ b))"

section \<open>The environment\<close>

record EnvConfig =
  ev_PodName :: string
  ev_PodNamespace :: string
  ev_PodIPs :: "string list"
  ev_ServiceName :: string
  ev_CliName :: string
  ev_Max :: int
  ev_ClientPort :: string
  ev_ClientHTTPPort :: string
  ev_PeerPort :: string
  ev_ClientURLs :: "string list"
  ev_ClientHTTPURLs :: "string list"
  ev_PeerURLs :: "string list"
  ev_DataDir :: string
  ev_CertDir :: string
  ev_NodeIPDir :: string
  ev_Labels :: string

text \<open>\<open>fmt.Sprintf("%d", n)\<close> for any \<open>int\<close>.\<close>

definition dec_int :: "int \<Rightarrow> string" where
  "dec_int n = (if n < 0 then ''-'' @ dec (nat (- n)) else dec (nat n))"

definition pod_cert :: "EnvConfig \<Rightarrow> string" where
  "pod_cert cfg = path_join (ev_CertDir cfg) (ev_PodName cfg @ ''.pem'')"

definition pod_key :: "EnvConfig \<Rightarrow> string" where
  "pod_key cfg = path_join (ev_CertDir cfg) (ev_PodName cfg @ ''-key.pem'')"

definition ca_pem :: "EnvConfig \<Rightarrow> string" where
  "ca_pem cfg = path_join (ev_CertDir cfg) ''ca.pem''"

definition env_vars :: "EnvConfig \<Rightarrow> (string \<times> string) list" where
  "env_vars cfg =
     [(''POD_NAME'', ev_PodName cfg), (''POD_NAMESPACE'', ev_PodNamespace cfg),
      (''POD_IPS'', join '','' (ev_PodIPs cfg)),
      (''SERVICE_NAME'', ev_ServiceName cfg), (''MAX'', dec_int (ev_Max cfg)), (''LABELS'', ev_Labels cfg),
      (''CLIENT_PORT'', ev_ClientPort cfg), (''CLIENT_HTTP_PORT'', ev_ClientHTTPPort cfg),
      (''PEER_PORT'', ev_PeerPort cfg),
      (''NODEIP_DIR'', ev_NodeIPDir cfg),
      (''ETCD_DATA_DIR'', ev_DataDir cfg), (''ETCD_NAME'', ev_PodName cfg),
      (''ETCD_LOGGER'', ''zap''), (''ETCD_METRICS'', ''basic''),
      (''ETCD_ELECTION_TIMEOUT'', ''2000''), (''ETCD_HEARTBEAT_INTERVAL'', ''200''),
      (''ETCD_MAX_SNAPSHOTS'', ''5''), (''ETCD_MAX_WALS'', ''10''),
      (''ETCD_ADVERTISE_CLIENT_URLS'', join '','' (ev_ClientURLs cfg)),
      (''ETCD_INITIAL_ADVERTISE_PEER_URLS'', join '','' (ev_PeerURLs cfg)),
      (''ETCD_LISTEN_CLIENT_URLS'', ''https://0.0.0.0:'' @ ev_ClientPort cfg),
      (''ETCD_LISTEN_PEER_URLS'', ''https://0.0.0.0:'' @ ev_PeerPort cfg),
      (''ETCD_AUTO_COMPACTION_MODE'', ''periodic''), (''ETCD_AUTO_COMPACTION_RETENTION'', ''5m''),
      (''ETCD_BACKEND_BBOLT_FREELIST_TYPE'', ''map''), (''ETCD_QUOTA_BACKEND_BYTES'', ''8589934592''),
      (''ETCD_INITIAL_CLUSTER_TOKEN'', ''etcd_tmpfs''),
      (''ETCD_EXPERIMENTAL_INITIAL_CORRUPT_CHECK'', ''true''),
      (''ETCD_EXPERIMENTAL_ENABLE_LEASE_CHECKPOINT'', ''true''),
      (''ETCD_EXPERIMENTAL_ENABLE_LEASE_CHECKPOINT_PERSIST'', ''true''),
      (''ETCD_TRUSTED_CA_FILE'', ca_pem cfg), (''ETCD_CERT_FILE'', pod_cert cfg), (''ETCD_KEY_FILE'', pod_key cfg),
      (''ETCD_CLIENT_CERT_AUTH'', ''true''),
      (''ETCD_PEER_TRUSTED_CA_FILE'', ca_pem cfg), (''ETCD_PEER_CERT_FILE'', pod_cert cfg),
      (''ETCD_PEER_KEY_FILE'', pod_key cfg), (''ETCD_PEER_CLIENT_CERT_AUTH'', ''true''),
      (''ETCDCTL_CACERT'', ca_pem cfg), (''ETCDCTL_CERT'', pod_cert cfg), (''ETCDCTL_KEY'', pod_key cfg),
      (''ETCDCTL_ENDPOINTS'', ''https://127.0.0.1:'' @ ev_ClientPort cfg), (''TIMEOUT'', ''5'')]"

text \<open>\<open>os.Setenv\<close> refuses an empty key, a key with an equals sign, and any zero byte.\<close>

definition os_setenv :: "string \<Rightarrow> string \<Rightarrow> (string \<rightharpoonup> string) \<Rightarrow> (string \<rightharpoonup> string) option" where
  "os_setenv k v m =
     (if k = [] \<or> CHR ''='' \<in> set k \<or> CHR 0x00 \<in> set k \<or> CHR 0x00 \<in> set v then None else Some (m(k \<mapsto> v)))"

text \<open>The loop over the table, in the order of the list; the key that could not be set, if any.\<close>

fun set_all :: "(string \<times> string) list \<Rightarrow> (string \<rightharpoonup> string) \<Rightarrow> string option \<times> (string \<rightharpoonup> string)" where
  "set_all [] m = (None, m)"
| "set_all ((k, v) # kvs) m = (case os_setenv k v m of None \<Rightarrow> (Some k, m) | Some m' \<Rightarrow> set_all kvs m')"

definition SetupEnvironment ::
    "((string \<times> string) list \<Rightarrow> (string \<times> string) list) \<Rightarrow> EnvConfig \<Rightarrow> (string \<rightharpoonup> string) \<Rightarrow> string option \<times> (string \<rightharpoonup> string)" where
  "SetupEnvironment order cfg m = set_all (order (env_vars cfg)) m"

section \<open>Files\<close>

definition nl :: string where "nl = [CHR 0x0A]"

definition etcdctl_env_text :: "EnvConfig \<Rightarrow> string" where
  "etcdctl_env_text cfg =
     ''#!/bin/bash'' @ nl @
     ''# etcdctl environment configuration'' @ nl @
     ''# Usage: source /run/etcd/env && etcdctl member list'' @ nl @ nl @
     ''export ETCDCTL_API=3'' @ nl @
     ''export ETCDCTL_CACERT='' @ ev_CertDir cfg @ ''/ca.pem'' @ nl @
     ''export ETCDCTL_CERT='' @ ev_CertDir cfg @ ''/'' @ ev_PodName cfg @ ''.pem'' @ nl @
     ''export ETCDCTL_KEY='' @ ev_CertDir cfg @ ''/'' @ ev_PodName cfg @ ''-key.pem'' @ nl @
     ''export ETCDCTL_ENDPOINTS=https://127.0.0.1:'' @ ev_ClientPort cfg @ nl @
     (if 0 < length (ev_ClientURLs cfg)
      then nl @ ''# All cluster endpoints: '' @ join '','' (ev_ClientURLs cfg) @ nl else [])"

definition WriteEtcdctlEnvFile :: "os_faults \<Rightarrow> EnvConfig \<Rightarrow> string \<Rightarrow> fsys \<Rightarrow> bool \<times> fsys" where
  "WriteEtcdctlEnvFile o' cfg filePath f = write_file o' [filePath] (etcdctl_env_text cfg) f"

fun create_dirs :: "os_faults \<Rightarrow> string list \<Rightarrow> fsys \<Rightarrow> bool \<times> fsys" where
  "create_dirs o' [] f = (True, f)"
| "create_dirs o' (d # ds) f =
     (case mkdir_all o' [d] f of (False, f1) \<Rightarrow> (False, f1) | (True, f1) \<Rightarrow> create_dirs o' ds f1)"

definition CreateDirectories :: "os_faults \<Rightarrow> string \<Rightarrow> string \<Rightarrow> fsys \<Rightarrow> bool \<times> fsys" where
  "CreateDirectories o' dataDir certDir f = create_dirs o' [dataDir, certDir] f"

definition readyz_script :: "string \<Rightarrow> string" where
  "readyz_script envpath =
     ''#!/bin/bash'' @ nl @ ''# Readiness probe script for etcd'' @ nl @ nl @
     ''source '' @ envpath @ nl @ nl @
     ''timeout 2 etcdctl --insecure-skip-tls-verify endpoint health'' @ nl"

definition WriteReadyzScript :: "os_faults \<Rightarrow> string \<Rightarrow> string \<Rightarrow> fsys \<Rightarrow> bool \<times> fsys" where
  "WriteReadyzScript o' envpath scriptPath f = write_file o' [scriptPath] (readyz_script envpath) f"

definition livez_script :: "string \<Rightarrow> string \<Rightarrow> string \<Rightarrow> string" where
  "livez_script podName certDir clientPort =
     ''#!/bin/bash'' @ nl @ ''# Liveness probe script for etcd'' @ nl @
     ''# Checks if etcd process is alive'' @ nl @ nl @
     ''TIMEOUT=${TIMEOUT:-5}'' @ nl @
     ''ETCDCTL_CERT='' @ certDir @ ''/'' @ podName @ ''.pem'' @ nl @
     ''ETCDCTL_KEY='' @ certDir @ ''/'' @ podName @ ''-key.pem'' @ nl @
     ''CLIENT_PORT='' @ clientPort @ nl @ nl @
     ''timeout ${TIMEOUT} curl -k --cert ${ETCDCTL_CERT} --key ${ETCDCTL_KEY} -sf https://127.0.0.1:${CLIENT_PORT}/livez'' @ nl"

definition WriteLivezScript :: "os_faults \<Rightarrow> string \<Rightarrow> string \<Rightarrow> string \<Rightarrow> string \<Rightarrow> fsys \<Rightarrow> bool \<times> fsys" where
  "WriteLivezScript o' podName certDir clientPort scriptPath f =
     write_file o' [scriptPath] (livez_script podName certDir clientPort) f"

section \<open>Lemmas\<close>

lemma split_on_snoc_field: "c \<notin> set b \<Longrightarrow> split_on c (a @ c # b) = split_on c a @ [b]"
proof (induction a)
  case (Cons x a)
  then show ?case by (cases "split_on c a") (auto simp: split_on_no_sep)
qed (simp add: split_on_no_sep)

lemma clean_loop_snoc:
  "x \<noteq> [] \<Longrightarrow> x \<noteq> ''.'' \<Longrightarrow> x \<noteq> ''..'' \<Longrightarrow> clean_loop r out (xs @ [x]) = x # clean_loop r out xs"
  by (induction r out xs rule: clean_loop.induct) (auto split: list.split)

lemma join_snoc: "xs \<noteq> [] \<Longrightarrow> join sep (xs @ [x]) = join sep xs @ sep @ x"
  by (induction sep xs rule: join.induct) auto

lemma clean_loop_nonempty: "[] \<notin> set out \<Longrightarrow> [] \<notin> set (clean_loop r out xs)"
proof (induction r out xs rule: clean_loop.induct)
  case (2 r out x xs)
  then show ?case by (cases out) auto
qed simp

lemma join_nonempty: "xs \<noteq> [] \<Longrightarrow> \<forall>x \<in> set xs. x \<noteq> [] \<Longrightarrow> join sep xs \<noteq> []"
  by (induction sep xs rule: join.induct) auto

text \<open>Joining a plain file name to a directory that is neither the root nor the empty path.\<close>

lemma path_join_file:
  assumes "clean_elems dir \<noteq> []" and "CHR ''/'' \<notin> set b" and "b \<noteq> []" "b \<noteq> ''.''" "b \<noteq> ''..''"
  shows "path_join dir b = path_clean dir @ ''/'' @ b"
proof -
  have dir: "dir \<noteq> []" using assms(1) by (auto simp: clean_elems_def is_rooted_def)
  then have r: "is_rooted (dir @ ''/'' @ b) = is_rooted dir" by (simp add: is_rooted_def)
  have "split_on CHR ''/'' (dir @ ''/'' @ b) = split_on CHR ''/'' dir @ [b]"
    using split_on_snoc_field [OF assms(2)] by simp
  then have e: "clean_elems (dir @ ''/'' @ b) = clean_elems dir @ [b]"
    using assms(3-5) r by (simp add: clean_elems_def clean_loop_snoc)
  have "join ''/'' (clean_elems dir) \<noteq> []"
    using clean_loop_nonempty [of "[]"] by (intro join_nonempty [OF assms(1)]) (auto simp: clean_elems_def)
  then show ?thesis
    using dir assms(1,3) by (simp add: path_join_def path_clean_def Let_def r [simplified] e [simplified] join_snoc)
qed

lemma set_all_ok:
  "set_all kvs m = (None, m') \<Longrightarrow> distinct (map fst kvs) \<Longrightarrow>
     m' = (\<lambda>k. case map_of kvs k of None \<Rightarrow> m k | Some v \<Rightarrow> Some v)"
proof (induction kvs arbitrary: m)
  case (Cons kv kvs)
  obtain k v where kv: "kv = (k, v)" by (cases kv)
  then have run: "set_all kvs (m(k \<mapsto> v)) = (None, m')"
    using Cons.prems(1) by (auto simp: os_setenv_def split: option.splits if_splits)
  have "map_of kvs k = None" using Cons.prems(2) kv by (simp add: map_of_eq_None_iff)
  then show ?case using Cons.IH [OF run] Cons.prems(2) kv by (auto simp: fun_eq_iff split: option.split)
qed simp

end
