(* ===== verification/Cluster_Main.thy ===== *)
theory Cluster_Main
  imports Cluster_Loop Init_Env
begin

text \<open>
  \<open>cmd/etcdcluster/main.go\<close>, the start of the program: \<open>initializeEnvironment\<close> over the state of
  \<open>Membership\<close> (environment and files), and \<open>main\<close> up to the management loop. What the start
  takes from outside (keys, random numbers, disk faults, interfaces, the order in which a Go map
  is walked) is the record \<open>start_params\<close>.
\<close>

record ('k, 's) start_params =
  sp_build :: build_info
  sp_signer :: "('k, 's) signer"
  sp_faults :: os_faults
  sp_key :: "'k option"
  sp_serial :: "nat option"
  sp_host :: host_net
  sp_order :: "(string \<times> string) list \<Rightarrow> (string \<times> string) list"

datatype init_error =
  NoIPsForInit
| DirectoriesFailed
| CertificateFailed init_cert_error
| InitNetworkFailed net_error
| EnvNotSet string
| EnvFileFailed
| ReadyzFailed
| LivezFailed

definition init_cert_config :: "etcd_config \<Rightarrow> InitCertConfig" where
  "init_cert_config cfg =
     \<lparr>ic_PodName = ec_PodName cfg, ic_Namespace = ec_PodNamespace cfg, ic_ServiceName = ec_ServiceName cfg,
      ic_CliName = ec_CliName cfg, ic_IPs = ec_MyIPs cfg, ic_CertDir = ec_CertDir cfg,
      ic_CAFile = ec_CAFile cfg, ic_CAKeyFile = ec_CAKeyFile cfg\<rparr>"

definition init_env_config :: "etcd_config \<Rightarrow> NetworkInfo \<Rightarrow> EnvConfig" where
  "init_env_config cfg info =
     \<lparr>ev_PodName = ec_PodName cfg, ev_PodNamespace = ec_PodNamespace cfg, ev_PodIPs = ec_MyIPs cfg,
      ev_ServiceName = ec_ServiceName cfg, ev_CliName = ec_CliName cfg, ev_Max = ec_Max cfg,
      ev_ClientPort = ec_ClientPort cfg, ev_ClientHTTPPort = ec_ClientHTTPPort cfg, ev_PeerPort = ec_PeerPort cfg,
      ev_ClientURLs = ni_ClientURLs info, ev_ClientHTTPURLs = ni_ClientHTTPURLs info, ev_PeerURLs = ni_PeerURLs info,
      ev_DataDir = ec_DataDir cfg, ev_CertDir = ec_CertDir cfg, ev_NodeIPDir = ec_NodeIPDir cfg,
      ev_Labels = ec_Labels cfg\<rparr>"

text \<open>The environment file and the two probe scripts, written one after the other.\<close>

definition write_probe_files ::
    "os_faults \<Rightarrow> etcd_config \<Rightarrow> EnvConfig \<Rightarrow> (string \<Rightarrow> string) \<Rightarrow> fsys \<Rightarrow> init_error option \<times> fsys" where
  "write_probe_files o' cfg envCfg genv f =
     (case WriteEtcdctlEnvFile o' envCfg (getEnvOrDefault genv ''ETCDCTL_ENV_FILE'' ''/run/etcd/env'') f of
        (False, f1) \<Rightarrow> (Some EnvFileFailed, f1)
      | (True, f1) \<Rightarrow>
          (case WriteReadyzScript o' ''/run/etcd/env'' (getEnvOrDefault genv ''READYZ_SCRIPT'' ''/run/etcd/readyz.sh'') f1 of
             (False, f2) \<Rightarrow> (Some ReadyzFailed, f2)
           | (True, f2) \<Rightarrow>
               (case WriteLivezScript o' (ec_PodName cfg) (ec_CertDir cfg) (ec_ClientHTTPPort cfg)
                    (getEnvOrDefault genv ''LIVEZ_SCRIPT'' ''/run/etcd/livez.sh'') f2 of
                  (False, f3) \<Rightarrow> (Some LivezFailed, f3)
                | (True, f3) \<Rightarrow> (None, f3))))"

definition initializeEnvironment ::
    "('k, 's) start_params \<Rightarrow> etcd_config \<Rightarrow> 'e world \<Rightarrow> init_error option \<times> 'e world" where
  "initializeEnvironment sp cfg w =
     (if length (ec_MyIPs cfg) = 0 then (Some NoIPsForInit, w)
      else (case CreateDirectories (sp_faults sp) (ec_DataDir cfg) (ec_CertDir cfg) (fs w) of
        (False, f1) \<Rightarrow> (Some DirectoriesFailed, w\<lparr>fs := f1\<rparr>)
      | (True, f1) \<Rightarrow>
          (case GenerateCertificate (sp_signer sp) (sp_faults sp) (sp_key sp) (sp_serial sp) (init_cert_config cfg) f1 of
             (Some e, f2) \<Rightarrow> (Some (CertificateFailed e), w\<lparr>fs := f2\<rparr>)
           | (None, f2) \<Rightarrow>
               (case ExtractNetworkInfo (sp_host sp) (network_config cfg) of
                  Inl e \<Rightarrow> (Some (InitNetworkFailed e), w\<lparr>fs := f2\<rparr>)
                | Inr info \<Rightarrow>
                    (case SetupEnvironment (sp_order sp) (init_env_config cfg info) (env w) of
                       (Some k, m) \<Rightarrow> (Some (EnvNotSet k), w\<lparr>fs := f2, env := m\<rparr>)
                     | (None, m) \<Rightarrow>
                         (case write_probe_files (sp_faults sp) cfg (init_env_config cfg info) (getenv m) f2 of
                            (r, f3) \<Rightarrow> (r, w\<lparr>fs := f3, env := m\<rparr>)))))))"

text \<open>How \<open>main\<close> ends: a panic, one of its three fatal exits, or in the management loop.\<close>

datatype main_result =
  MainPanics
| BadConfiguration cfg_error
| NoEtcdBinary
| InitFailed init_error
| Looping etcd_config string

definition cluster_printBuildInfo :: "build_info \<Rightarrow> (cfg_error, (string \<times> string \<times> string) option) gores" where
  "cluster_printBuildInfo info =
     (case info of
        None \<Rightarrow> GoOk None
      | Some settings \<Rightarrow>
          (let (vcsRevision, vcsTime, vcsModified) = build_loop settings ([], [], []) in
           if vcsRevision \<noteq> [] then
             (if length vcsRevision < 8 then GoPanic else GoOk (Some (take 8 vcsRevision, vcsTime, vcsModified)))
           else GoOk None))"

text \<open>\<open>lookpath\<close> is what \<open>exec.LookPath("etcd")\<close> finds on the search path in the environment.\<close>

definition cluster_main ::
    "('k, 's) start_params \<Rightarrow> (string \<Rightarrow> string option) \<Rightarrow> 'e world \<Rightarrow> main_result \<times> 'e world" where
  "cluster_main sp lookpath w =
     (case gores_bind (cluster_printBuildInfo (sp_build sp)) (\<lambda>line. loadConfig (getenv (env w)) (fs w) (sp_host sp)) of
        GoPanic \<Rightarrow> (MainPanics, w)
      | GoErr e \<Rightarrow> (BadConfiguration e, w)
      | GoOk cfg \<Rightarrow>
          (case lookpath (getenv (env w) ''PATH'') of
             None \<Rightarrow> (NoEtcdBinary, w)
           | Some bin \<Rightarrow>
               (case initializeEnvironment sp cfg w of
                  (Some e, w1) \<Rightarrow> (InitFailed e, w1)
                | (None, w1) \<Rightarrow> (Looping cfg bin, w1))))"

section \<open>Lemmas\<close>

text \<open>A revision shorter than eight bytes, as version control other than git has them, ends the start.\<close>

lemma cluster_short_revision_panics:
  assumes "sp_build sp = Some [(''vcs.revision'', r)]" and "0 < length r" and "length r < 8"
  shows "cluster_main sp lookpath w = (MainPanics, w)"
  using assms by (simp add: cluster_main_def cluster_printBuildInfo_def build_setting_def)

lemma env_vars_distinct: "distinct (map fst (env_vars cfg))"
  by (simp add: env_vars_def)

lemma SetupEnvironment_ok:
  assumes "SetupEnvironment order cfg m = (None, m')" and "\<And>xs. mset (order xs) = mset xs"
  shows "m' k = (case map_of (env_vars cfg) k of None \<Rightarrow> m k | Some v \<Rightarrow> Some v)"
proof -
  let ?o = "order (env_vars cfg)"
  have d: "distinct (map fst ?o)"
    using env_vars_distinct [of cfg] assms(2) [of "env_vars cfg"]
    by (metis mset_map mset_eq_imp_distinct_iff)
  have "map_of ?o = map_of (env_vars cfg)"
    using map_of_inject_set [OF d env_vars_distinct] mset_eq_setD [OF assms(2) [of "env_vars cfg"]] by simp
  then show ?thesis
    using set_all_ok [OF assms(1) [unfolded SetupEnvironment_def] d] by (simp add: fun_eq_iff)
qed

lemma write_probe_files_other:
  "write_probe_files o' cfg e genv f = (r, f') \<Longrightarrow> length q \<noteq> 1 \<Longrightarrow> node f' q = node f q"
  unfolding write_probe_files_def WriteEtcdctlEnvFile_def WriteReadyzScript_def WriteLivezScript_def
  by (auto split: prod.splits bool.splits dest!: write_file_other [where q = q])

lemma GenerateCertificate_pair:
  assumes "GenerateCertificate sg o' key serial cfg f = (None, f')"
  shows "fileExists f' (cert_file_of cfg) \<and> fileExists f' (key_file_of cfg)"
proof (cases "fileExists f (cert_file_of cfg) \<and> fileExists f (key_file_of cfg)")
  case True
  then show ?thesis using assms by (simp add: GenerateCertificate_def)
next
  case False
  obtain f1 caCert caKey k der where
    wr: "(case writeCertFiles sg o' (cert_file_of cfg) (key_file_of cfg) der k f1 of
            (Some e, f2) \<Rightarrow> (Some e, f2)
          | (None, f2) \<Rightarrow> copyCACert o' (ic_CAFile cfg) (ic_CertDir cfg) f2) = (None, f')"
    by (rule GenerateCertificate_writes [OF assms False]) simp_all
  then obtain f2 where w: "writeCertFiles sg o' (cert_file_of cfg) (key_file_of cfg) der k f1 = (None, f2)"
    and cp: "copyCACert o' (ic_CAFile cfg) (ic_CertDir cfg) f2 = (None, f')"
    by (auto split: prod.splits option.splits)
  obtain b where "node f2 = (node f1)(cert_file_of cfg := RegFile (sg_pem_encode sg ''CERTIFICATE'' der),
           key_file_of cfg := RegFile (sg_pem_encode sg ''EC PRIVATE KEY'' b))"
    by (rule writeCertFiles_ok [OF w]) simp_all
  then have "fileExists f2 (cert_file_of cfg)" "fileExists f2 (key_file_of cfg)" by (simp_all add: fileExists_def)
  then show ?thesis using copyCACert_kept [OF cp] by (auto simp: fileExists_def)
qed

lemma initializeEnvironment_ok:
  assumes "initializeEnvironment sp cfg w = (None, w')"
  obtains f1 f2 info m f3 where
    "GenerateCertificate (sp_signer sp) (sp_faults sp) (sp_key sp) (sp_serial sp) (init_cert_config cfg) f1 = (None, f2)"
    and "SetupEnvironment (sp_order sp) (init_env_config cfg info) (env w) = (None, m)"
    and "write_probe_files (sp_faults sp) cfg (init_env_config cfg info) (getenv m) f2 = (None, f3)"
    and "w' = w\<lparr>fs := f3, env := m\<rparr>"
    and "CreateDirectories (sp_faults sp) (ec_DataDir cfg) (ec_CertDir cfg) (fs w) = (True, f1)"
proof -
  obtain ok f1 where c: "CreateDirectories (sp_faults sp) (ec_DataDir cfg) (ec_CertDir cfg) (fs w) = (ok, f1)"
    by (cases "CreateDirectories (sp_faults sp) (ec_DataDir cfg) (ec_CertDir cfg) (fs w)")
  obtain r f2 where g: "GenerateCertificate (sp_signer sp) (sp_faults sp) (sp_key sp) (sp_serial sp) (init_cert_config cfg) f1 = (r, f2)"
    by (cases "GenerateCertificate (sp_signer sp) (sp_faults sp) (sp_key sp) (sp_serial sp) (init_cert_config cfg) f1")
  note run = assms [unfolded initializeEnvironment_def c prod.case g]
  have "ec_MyIPs cfg \<noteq> []" "ok" "r = None"
    using run by (auto split: if_splits bool.splits option.splits)
  then obtain info where i: "ExtractNetworkInfo (sp_host sp) (network_config cfg) = Inr info"
    using run by (cases "ExtractNetworkInfo (sp_host sp) (network_config cfg)") auto
  obtain k m where s: "SetupEnvironment (sp_order sp) (init_env_config cfg info) (env w) = (k, m)"
    by (cases "SetupEnvironment (sp_order sp) (init_env_config cfg info) (env w)")
  obtain e f3 where p: "write_probe_files (sp_faults sp) cfg (init_env_config cfg info) (getenv m) f2 = (e, f3)"
    by (cases "write_probe_files (sp_faults sp) cfg (init_env_config cfg info) (getenv m) f2")
  have "k = None" using run \<open>ec_MyIPs cfg \<noteq> []\<close> \<open>ok\<close> \<open>r = None\<close> i s by (cases k) auto
  then have "e = None" "w' = w\<lparr>fs := f3, env := m\<rparr>"
    using run \<open>ec_MyIPs cfg \<noteq> []\<close> \<open>ok\<close> \<open>r = None\<close> i s p by auto
  with g s p c \<open>ok\<close> \<open>r = None\<close> \<open>k = None\<close> show thesis by (intro that) auto
qed

lemma loadConfig_pod:
  assumes "loadConfig genv f h = GoOk c"
  shows "parsePodName (genv ''POD_NAME'') = GoOk (ec_Prefix c, ec_MyIndex c)"
proof -
  obtain m where "finish_config f h (env_config genv\<lparr>ec_Max := m, ec_Interfaces := parse_interfaces (genv ''INTERFACES'')\<rparr>) = GoOk c"
    using assms by (auto simp: loadConfig_def Let_def gores_bind_GoOk split: if_splits option.splits)
  then show ?thesis by (rule finish_config_ok) (simp add: env_config_def)
qed

lemma cluster_main_looping:
  assumes "cluster_main sp lookpath w = (Looping cfg bin, w')"
  shows "loadConfig (getenv (env w)) (fs w) (sp_host sp) = GoOk cfg"
    and "initializeEnvironment sp cfg w = (None, w')"
  using assms by (auto simp: cluster_main_def gores_bind_GoOk split: gores.splits option.splits prod.splits)

lemma cluster_main_procs:
  assumes "cluster_main sp lookpath w = (Looping cfg bin, w')"
  shows "procs w' = procs w"
  using initializeEnvironment_ok [OF cluster_main_looping(2) [OF assms]] by (metis world.ext_inject world.surjective world.update_convs(1,2))

lemma cluster_main_env:
  assumes "cluster_main sp lookpath w = (Looping cfg bin, w')" and "\<And>xs. mset (sp_order sp xs) = mset xs"
  shows "\<exists>info. \<forall>k. env w' k =
    (case map_of (env_vars (init_env_config cfg info)) k of None \<Rightarrow> env w k | Some v \<Rightarrow> Some v)"
  by (rule initializeEnvironment_ok [OF cluster_main_looping(2) [OF assms(1)]])
    (use SetupEnvironment_ok assms(2) in fastforce)

section \<open>Properties\<close>

text \<open>
  C17: What the start prepares is what the loop uses: when \<open>main\<close> reaches the management loop, the
  certificate pair the manager will read exists under its name, and the environment that etcd
  inherits names the same pair, for clients and for peers, and the data directory the manager
  inspects and clears. (The certificate directory is a clean path other than the root, and the
  pod name has no slash; otherwise \<open>filepath.Join\<close> and the manager's \<open>Sprintf\<close> spell the
  paths differently.)
\<close>

theorem environment_matches_manager:
  assumes "cluster_main sp lookpath w = (Looping cfg bin, w')" and "\<forall>xs. mset (sp_order sp xs) = mset xs"
    and "path_clean (ec_CertDir cfg) = ec_CertDir cfg" and "clean_elems (ec_CertDir cfg) \<noteq> []"
    and "CHR ''/'' \<notin> set (ec_PodName cfg)"
  shows "env w' ''ETCD_CERT_FILE'' = Some (mc_CertFile (manager_config cfg)) \<and>
    env w' ''ETCD_KEY_FILE'' = Some (mc_KeyFile (manager_config cfg)) \<and>
    env w' ''ETCD_PEER_CERT_FILE'' = Some (mc_CertFile (manager_config cfg)) \<and>
    env w' ''ETCD_PEER_KEY_FILE'' = Some (mc_KeyFile (manager_config cfg)) \<and>
    env w' ''ETCD_DATA_DIR'' = Some (mc_DataDir (manager_config cfg)) \<and>
    env w' ''ETCD_NAME'' = Some (mc_PodName (manager_config cfg)) \<and>
    fileExists (fs w') [ec_CertDir cfg, ec_PodName cfg @ ''.pem''] \<and>
    fileExists (fs w') [ec_CertDir cfg, ec_PodName cfg @ ''-key.pem'']"
proof -
  have order: "\<And>xs. mset (sp_order sp xs) = mset xs" using assms(2) by simp
  obtain info where e: "\<And>k. env w' k = (case map_of (env_vars (init_env_config cfg info)) k of
      None \<Rightarrow> env w k | Some v \<Rightarrow> Some v)"
    using cluster_main_env [OF assms(1) order] by blast
  have "path_join (ec_CertDir cfg) (ec_PodName cfg @ ''.pem'') = cert_path cfg"
    "path_join (ec_CertDir cfg) (ec_PodName cfg @ ''-key.pem'') = key_path cfg"
    using assms(5) by (simp_all add: path_join_file [OF assms(4)] assms(3) cert_path_def key_path_def Cons_eq_append_conv append_eq_Cons_conv)
  then have "pod_cert (init_env_config cfg info) = cert_path cfg" "pod_key (init_env_config cfg info) = key_path cfg"
    by (simp_all add: pod_cert_def pod_key_def init_env_config_def)
  then have vars: "env w' ''ETCD_CERT_FILE'' = Some (cert_path cfg) \<and> env w' ''ETCD_KEY_FILE'' = Some (key_path cfg) \<and>
      env w' ''ETCD_PEER_CERT_FILE'' = Some (cert_path cfg) \<and> env w' ''ETCD_PEER_KEY_FILE'' = Some (key_path cfg) \<and>
      env w' ''ETCD_DATA_DIR'' = Some (ec_DataDir cfg) \<and> env w' ''ETCD_NAME'' = Some (ec_PodName cfg)"
    by (simp add: e env_vars_def) (simp add: init_env_config_def)
  obtain f1 f2 f3 info' m where
    g: "GenerateCertificate (sp_signer sp) (sp_faults sp) (sp_key sp) (sp_serial sp) (init_cert_config cfg) f1 = (None, f2)"
    and p: "write_probe_files (sp_faults sp) cfg (init_env_config cfg info') (getenv m) f2 = (None, f3)"
    and w': "w' = w\<lparr>fs := f3, env := m\<rparr>"
    by (rule initializeEnvironment_ok [OF cluster_main_looping(2) [OF assms(1)]])
  have "fileExists (fs w') (cert_file_of (init_cert_config cfg)) \<and> fileExists (fs w') (key_file_of (init_cert_config cfg))"
    using GenerateCertificate_pair [OF g] write_probe_files_other [OF p]
    by (simp add: w' fileExists_def cert_file_of_def key_file_of_def)
  with vars show ?thesis
    by (simp add: manager_config_def cert_file_of_def key_file_of_def init_cert_config_def)
qed

text \<open>The world in which pod 2 of the demonstration starts.\<close>

definition start_world :: "nat world" where
  "start_world = \<lparr>env = (\<lambda>k. if demo_genv ''3'' k = [] then None else Some (demo_genv ''3'' k)),
     fs = \<lparr>node = (\<lambda>p. if p = [''/run/ssl/ca.pem''] then RegFile ''CERTIFICATE|ca''
        else if p = [''/run/ssl/ca-key.pem''] then RegFile ''EC PRIVATE KEY|kkk'' else Absent), sticky = (\<lambda>p. False)\<rparr>,
     procs = [], startable = (\<lambda>b. True), etcd = 0, calls = []\<rparr>"

definition start_demo :: "(nat, nat) start_params" where
  "start_demo = \<lparr>sp_build = Some [(''vcs.revision'', ''0123456789''), (''vcs.time'', ''t'')], sp_signer = toy_signer, sp_faults = no_faults, sp_key = Some 2, sp_serial = Some 1,
     sp_host = demo_host, sp_order = rev\<rparr>"

lemma start_demo_run:
  obtains cfg w' where "cluster_main start_demo (\<lambda>p. Some ''etcd'') start_world = (Looping cfg ''etcd'', w')"
    and "ec_CertDir cfg = ''/run/etcd/ssl''" and "ec_PodName cfg = ''etcd-2''"
proof -
  have "(case cluster_main start_demo (\<lambda>p. Some ''etcd'') start_world of
      (Looping cfg b, w') \<Rightarrow> b = ''etcd'' \<and> ec_CertDir cfg = ''/run/etcd/ssl'' \<and> ec_PodName cfg = ''etcd-2''
    | _ \<Rightarrow> False)" by code_simp
  then show thesis using that by (auto split: prod.splits main_result.splits)
qed

theorem environment_matches_manager_witness:
  "\<exists>cfg w'. cluster_main start_demo (\<lambda>p. Some ''etcd'') start_world = (Looping cfg ''etcd'', w') \<and>
     env w' ''ETCD_CERT_FILE'' = Some (mc_CertFile (manager_config cfg)) \<and> ec_PodName cfg = ''etcd-2''"
proof -
  obtain cfg w' where run: "cluster_main start_demo (\<lambda>p. Some ''etcd'') start_world = (Looping cfg ''etcd'', w')"
    and d: "ec_CertDir cfg = ''/run/etcd/ssl''" and p: "ec_PodName cfg = ''etcd-2''"
    by (rule start_demo_run)
  have order: "\<forall>xs. mset (sp_order start_demo xs) = mset xs" by (simp add: start_demo_def)
  have clean: "path_clean ''/run/etcd/ssl'' = ''/run/etcd/ssl''" "clean_elems ''/run/etcd/ssl'' \<noteq> []" by code_simp+
  have "CHR ''/'' \<notin> set (ec_PodName cfg)" by (simp add: p)
  from environment_matches_manager [OF run order _ _ this] clean d p run show ?thesis by auto
qed



end
