(* ===== verification/Cluster_Forms.thy ===== *)
theory Cluster_Forms
  imports Shared_Members Cluster_Main
begin

text \<open>
  How a cluster comes about: pods start one after the other, each going through \<open>main\<close> and then an
  iteration of its management loop (\<open>cmd/etcdcluster/main.go\<close> with \<open>pkg/cluster/manager.go\<close>) against the etcd
  cluster of those before it. What etcd does with its membership is a parameter with its
  documented behaviour (\<open>etcd_serves\<close>).
\<close>

section \<open>The etcd cluster\<close>

text \<open>The answer to an addition: one more member, nameless, with a fresh ID and the URLs in some order.\<close>

definition added :: "('e \<Rightarrow> member list) \<Rightarrow> string list \<Rightarrow> bool \<Rightarrow> 'e \<Rightarrow> add_resp option \<times> 'e \<Rightarrow> bool" where
  "added members us learner e a \<longleftrightarrow>
     (\<exists>m r e'. a = (Some r, e') \<and> members e' = members e @ [m] \<and> m_ID m \<noteq> 0 \<and> m_ID m \<notin> m_ID ` set (members e) \<and>
        m_Name m = [] \<and> mset (m_PeerURLs m) = mset us \<and> m_IsLearner m = learner \<and>
        ar_ID r = m_ID m \<and> ar_Members r = members e')"

text \<open>Every member has been started, none is a learner, the URLs are new, and there are IDs left.\<close>

definition accepts_member :: "member list \<Rightarrow> string list \<Rightarrow> bool" where
  "accepts_member ms us \<longleftrightarrow> us \<noteq> [] \<and> length ms < 2 ^ 63 \<and>
     (\<forall>m \<in> set ms. m_Name m \<noteq> [] \<and> \<not> m_IsLearner m \<and> set (m_PeerURLs m) \<inter> set us = {})"

text \<open>The entries \<open>name=url\<close> of \<open>ETCD_INITIAL_CLUSTER\<close> that a starting etcd of name \<open>n\<close> has to find.\<close>

definition cluster_entries :: "string \<Rightarrow> member list \<Rightarrow> string set" where
  "cluster_entries n ms = (\<Union>m \<in> set ms. (\<lambda>u. (if m_Name m = [] then n else m_Name m) @ ''='' @ u) ` set (m_PeerURLs m))"

definition refused :: "'e etcd_api \<Rightarrow> member_id \<Rightarrow> nat \<Rightarrow> 'e \<Rightarrow> 'e" where
  "refused api i k = (\<lambda>e. snd (api_promote api i e)) ^^ k"

definition promoted :: "member_id \<Rightarrow> member list \<Rightarrow> member list" where
  "promoted i = map (\<lambda>m. if m_ID m = i then m\<lparr>m_IsLearner := False\<rparr> else m)"

definition named :: "string \<Rightarrow> string set \<Rightarrow> member list \<Rightarrow> member list" where
  "named n us = map (\<lambda>m. if set (m_PeerURLs m) = us then m\<lparr>m_Name := n\<rparr> else m)"

text \<open>
  The documented behaviour: listing; accepted additions; a started learner catches up, so that one
  of a hundred promotions is accepted, and a refused one changes nothing; an etcd that starts with
  the cluster it is told to join publishes its name, and one that starts a new cluster of itself is
  its only member.
\<close>

definition etcd_serves :: "'e etcd_api \<Rightarrow> ('e \<Rightarrow> member list) \<Rightarrow> bool" where
  "etcd_serves api members \<longleftrightarrow>
     (\<forall>e. fst (api_list api e) = Some (members e) \<and> members (snd (api_list api e)) = members e) \<and>
     (\<forall>e us. accepts_member (members e) us \<longrightarrow>
        added members us False e (api_add api us e) \<and> added members us True e (api_add_learner api us e)) \<and>
     (\<forall>e i. (\<exists>m \<in> set (members e). m_ID m = i \<and> m_Name m \<noteq> []) \<longrightarrow>
        (\<exists>k < 100. fst (api_promote api i (refused api i k e)))) \<and>
     (\<forall>e i. members (snd (api_promote api i e)) =
        (if fst (api_promote api i e) then promoted i (members e) else members e)) \<and>
     (\<forall>v e n us cl. v ''ETCD_INITIAL_CLUSTER_STATE'' = Some ''existing'' \<longrightarrow> v ''ETCD_NAME'' = Some n \<longrightarrow>
        v ''ETCD_INITIAL_ADVERTISE_PEER_URLS'' = Some us \<longrightarrow> v ''ETCD_INITIAL_CLUSTER'' = Some cl \<longrightarrow>
        set (split_on CHR '','' cl) = cluster_entries n (members e) \<longrightarrow>
        members (api_started api v e) = named n (set (split_on CHR '','' us)) (members e)) \<and>
     (\<forall>v e n us cl. v ''ETCD_INITIAL_CLUSTER_STATE'' = Some ''new'' \<longrightarrow> v ''ETCD_NAME'' = Some n \<longrightarrow>
        v ''ETCD_INITIAL_ADVERTISE_PEER_URLS'' = Some us \<longrightarrow> v ''ETCD_INITIAL_CLUSTER'' = Some cl \<longrightarrow>
        set (split_on CHR '','' cl) = (\<lambda>u. n @ ''='' @ u) ` set (split_on CHR '','' us) \<longrightarrow>
        (\<exists>m. members (api_started api v e) = [m] \<and> m_ID m \<noteq> 0 \<and> m_Name m = n \<and> \<not> m_IsLearner m \<and>
           mset (m_PeerURLs m) = mset (split_on CHR '','' us)))"

section \<open>The pods\<close>

text \<open>A pod at the head of its loop: its configuration, what its next iteration meets, and its
  world, whose etcd cluster is the shared one.\<close>

record 'e starting =
  st_cfg :: etcd_config
  st_iter :: iteration
  st_world :: "'e world"

definition start_pod :: "'e etcd_api \<Rightarrow> string \<Rightarrow> 'e starting \<Rightarrow> 'e \<Rightarrow> loop_result \<times> 'e world" where
  "start_pod api bin p e = run_iteration api (st_cfg p) bin (st_iter p) ((st_world p)\<lparr>etcd := e\<rparr>)"

fun form_cluster ::
    "'e etcd_api \<Rightarrow> string \<Rightarrow> 'e starting list \<Rightarrow> 'e \<Rightarrow> (loop_result \<times> 'e world) list \<times> 'e" where
  "form_cluster api bin [] e = ([], e)"
| "form_cluster api bin (p # ps) e =
     (let (r, w) = start_pod api bin p e; (rs, e') = form_cluster api bin ps (etcd w) in ((r, w) # rs, e'))"

abbreviation no_comma :: "string \<Rightarrow> bool" where
  "no_comma s \<equiv> CHR '','' \<notin> set s"

text \<open>The environment that the start has prepared (see \<open>Cluster_Main\<close>), an etcd that can be started and keeps
  running, a data directory that can be examined, and addresses without commas.\<close>

definition pod_prepared :: "string \<Rightarrow> 'e starting \<Rightarrow> bool" where
  "pod_prepared bin p \<longleftrightarrow>
     (let cfg = st_cfg p; w = st_world p
      in env w ''ETCD_NAME'' = Some (ec_PodName cfg) \<and>
         env w ''ETCD_INITIAL_ADVERTISE_PEER_URLS'' = Some (join '','' (own_urls cfg)) \<and>
         startable w bin \<and> node (fs w) [ec_DataDir cfg, ''member''] \<noteq> StatFails \<and> it_events (st_iter p) = [] \<and>
         ec_PodName cfg \<noteq> [] \<and> no_comma (ec_PodName cfg) \<and> no_comma (ec_PeerPort cfg) \<and>
         ec_MyIPs cfg \<noteq> [] \<and> (\<forall>ip \<in> set (ec_MyIPs cfg). no_comma ip))"

text \<open>What a pod starts from, and that \<open>main\<close> leads it from there to the head of its loop.\<close>

record ('k, 's, 'e) boot =
  bt_params :: "('k, 's) start_params"
  bt_world :: "'e world"

definition boots :: "string \<Rightarrow> ('k, 's, 'e) boot \<Rightarrow> 'e starting \<Rightarrow> bool" where
  "boots bin b p \<longleftrightarrow>
     cluster_main (bt_params b) (\<lambda>path. Some bin) (bt_world b) = (Looping (st_cfg p) bin, st_world p) \<and>
     (\<forall>xs. mset (sp_order (bt_params b) xs) = mset xs) \<and> startable (bt_world b) bin \<and>
     no_comma (getenv (env (bt_world b)) ''POD_NAME'') \<and> no_comma (getenv (env (bt_world b)) ''PEER_PORT'') \<and>
     node (fs (st_world p)) [ec_DataDir (st_cfg p), ''member''] \<noteq> StatFails \<and> it_events (st_iter p) = []"

definition finds_nobody :: "'e starting \<Rightarrow> bool" where
  "finds_nobody p \<longleftrightarrow> ec_MyIndex (st_cfg p) = 0 \<and>
     (case DiscoverEndpoints (it_order (st_iter p)) (it_disc (st_iter p)) (discovery_config (st_cfg p)) of
        Inl x \<Rightarrow> False
      | Inr info \<Rightarrow> ReadyNodes info = [] \<and> NotReadyNodes info = {})"

definition finds_cluster :: "'e starting \<Rightarrow> bool" where
  "finds_cluster p \<longleftrightarrow>
     (case DiscoverEndpoints (it_order (st_iter p)) (it_disc (st_iter p)) (discovery_config (st_cfg p)) of
        Inl x \<Rightarrow> False
      | Inr info \<Rightarrow> DeadNames info = {} \<and>
          GetClient (key_pair (it_disc (st_iter p))) (it_client_ok (st_iter p)) (manager_config (st_cfg p)) (ReadyNodes info)
            = GoOk (client_endpoints (manager_config (st_cfg p)) (ReadyNodes info)))"

text \<open>The members \<open>ms\<close> are exactly the pods \<open>ps\<close>, as started voters.\<close>

definition consists_of :: "'e starting list \<Rightarrow> member list \<Rightarrow> bool" where
  "consists_of ps ms \<longleftrightarrow>
     map (\<lambda>m. (m_Name m, set (m_PeerURLs m), m_IsLearner m)) ms =
       map (\<lambda>p. (ec_PodName (st_cfg p), set (own_urls (st_cfg p)), False)) ps \<and>
     distinct (map m_ID ms) \<and> 0 \<notin> set (map m_ID ms)"

text \<open>The pod runs etcd, which has not been told to stop, and waits for it.\<close>

definition serving_etcd :: "string \<Rightarrow> 'e starting \<Rightarrow> loop_result \<times> 'e world \<Rightarrow> bool" where
  "serving_etcd bin p rw \<longleftrightarrow> fst rw = LoopEnds WaitPending \<and>
     procs (snd rw) = procs (st_world p) @ [\<lparr>proc_bin = bin, proc_env = env (snd rw), proc_sigterm = False\<rparr>]"

section \<open>Lemmas\<close>

lemma own_urls_comma:
  assumes "pod_prepared bin p"
  shows "split_on CHR '','' (join '','' (own_urls (st_cfg p))) = own_urls (st_cfg p)"
    and "own_urls (st_cfg p) \<noteq> []" and "u \<in> set (own_urls (st_cfg p)) \<Longrightarrow> no_comma u"
proof -
  have free: "no_comma u" if "u \<in> set (own_urls (st_cfg p))" for u
    using assms that by (auto simp: pod_prepared_def Let_def peer_url_def)
  then show "u \<in> set (own_urls (st_cfg p)) \<Longrightarrow> no_comma u" .
  show ne: "own_urls (st_cfg p) \<noteq> []" using assms by (simp add: pod_prepared_def Let_def)
  show "split_on CHR '','' (join '','' (own_urls (st_cfg p))) = own_urls (st_cfg p)"
    using split_on_join [OF ne, of "CHR '',''"] free by simp
qed

lemma set_buildClusterConfig: "set (buildClusterConfig cfg ms) = cluster_entries (mc_PodName cfg) ms"
  by (induction ms) (auto simp: cluster_entries_def)

lemma cluster_text:
  assumes "\<forall>m \<in> set ms. no_comma (m_Name m) \<and> (\<forall>u \<in> set (m_PeerURLs m). no_comma u)"
    and "no_comma (mc_PodName cfg)" and "\<exists>m \<in> set ms. m_PeerURLs m \<noteq> []"
  shows "set (split_on CHR '','' (join '','' (buildClusterConfig cfg ms))) = cluster_entries (mc_PodName cfg) ms"
proof -
  have ne: "buildClusterConfig cfg ms \<noteq> []" using assms(3) by (induction ms) auto
  have "no_comma x" if "x \<in> set (buildClusterConfig cfg ms)" for x
    using that assms(1,2) by (auto simp: set_buildClusterConfig cluster_entries_def split: if_splits)
  then have "split_on CHR '','' (join '','' (buildClusterConfig cfg ms)) = buildClusterConfig cfg ms"
    using split_on_join [OF ne, of "CHR '',''"] by simp
  then show ?thesis by (simp add: set_buildClusterConfig)
qed

text \<open>The laws, one by one.\<close>

lemma serves_list:
  assumes "etcd_serves api members"
  shows "\<exists>w'. call_list api w = (Some (members (etcd w)), w') \<and> members (etcd w') = members (etcd w) \<and> same_local w w'"
proof -
  have "fst (api_list api (etcd w)) = Some (members (etcd w)) \<and> members (snd (api_list api (etcd w))) = members (etcd w)"
    by (rule spec [OF conjunct1 [OF assms [unfolded etcd_serves_def]]])
  then show ?thesis by (cases "api_list api (etcd w)") (simp add: call_list_def same_local_def)
qed

lemma serves_add:
  assumes "etcd_serves api members" and "accepts_member (members e) us"
  shows "added members us False e (api_add api us e)" and "added members us True e (api_add_learner api us e)"
  using conjunct1 [OF conjunct2 [OF assms(1) [unfolded etcd_serves_def]], rule_format, OF assms(2)] by simp_all

lemma serves_promote:
  assumes "etcd_serves api members"
  shows "\<exists>m \<in> set (members e). m_ID m = i \<and> m_Name m \<noteq> [] \<Longrightarrow> \<exists>k < 100. fst (api_promote api i (refused api i k e))"
    and "members (snd (api_promote api i e)) = (if fst (api_promote api i e) then promoted i (members e) else members e)"
proof -
  note rest = assms [unfolded etcd_serves_def, THEN conjunct2, THEN conjunct2]
  show "\<exists>m \<in> set (members e). m_ID m = i \<and> m_Name m \<noteq> [] \<Longrightarrow> \<exists>k < 100. fst (api_promote api i (refused api i k e))"
    by (rule rest [THEN conjunct1, rule_format])
  show "members (snd (api_promote api i e)) = (if fst (api_promote api i e) then promoted i (members e) else members e)"
    by (rule rest [THEN conjunct2, THEN conjunct1, rule_format])
qed

lemma serves_start:
  assumes "etcd_serves api members" and "v ''ETCD_NAME'' = Some n" and "v ''ETCD_INITIAL_ADVERTISE_PEER_URLS'' = Some us"
    and "v ''ETCD_INITIAL_CLUSTER'' = Some cl"
  shows "v ''ETCD_INITIAL_CLUSTER_STATE'' = Some ''existing'' \<Longrightarrow>
      set (split_on CHR '','' cl) = cluster_entries n (members e) \<Longrightarrow>
      members (api_started api v e) = named n (set (split_on CHR '','' us)) (members e)"
    and "v ''ETCD_INITIAL_CLUSTER_STATE'' = Some ''new'' \<Longrightarrow>
      set (split_on CHR '','' cl) = (\<lambda>u. n @ ''='' @ u) ` set (split_on CHR '','' us) \<Longrightarrow>
      \<exists>m. members (api_started api v e) = [m] \<and> m_ID m \<noteq> 0 \<and> m_Name m = n \<and> \<not> m_IsLearner m \<and>
        mset (m_PeerURLs m) = mset (split_on CHR '','' us)"
proof -
  note rest = assms(1) [unfolded etcd_serves_def, THEN conjunct2, THEN conjunct2, THEN conjunct2, THEN conjunct2]
  show "v ''ETCD_INITIAL_CLUSTER_STATE'' = Some ''existing'' \<Longrightarrow>
      set (split_on CHR '','' cl) = cluster_entries n (members e) \<Longrightarrow>
      members (api_started api v e) = named n (set (split_on CHR '','' us)) (members e)"
    by (rule rest [THEN conjunct1, rule_format, OF _ assms(2-4)])
  show "v ''ETCD_INITIAL_CLUSTER_STATE'' = Some ''new'' \<Longrightarrow>
      set (split_on CHR '','' cl) = (\<lambda>u. n @ ''='' @ u) ` set (split_on CHR '','' us) \<Longrightarrow>
      \<exists>m. members (api_started api v e) = [m] \<and> m_ID m \<noteq> 0 \<and> m_Name m = n \<and> \<not> m_IsLearner m \<and>
        mset (m_PeerURLs m) = mset (split_on CHR '','' us)"
    by (rule rest [THEN conjunct2, rule_format, OF _ assms(2-4)])
qed

text \<open>A promotion that is accepted within the attempts.\<close>

lemma promote_accepted:
  assumes "etcd_serves api members" and "k < n" and "fst (api_promote api i (refused api i k (etcd w)))"
  shows "\<exists>w'. promote_loop api i n w = (Some (), w') \<and> same_local w w' \<and> members (etcd w') = promoted i (members (etcd w))"
  using assms(2,3)
proof (induction n arbitrary: k w)
  case (Suc n)
  obtain ok e1 where p: "api_promote api i (etcd w) = (ok, e1)" by (cases "api_promote api i (etcd w)")
  let ?w1 = "w\<lparr>etcd := e1, calls := calls w @ [CallPromote i]\<rparr>"
  have m: "members e1 = (if ok then promoted i (members (etcd w)) else members (etcd w))"
    using serves_promote(2) [OF assms(1), of i "etcd w"] p by simp
  have once: "promote_once api i w = ((if ok then Some () else None), ?w1)"
    by (simp add: promote_once_def call_promote_def p)
  show ?case
  proof (cases ok)
    case True
    with once m show ?thesis by (simp add: same_local_def)
  next
    case False
    then obtain j where j: "k = Suc j" using Suc.prems(2) p by (cases k) (auto simp: refused_def)
    then have "fst (api_promote api i (refused api i j (etcd ?w1)))"
      using Suc.prems(2) p by (simp add: refused_def funpow_Suc_right del: funpow.simps)
    with Suc.IH [of j ?w1] Suc.prems(1) j obtain w' where "promote_loop api i n ?w1 = (Some (), w')"
      "same_local ?w1 w'" "members (etcd w') = promoted i (members e1)" by auto
    with once m False show ?thesis by (simp add: same_local_def)
  qed
qed simp

lemma quiet_process: "snd (processMembers api cfg ms {} mine w) = w"
proof -
  have none: "\<not> has_dead_url {} m" for m by (simp add: has_dead_url_def list_ex_iff)
  have "snd (process_loop api cfg {} mine ms acc w) = w" for acc by (induction ms arbitrary: acc) (simp_all add: none)
  then show ?thesis by (simp add: processMembers_def)
qed

text \<open>Starting etcd for an added member: it takes its name, and a learner becomes a voter.\<close>

lemma start_added_joins:
  assumes serves: "etcd_serves api members" and able: "startable w bin" and name: "mc_PodName cfg \<noteq> []"
    and env: "env w ''ETCD_NAME'' = Some (mc_PodName cfg)"
      "env w ''ETCD_INITIAL_ADVERTISE_PEER_URLS'' = Some (join '','' us)" "split_on CHR '','' (join '','' us) = us"
    and now: "members (etcd w) = ms @ [m]" "ar_Members resp = ms @ [m]" "ar_ID resp = m_ID m"
    and m: "m_Name m = []" "set (m_PeerURLs m) = set us" "m_IsLearner m = pr" "m_ID m \<notin> m_ID ` set ms"
    and cl: "set (split_on CHR '','' (join '','' (buildClusterConfig cfg (ms @ [m])))) = cluster_entries (mc_PodName cfg) (ms @ [m])"
    and others: "\<forall>x \<in> set ms. set (m_PeerURLs x) \<noteq> set us"
  shows "\<exists>w'. start_added api cfg bin pr resp w = (GoOk (length (procs w)), w') \<and>
    members (etcd w') = ms @ [m\<lparr>m_Name := mc_PodName cfg, m_IsLearner := False\<rparr>] \<and>
    procs w' = procs w @ [\<lparr>proc_bin = bin, proc_env = env w', proc_sigterm = False\<rparr>]"
proof -
  let ?n = "mc_PodName cfg" and ?cl = "join '','' (buildClusterConfig cfg (ms @ [m]))"
  let ?w1 = "setenv ''ETCD_INITIAL_CLUSTER'' ?cl (setenv ''ETCD_INITIAL_CLUSTER_STATE'' ''existing'' w)"
  let ?m = "m\<lparr>m_Name := ?n\<rparr>"
  obtain w2 where st: "startEtcd api bin ?w1 = (GoOk (length (procs w)), w2)" and w2: "etcd w2 = api_started api (env ?w1) (etcd w)"
    "env w2 = env ?w1" "procs w2 = procs w @ [\<lparr>proc_bin = bin, proc_env = env w2, proc_sigterm = False\<rparr>]"
    using able by (simp add: startEtcd_def setenv_def)
  have "members (etcd w2) = named ?n (set (split_on CHR '','' (join '','' us))) (members (etcd w))"
    unfolding w2(1) by (rule serves_start(1) [OF serves, where cl = ?cl]) (use env(1,2) now cl in simp_all)
  also have "\<dots> = ms @ [?m]" using others m(2) env(3) now(1) by (simp add: named_def map_idI)
  finally have ms2: "members (etcd w2) = ms @ [?m]" .
  show ?thesis
  proof (cases pr)
    case False
    with st ms2 w2(3) m(3) now(2) show ?thesis by (simp add: start_added_def)
  next
    case True
    have "\<exists>x \<in> set (members (etcd w2)). m_ID x = m_ID m \<and> m_Name x \<noteq> []" using ms2 name by auto
    then obtain k where "k < 100" "fst (api_promote api (m_ID m) (refused api (m_ID m) k (etcd w2)))"
      using serves_promote(1) [OF serves] by blast
    then obtain w3 where p: "promote_loop api (m_ID m) 100 w2 = (Some (), w3)" "same_local w2 w3"
      and ms3: "members (etcd w3) = promoted (m_ID m) (members (etcd w2))"
      using promote_accepted [OF serves] by blast
    have "promoted (m_ID m) ms = ms" unfolding promoted_def by (rule map_idI) (metis m(4) image_eqI)
    then have "promoted (m_ID m) (ms @ [?m]) = ms @ [m\<lparr>m_Name := ?n, m_IsLearner := False\<rparr>]"
      by (simp add: promoted_def)
    with True st p ms2 ms3 w2(3) now(2,3) show ?thesis
      by (simp add: start_added_def promoteLearner_def max_promote_retries_def same_local_def)
  qed
qed

lemma addMemberAndStart_joins:
  assumes serves: "etcd_serves api members" and able: "startable w bin" and name: "mc_PodName cfg \<noteq> []"
    and env: "env w ''ETCD_NAME'' = Some (mc_PodName cfg)"
      "env w ''ETCD_INITIAL_ADVERTISE_PEER_URLS'' = Some (join '','' us)" "split_on CHR '','' (join '','' us) = us"
    and us: "us = map (\<lambda>ip. peer_url ip (mc_PeerPort cfg)) ips" "\<forall>u \<in> set us. no_comma u"
    and names: "no_comma (mc_PodName cfg)" "\<forall>x \<in> set (members (etcd w)). no_comma (m_Name x) \<and> (\<forall>u \<in> set (m_PeerURLs x). no_comma u)"
    and accepts: "accepts_member (members (etcd w)) us" and votes: "votes = length (members (etcd w))" "0 < votes"
  shows "\<exists>m w'. addMemberAndStart api cfg ips votes bin w = (GoOk (length (procs w)), w') \<and>
    members (etcd w') = members (etcd w) @ [m] \<and> m_ID m \<noteq> 0 \<and> m_ID m \<notin> m_ID ` set (members (etcd w)) \<and>
    m_Name m = mc_PodName cfg \<and> set (m_PeerURLs m) = set us \<and> \<not> m_IsLearner m \<and>
    procs w' = procs w @ [\<lparr>proc_bin = bin, proc_env = env w', proc_sigterm = False\<rparr>]"
proof -
  let ?ms = "members (etcd w)" and ?l = "votes = 1"
  let ?call = "if ?l then call_add_learner api us w else call_add api us w"
  have "added members us ?l (etcd w) (if ?l then api_add_learner api us (etcd w) else api_add api us (etcd w))"
    using serves_add [OF serves accepts] by simp
  then obtain m resp e' where a: "(if ?l then api_add_learner api us (etcd w) else api_add api us (etcd w)) = (Some resp, e')"
    and m: "members e' = ?ms @ [m]" "m_ID m \<noteq> 0" "m_ID m \<notin> m_ID ` set ?ms" "m_Name m = []" "mset (m_PeerURLs m) = mset us"
      "m_IsLearner m = ?l" "ar_ID resp = m_ID m" "ar_Members resp = members e'" unfolding added_def by blast
  obtain w1 where c: "?call = (Some resp, w1)" and w1: "etcd w1 = e'" "same_local w w1"
    using a by (auto simp: call_add_learner_def call_add_def same_local_def split: if_splits)
  have urls: "set (m_PeerURLs m) = set us" using m(5) by (metis set_mset_mset)
  have "us \<noteq> []" using accepts by (simp add: accepts_member_def)
  have cls: "set (split_on CHR '','' (join '','' (buildClusterConfig cfg (?ms @ [m])))) = cluster_entries (mc_PodName cfg) (?ms @ [m])"
  proof (rule cluster_text)
    show "\<forall>x \<in> set (?ms @ [m]). no_comma (m_Name x) \<and> (\<forall>u \<in> set (m_PeerURLs x). no_comma u)"
      using names(2) us(2) m(4) urls by simp
    show "\<exists>x \<in> set (?ms @ [m]). m_PeerURLs x \<noteq> []" using urls \<open>us \<noteq> []\<close> by auto
  qed (rule names(1))
  have others: "\<forall>x \<in> set ?ms. set (m_PeerURLs x) \<noteq> set us"
    using accepts \<open>us \<noteq> []\<close> unfolding accepts_member_def by fastforce
  have l: "startable w1 bin" "env w1 = env w" "procs w1 = procs w" using w1(2) able by (simp_all add: same_local_def)
  obtain w' where j: "start_added api cfg bin ?l resp w1 = (GoOk (length (procs w1)), w')"
    "members (etcd w') = ?ms @ [m\<lparr>m_Name := mc_PodName cfg, m_IsLearner := False\<rparr>]"
    "procs w' = procs w1 @ [\<lparr>proc_bin = bin, proc_env = env w', proc_sigterm = False\<rparr>]"
    using start_added_joins [OF serves l(1) name, of us ?ms m resp ?l] env m(1,3,4,6,7,8) urls cls others l w1(1) by auto
  have "addMemberAndStart api cfg ips votes bin w = start_added api cfg bin ?l resp w1"
    using c votes(2) by (auto simp: addMemberAndStart_def us(1) [symmetric] split: if_splits)
  with j show ?thesis using m(2,3) urls l(3) by (intro exI [of _ "m\<lparr>m_Name := mc_PodName cfg, m_IsLearner := False\<rparr>"] exI [of _ w']) simp
qed

text \<open>The two kinds of iteration.\<close>

lemma consists_members:
  assumes "consists_of ps ms" and "m \<in> set ms"
  obtains p where "p \<in> set ps" "m_Name m = ec_PodName (st_cfg p)" "set (m_PeerURLs m) = set (own_urls (st_cfg p))" "\<not> m_IsLearner m"
proof -
  have "(m_Name m, set (m_PeerURLs m), m_IsLearner m) \<in> set (map (\<lambda>m. (m_Name m, set (m_PeerURLs m), m_IsLearner m)) ms)"
    using assms(2) by simp
  also have "\<dots> = set (map (\<lambda>p. (ec_PodName (st_cfg p), set (own_urls (st_cfg p)), False)) ps)"
    using assms(1) by (simp add: consists_of_def)
  finally show thesis using that by auto
qed

lemma bootstrap_run:
  assumes serves: "etcd_serves api members" and prep: "pod_prepared bin p" and alone: "finds_nobody p"
  shows "\<exists>w. start_pod api bin p e = (LoopEnds WaitPending, w) \<and> consists_of [p] (members (etcd w)) \<and>
    serving_etcd bin p (LoopEnds WaitPending, w)"
proof -
  let ?cfg = "st_cfg p" and ?w = "(st_world p)\<lparr>etcd := e\<rparr>" and ?m = "manager_config (st_cfg p)"
  have sel: "mc_PodName ?m = ec_PodName ?cfg" "mc_PeerPort ?m = ec_PeerPort ?cfg" "member_dir ?m = [ec_DataDir ?cfg, ''member'']"
    by (simp_all add: manager_config_def member_dir_def)
  have "node (fs ?w) (member_dir ?m) \<noteq> StatFails" "startable ?w bin" using prep by (simp_all add: pod_prepared_def Let_def sel)
  from initialize_new_cluster [OF this, of api "ec_MyIPs ?cfg"]
  obtain w where i: "InitializeNewCluster api ?m (ec_MyIPs ?cfg) bin ?w = (GoOk (length (procs ?w)), w)"
    and pr: "procs w = procs ?w @ [\<lparr>proc_bin = bin, proc_env = env w, proc_sigterm = False\<rparr>]"
    and v: "env w = (env ?w)(''ETCD_INITIAL_CLUSTER_STATE'' \<mapsto> ''new'', ''ETCD_INITIAL_CLUSTER'' \<mapsto>
      join '','' (map (\<lambda>ip. ec_PodName ?cfg @ ''='' @ peer_url ip (ec_PeerPort ?cfg)) (ec_MyIPs ?cfg)))"
    unfolding sel by blast
  have et: "etcd w = api_started api (env w) e"
    using i by (auto simp: InitializeNewCluster_def Let_def startEtcd_def setenv_def split: gores.splits bool.splits if_splits)
  let ?cl = "map (\<lambda>ip. ec_PodName ?cfg @ ''='' @ peer_url ip (ec_PeerPort ?cfg)) (ec_MyIPs ?cfg)"
  have "?cl \<noteq> []" "\<forall>x \<in> set ?cl. no_comma x" using prep by (auto simp: pod_prepared_def Let_def peer_url_def)
  then have "set (split_on CHR '','' (join '','' ?cl)) = (\<lambda>u. ec_PodName ?cfg @ ''='' @ u) ` set (own_urls ?cfg)"
    by (simp add: split_on_join image_image)
  then have "\<exists>m. members (api_started api (env w) e) = [m] \<and> m_ID m \<noteq> 0 \<and> m_Name m = ec_PodName ?cfg \<and>
      \<not> m_IsLearner m \<and> mset (m_PeerURLs m) = mset (split_on CHR '','' (join '','' (own_urls ?cfg)))"
    by (intro serves_start(2) [OF serves, where cl = "join '','' ?cl"])
      (use prep own_urls_comma(1) [OF prep] in \<open>simp_all add: v pod_prepared_def Let_def\<close>)
  then obtain m where "members (etcd w) = [m]" "m_ID m \<noteq> 0" "m_Name m = ec_PodName ?cfg" "\<not> m_IsLearner m"
    "set (m_PeerURLs m) = set (own_urls ?cfg)" unfolding et own_urls_comma(1) [OF prep] by (metis set_mset_mset)
  then have "consists_of [p] (members (etcd w))" by (simp add: consists_of_def)
  moreover have "start_pod api bin p e = (LoopEnds WaitPending, w)"
  proof -
    have "it_events (st_iter p) = []" using prep by (simp add: pod_prepared_def Let_def)
    moreover obtain info where "DiscoverEndpoints (it_order (st_iter p)) (it_disc (st_iter p)) (discovery_config ?cfg) = Inr info"
      "ReadyNodes info = []" "NotReadyNodes info = {}" "ec_MyIndex ?cfg = 0"
      using alone by (auto simp: finds_nobody_def split: sum.splits)
    ultimately show ?thesis using i by (simp add: start_pod_def run_iteration_def init_branch_def after_wait_def)
  qed
  ultimately show ?thesis using pr by (simp add: serving_etcd_def)
qed

lemma disjoint_no_match: "us \<noteq> [] \<Longrightarrow> set us \<inter> S = {} \<Longrightarrow> \<not> peerURLsMatch us S"
  by (cases us) (auto simp: peerURLsMatch_def)

lemma join_run:
  assumes serves: "etcd_serves api members" and prep: "pod_prepared bin p" and found: "finds_cluster p"
    and before: "consists_of qs (members e)" "qs \<noteq> []" "\<forall>q \<in> set qs. pod_prepared bin q"
    and fresh: "\<forall>q \<in> set qs. ec_PodName (st_cfg q) \<noteq> ec_PodName (st_cfg p) \<and>
      set (own_urls (st_cfg q)) \<inter> set (own_urls (st_cfg p)) = {}"
    and few: "length qs < 2 ^ 63"
  shows "\<exists>w. start_pod api bin p e = (LoopEnds WaitPending, w) \<and> consists_of (qs @ [p]) (members (etcd w)) \<and>
    serving_etcd bin p (LoopEnds WaitPending, w)"
proof -
  let ?cfg = "st_cfg p" and ?w = "(st_world p)\<lparr>etcd := e\<rparr>" and ?m = "manager_config (st_cfg p)"
  let ?us = "own_urls (st_cfg p)" and ?ms = "members e"
  let ?mine = "buildPeerURLSet (ec_MyIPs ?cfg) (mc_PeerPort ?m)"
  have sel: "mc_PodName ?m = ec_PodName ?cfg" "mc_PeerPort ?m = ec_PeerPort ?cfg" "member_dir ?m = [ec_DataDir ?cfg, ''member'']"
    by (simp_all add: manager_config_def member_dir_def)
  have mine: "?mine = set ?us" by (simp add: buildPeerURLSet_def sel)
  note us = own_urls_comma [OF prep]
  have ms: "m_Name m \<noteq> [] \<and> m_Name m \<noteq> ec_PodName ?cfg \<and> no_comma (m_Name m) \<and> \<not> m_IsLearner m \<and>
      set (m_PeerURLs m) \<inter> set ?us = {} \<and> m_PeerURLs m \<noteq> [] \<and> (\<forall>u \<in> set (m_PeerURLs m). no_comma u)"
    if m: "m \<in> set ?ms" for m
  proof -
    obtain q where q: "q \<in> set qs" "m_Name m = ec_PodName (st_cfg q)" "set (m_PeerURLs m) = set (own_urls (st_cfg q))" "\<not> m_IsLearner m"
      using consists_members [OF before(1) m] by blast
    then have prep_q: "pod_prepared bin q" using before(3) by blast
    have "m_PeerURLs m \<noteq> []" using own_urls_comma(2) [OF prep_q] q(3) by auto
    moreover have "\<forall>u \<in> set (m_PeerURLs m). no_comma u" using own_urls_comma(3) [OF prep_q] q(3) by auto
    moreover have "m_Name m \<noteq> []" "no_comma (m_Name m)" using prep_q q(2) by (simp_all add: pod_prepared_def Let_def)
    ultimately show ?thesis using fresh q by metis
  qed
  have other: "\<not> is_self ?m ?mine m" if "m \<in> set ?ms" for m
    unfolding is_self_def mine sel(1) using ms [OF that] disjoint_no_match [of "m_PeerURLs m" "set ?us"] by simp
  obtain w1 where l: "call_list api ?w = (Some ?ms, w1)" "members (etcd w1) = ?ms" "same_local ?w w1"
    using serves_list [OF serves, of ?w] by auto
  have none: "self_members ?m ?mine ?ms = []" using other by (auto simp: self_members_def filter_empty_conv)
  have all: "voting_members ?m {} ?mine ?ms = ?ms"
    using other ms by (auto simp: voting_members_def has_dead_url_def list_ex_iff intro!: filter_True)
  obtain si where si: "processMembers api ?m ?ms {} ?mine w1 = (si, w1)" "si_ID si = 0" "si_Voting si = length ?ms"
    using processMembers_info [of api ?m ?ms "{}" ?mine w1] quiet_process [of api ?m ?ms ?mine w1] none all
    by (cases "processMembers api ?m ?ms {} ?mine w1") (simp add: self_id_def)
  have joins: "\<exists>m w'. addMemberAndStart api ?m (ec_MyIPs ?cfg) (si_Voting si) bin v = (GoOk (length (procs v)), w') \<and>
      members (etcd w') = ?ms @ [m] \<and> m_ID m \<noteq> 0 \<and> m_ID m \<notin> m_ID ` set ?ms \<and>
      m_Name m = ec_PodName ?cfg \<and> set (m_PeerURLs m) = set ?us \<and> \<not> m_IsLearner m \<and>
      procs w' = procs v @ [\<lparr>proc_bin = bin, proc_env = env w', proc_sigterm = False\<rparr>]"
    if v: "etcd v = etcd w1" "env v = env ?w" "startable v = startable ?w" for v
  proof -
    have now: "members (etcd v) = ?ms" using l(2) v(1) by simp
    have len: "length ?ms = length qs" using arg_cong [OF conjunct1 [OF before(1) [unfolded consists_of_def]], of length] by simp
    then have votes: "si_Voting si = length (members (etcd v))" "0 < si_Voting si" using si(3) before(2) now len by simp_all
    have accepts: "accepts_member (members (etcd v)) ?us" unfolding accepts_member_def now len using ms us(2) few by blast
    have able: "startable v bin" "mc_PodName ?m \<noteq> []" "no_comma (mc_PodName ?m)"
      "env v ''ETCD_NAME'' = Some (mc_PodName ?m)" "env v ''ETCD_INITIAL_ADVERTISE_PEER_URLS'' = Some (join '','' ?us)"
      using prep v by (simp_all add: sel pod_prepared_def Let_def)
    have urls: "?us = map (\<lambda>ip. peer_url ip (mc_PeerPort ?m)) (ec_MyIPs ?cfg)" by (simp add: sel)
    have "\<forall>u \<in> set ?us. no_comma u" using us(3) by blast
    moreover have "\<forall>x \<in> set (members (etcd v)). no_comma (m_Name x) \<and> (\<forall>u \<in> set (m_PeerURLs x). no_comma u)"
      unfolding now using ms by blast
    ultimately show ?thesis
      using addMemberAndStart_joins [OF serves able(1,2,4,5) us(1) urls _ able(3) _ accepts votes] by (simp only: now sel)
  qed
  have w1: "env w1 = env ?w" "startable w1 = startable ?w" "procs w1 = procs ?w" "fs w1 = fs ?w"
    using l(3) by (simp_all add: same_local_def)
  have "node (fs w1) (member_dir ?m) \<noteq> StatFails" using prep w1(4) by (simp add: pod_prepared_def Let_def sel)
  then obtain v where v: "handleMemberJoin api ?m (si_ID si) (si_IsLearner si) (ec_MyIPs ?cfg) (si_Voting si) bin w1 =
      addMemberAndStart api ?m (ec_MyIPs ?cfg) (si_Voting si) bin v"
    and same: "etcd v = etcd w1" "env v = env ?w" "startable v = startable ?w" "procs v = procs ?w"
    using si(2) w1 by (cases rule: DirExists_cases [where 'e = join_error and f = "fs w1" and p = "member_dir ?m"])
      (auto simp: handleMemberJoin_def)
  obtain m w where j: "addMemberAndStart api ?m (ec_MyIPs ?cfg) (si_Voting si) bin v = (GoOk (length (procs v)), w)"
    and m: "members (etcd w) = ?ms @ [m]" "m_ID m \<noteq> 0" "m_ID m \<notin> m_ID ` set ?ms" "m_Name m = ec_PodName ?cfg"
      "set (m_PeerURLs m) = set ?us" "\<not> m_IsLearner m"
    and pr: "procs w = procs v @ [\<lparr>proc_bin = bin, proc_env = env w, proc_sigterm = False\<rparr>]"
    using joins [OF same(1-3)] by blast
  have "JoinExistingCluster api ?m (ec_MyIPs ?cfg) {} bin ?w = (GoOk (length (procs v)), w)"
    using l(1) si(1) v j by (simp add: JoinExistingCluster_def)
  moreover obtain info where "DiscoverEndpoints (it_order (st_iter p)) (it_disc (st_iter p)) (discovery_config ?cfg) = Inr info"
    "DeadNames info = {}" "GetClient (key_pair (it_disc (st_iter p))) (it_client_ok (st_iter p)) ?m (ReadyNodes info) =
      GoOk (client_endpoints ?m (ReadyNodes info))" using found by (auto simp: finds_cluster_def split: sum.splits)
  moreover have "0 < length (ReadyNodes info)" using calculation(4) by (auto simp: GetClient_def split: if_splits)
  moreover have "it_events (st_iter p) = []" using prep by (simp add: pod_prepared_def Let_def)
  ultimately have "start_pod api bin p e = (LoopEnds WaitPending, w)"
    by (simp add: start_pod_def run_iteration_def join_branch_def after_wait_def)
  moreover have "consists_of (qs @ [p]) (members (etcd w))" using before(1) m by (simp add: consists_of_def)
  ultimately show ?thesis using pr same(4) by (simp add: serving_etcd_def)
qed

text \<open>The pods that come after the first ones \<open>qs\<close>.\<close>

lemma forms_from:
  assumes "etcd_serves api members" and "consists_of qs (members e)" "qs \<noteq> []"
    and "\<forall>p \<in> set (qs @ ps). pod_prepared bin p" and "\<forall>p \<in> set ps. finds_cluster p"
    and "distinct (map (ec_PodName \<circ> st_cfg) (qs @ ps))" and "distinct (concat (map (own_urls \<circ> st_cfg) (qs @ ps)))"
    and "length (qs @ ps) < 2 ^ 63" and "form_cluster api bin ps e = (rs, e')"
  shows "consists_of (qs @ ps) (members e') \<and> list_all2 (serving_etcd bin) ps rs"
  using assms(2-)
proof (induction ps arbitrary: qs e rs e')
  case (Cons p ps)
  have "\<forall>q \<in> set qs. ec_PodName (st_cfg q) \<noteq> ec_PodName (st_cfg p) \<and>
      set (own_urls (st_cfg q)) \<inter> set (own_urls (st_cfg p)) = {}"
    using Cons.prems(5,6) by (force simp: image_iff)
  then obtain w where run: "start_pod api bin p e = (LoopEnds WaitPending, w)" "consists_of (qs @ [p]) (members (etcd w))"
    "serving_etcd bin p (LoopEnds WaitPending, w)"
    using join_run [OF assms(1), of bin p qs e] Cons.prems(1-5,7) by auto
  obtain rs' where rest: "form_cluster api bin ps (etcd w) = (rs', e')" "rs = (LoopEnds WaitPending, w) # rs'"
    using Cons.prems(8) run(1) by (auto split: prod.splits)
  have "consists_of ((qs @ [p]) @ ps) (members e') \<and> list_all2 (serving_etcd bin) ps rs'"
    by (rule Cons.IH [OF run(2) _ _ _ _ _ _ rest(1)]) (use Cons.prems in simp_all)
  then show ?case using run(3) rest(2) by simp
qed simp

lemma cluster_forms_prepared:
  assumes "etcd_serves api members"
    and "\<forall>p \<in> set (p0 # ps). pod_prepared bin p"
    and "finds_nobody p0" and "\<forall>p \<in> set ps. finds_cluster p"
    and "distinct (map (ec_PodName \<circ> st_cfg) (p0 # ps))"
    and "distinct (concat (map (own_urls \<circ> st_cfg) (p0 # ps)))"
    and "length (p0 # ps) < 2 ^ 63"
    and "form_cluster api bin (p0 # ps) e = (rs, e')"
  shows "map (\<lambda>m. (m_Name m, set (m_PeerURLs m), m_IsLearner m)) (members e') =
      map (\<lambda>p. (ec_PodName (st_cfg p), set (own_urls (st_cfg p)), False)) (p0 # ps) \<and>
    distinct (map m_ID (members e')) \<and> list_all2 (serving_etcd bin) (p0 # ps) rs"
proof -
  obtain w where run: "start_pod api bin p0 e = (LoopEnds WaitPending, w)" "consists_of [p0] (members (etcd w))"
    "serving_etcd bin p0 (LoopEnds WaitPending, w)"
    using bootstrap_run [OF assms(1) _ assms(3), of bin e] assms(2) by auto
  obtain rs' where rest: "form_cluster api bin ps (etcd w) = (rs', e')" "rs = (LoopEnds WaitPending, w) # rs'"
    using assms(8) run(1) by (auto split: prod.splits)
  have "consists_of ([p0] @ ps) (members e') \<and> list_all2 (serving_etcd bin) ps rs'"
    by (rule forms_from [OF assms(1) run(2) _ _ assms(4) _ _ _ rest(1)]) (use assms(2,5,6,7) in simp_all)
  then show ?thesis using run(3) rest(2) by (simp add: consists_of_def)
qed

text \<open>What \<open>main\<close> has prepared when it reaches the loop.\<close>

lemma main_network:
  assumes "cluster_main sp lookpath w = (Looping cfg bin, w')" and "\<And>xs. mset (sp_order sp xs) = mset xs"
  shows "env w' ''ETCD_NAME'' = Some (ec_PodName cfg)"
    and "env w' ''ETCD_INITIAL_ADVERTISE_PEER_URLS'' = Some (join '','' (urls_for (ec_PeerPort cfg) (ec_MyIPs cfg)))"
    and "startable w' = startable w"
proof -
  note init = cluster_main_looping(2) [OF assms(1)]
  obtain info f m where i: "ExtractNetworkInfo (sp_host sp) (network_config cfg) = Inr info"
    and s: "SetupEnvironment (sp_order sp) (init_env_config cfg info) (env w) = (None, m)" and w': "w' = w\<lparr>fs := f, env := m\<rparr>"
    using init by (auto simp: initializeEnvironment_def split: if_splits prod.splits bool.splits option.splits sum.splits)
  have "config_ok (sp_host sp) cfg" by (rule loadConfig_config_ok(1) [OF cluster_main_looping(1) [OF assms(1)]])
  then have urls: "ni_PeerURLs info = urls_for (ec_PeerPort cfg) (ec_MyIPs cfg)"
    using i by (simp add: ExtractNetworkInfo_Inr network_config_def config_ok_def)
  have e: "env w' k = (case map_of (env_vars (init_env_config cfg info)) k of None \<Rightarrow> env w k | Some v \<Rightarrow> Some v)" for k
    using SetupEnvironment_ok [OF s assms(2)] w' by simp
  show "env w' ''ETCD_NAME'' = Some (ec_PodName cfg)"
    unfolding e by (simp add: env_vars_def) (simp add: init_env_config_def)
  show "env w' ''ETCD_INITIAL_ADVERTISE_PEER_URLS'' = Some (join '','' (urls_for (ec_PeerPort cfg) (ec_MyIPs cfg)))"
    unfolding e urls [symmetric] by (simp add: env_vars_def) (simp add: init_env_config_def)
  show "startable w' = startable w" using w' by simp
qed

lemma loadConfig_names:
  assumes "loadConfig genv f h = GoOk c"
  shows "ec_PodName c = genv ''POD_NAME''" and "ec_PeerPort c = getEnvOrDefault genv ''PEER_PORT'' ''2480''"
proof -
  obtain m where "finish_config f h (env_config genv\<lparr>ec_Max := m, ec_Interfaces := parse_interfaces (genv ''INTERFACES'')\<rparr>) = GoOk c"
    using assms by (auto simp: loadConfig_def Let_def gores_bind_GoOk split: if_splits option.splits)
  then show "ec_PodName c = genv ''POD_NAME''" and "ec_PeerPort c = getEnvOrDefault genv ''PEER_PORT'' ''2480''"
    by (rule finish_config_ok; simp add: env_config_def)+
qed

lemma GetInterfaceIP_comma:
  assumes "GetInterfaceIP h n = Inr ip"
  shows "no_comma ip"
proof -
  obtain as where "first_ipv4 as = Some ip"
    using assms by (auto simp: GetInterfaceIP_def split: iface_result.splits option.splits)
  then obtain b where "ip = ipv4_string b" using first_ipv4_Some by blast
  then show ?thesis using ipv4_string_chars [of "CHR '',''" b] by (auto simp: is_digit_def)
qed

lemma rights_member: "x \<in> set (rights xs) \<Longrightarrow> Inr x \<in> set xs"
  by (induction xs rule: rights.induct) auto

lemma boots_prepared:
  assumes "boots bin b p"
  shows "pod_prepared bin p"
proof -
  let ?sp = "bt_params b" and ?w = "bt_world b" and ?cfg = "st_cfg p"
  have main: "cluster_main ?sp (\<lambda>path. Some bin) ?w = (Looping ?cfg bin, st_world p)" and order: "\<And>xs. mset (sp_order ?sp xs) = mset xs"
    using assms by (simp_all add: boots_def)
  note load = cluster_main_looping(1) [OF main]
  have ok: "ec_PodName ?cfg \<noteq> []" "ec_MyIPs ?cfg \<noteq> []" "ec_MyIPs ?cfg = iface_ips (sp_host ?sp) (ec_Interfaces ?cfg)"
    using loadConfig_config_ok(1) [OF load] unfolding config_ok_def by blast+
  have port: "ec_PeerPort ?cfg \<noteq> []" "no_comma (ec_PeerPort ?cfg)" "no_comma (ec_PodName ?cfg)"
    using assms by (simp_all add: loadConfig_names [OF load] getEnvOrDefault_def boots_def)
  have "no_comma ip" if "ip \<in> set (ec_MyIPs ?cfg)" for ip
  proof -
    have "Inr ip \<in> GetInterfaceIP (sp_host ?sp) ` set (ec_Interfaces ?cfg)"
      using rights_member that unfolding ok(3) iface_ips_def by (metis set_map)
    then show ?thesis using GetInterfaceIP_comma by auto
  qed
  then show ?thesis
    using assms main_network [OF main order] ok(1,2) port by (simp add: pod_prepared_def boots_def urls_for_def Let_def)
qed

section \<open>Properties\<close>


text \<open>
  An etcd cluster for the witness: names, URLs and learner flags, the IDs being the positions, and
  a counter that makes it refuse two promotions of three.
\<close>

type_synonym roster = "(string \<times> string list \<times> bool) list \<times> nat"

definition roster_members :: "roster \<Rightarrow> member list" where
  "roster_members e = map (\<lambda>(j, n, us, l). \<lparr>m_ID = of_nat (Suc j), m_Name = n, m_PeerURLs = us, m_IsLearner = l\<rparr>)
     (enumerate 0 (fst e))"

definition roster_add :: "bool \<Rightarrow> string list \<Rightarrow> roster \<Rightarrow> add_resp option \<times> roster" where
  "roster_add l us e =
     (let e' = (fst e @ [([], us, l)], snd e)
      in (Some \<lparr>ar_ID = of_nat (Suc (length (fst e))), ar_Members = roster_members e'\<rparr>, e'))"

definition roster_started :: "(string \<rightharpoonup> string) \<Rightarrow> roster \<Rightarrow> roster" where
  "roster_started v e =
     (let n = getenv v ''ETCD_NAME''; us = split_on CHR '','' (getenv v ''ETCD_INITIAL_ADVERTISE_PEER_URLS'')
      in if v ''ETCD_INITIAL_CLUSTER_STATE'' = Some ''new'' then ([(n, us, False)], snd e)
         else (map (\<lambda>(n', us', l). if set us' = set us then (n, us', l) else (n', us', l)) (fst e), snd e))"

definition roster_api :: "roster etcd_api" where
  "roster_api = \<lparr>api_list = (\<lambda>e. (Some (roster_members e), e)), api_remove = (\<lambda>i e. (False, e)),
     api_add = roster_add False, api_add_learner = roster_add True,
     api_promote = (\<lambda>i e. if snd e mod 3 = 0
       then (True, map (\<lambda>(j, n, us, l). (n, us, l \<and> of_nat (Suc j) \<noteq> i)) (enumerate 0 (fst e)), snd e)
       else (False, fst e, Suc (snd e))),
     api_started = roster_started\<rparr>"

lemma roster_nth:
  "length (roster_members e) = length (fst e)"
  "j < length (fst e) \<Longrightarrow> roster_members e ! j = (case fst e ! j of (n, us, l) \<Rightarrow>
     \<lparr>m_ID = of_nat (Suc j), m_Name = n, m_PeerURLs = us, m_IsLearner = l\<rparr>)"
  by (simp_all add: roster_members_def nth_enumerate_eq split: prod.split)

lemma roster_serves: "etcd_serves roster_api roster_members"
proof -
  have add: "added roster_members us l e (roster_add l us e)" if "accepts_member (roster_members e) us" for us l e
  proof -
    let ?n = "length (fst e)"
    have n: "?n < 2 ^ 63" using that by (simp add: accepts_member_def roster_nth)
    have id: "unat (of_nat k :: 64 word) = k" if "k < 2 ^ 64" for k using that by (simp add: unat_of_nat)
    have inj: "(of_nat (Suc j) :: 64 word) \<noteq> of_nat (Suc ?n)" if "j < ?n" for j
    proof
      assume "(of_nat (Suc j) :: 64 word) = of_nat (Suc ?n)"
      then have "unat (of_nat (Suc j) :: 64 word) = unat (of_nat (Suc ?n) :: 64 word)" by (rule arg_cong)
      then show False using id [of "Suc j"] id [of "Suc ?n"] that n by (simp del: of_nat_Suc)
    qed
    have "unat (of_nat (Suc ?n) :: 64 word) \<noteq> 0" using id [of "Suc ?n"] n by (simp del: of_nat_Suc)
    then have "(of_nat (Suc ?n) :: 64 word) \<noteq> 0" by (metis unat_0)
    moreover have "(of_nat (Suc ?n) :: 64 word) \<notin> m_ID ` set (roster_members e)"
      using inj by (auto simp: in_set_conv_nth roster_nth split: prod.splits) metis
    ultimately show ?thesis
      by (auto simp: added_def roster_add_def Let_def roster_members_def enumerate_append_eq)
  qed
  have flip: "roster_members (snd (api_promote roster_api i e)) =
      (if fst (api_promote roster_api i e) then promoted i (roster_members e) else roster_members e)" for e i
  proof (cases "snd e mod 3 = 0")
    case True
    then show ?thesis
      by (intro nth_equalityI) (auto simp: roster_api_def promoted_def roster_nth nth_enumerate_eq split: prod.split)
  next
    case False
    then show ?thesis by (simp add: roster_api_def roster_members_def)
  qed
  have third: "\<exists>k < 100. fst (api_promote roster_api i (refused roster_api i k e))" for e i
  proof -
    have step: "fst (api_promote roster_api i x) \<or> snd (snd (api_promote roster_api i x)) = Suc (snd x)" for x
      by (simp add: roster_api_def)
    have ok: "snd x mod 3 = 0 \<Longrightarrow> fst (api_promote roster_api i x)" for x by (simp add: roster_api_def)
    have "snd e mod 3 = 0 \<or> Suc (snd e) mod 3 = 0 \<or> Suc (Suc (snd e)) mod 3 = 0" by presburger
    then show ?thesis
    proof (elim disjE)
      assume 1: "snd e mod 3 = 0"
      show ?thesis using 1 ok [of e] by (intro exI [of _ 0]) (simp add: refused_def)
    next
      assume 2: "Suc (snd e) mod 3 = 0"
      show ?thesis using 2 step [of e] ok [of e] ok [of "refused roster_api i 1 e"]
        by (cases "fst (api_promote roster_api i e)") (auto simp: refused_def intro: exI [of _ 0] exI [of _ 1])
    next
      assume 3: "Suc (Suc (snd e)) mod 3 = 0"
      let ?x = "refused roster_api i 1 e"
      show ?thesis
      proof (cases "fst (api_promote roster_api i e) \<or> fst (api_promote roster_api i ?x)")
        case True
        then show ?thesis by (auto simp: refused_def intro: exI [of _ 0] exI [of _ 1])
      next
        case False
        then have "snd (refused roster_api i 2 e) = Suc (Suc (snd e))"
          using step [of e] step [of ?x] by (simp add: refused_def numeral_2_eq_2)
        then show ?thesis using ok [of "refused roster_api i 2 e"] 3 by (intro exI [of _ 2]) simp
      qed
    qed
  qed
  have old: "roster_members (roster_started v e) = named n (set (split_on CHR '','' us)) (roster_members e)"
    if "v ''ETCD_INITIAL_CLUSTER_STATE'' = Some ''existing''" "v ''ETCD_NAME'' = Some n"
      "v ''ETCD_INITIAL_ADVERTISE_PEER_URLS'' = Some us" for v e n us
    using that by (intro nth_equalityI)
      (auto simp: roster_started_def named_def roster_nth getenv_def Let_def split: prod.split)
  have new: "\<exists>m. roster_members (roster_started v e) = [m] \<and> m_ID m \<noteq> 0 \<and> m_Name m = n \<and> \<not> m_IsLearner m \<and>
      mset (m_PeerURLs m) = mset (split_on CHR '','' us)"
    if "v ''ETCD_INITIAL_CLUSTER_STATE'' = Some ''new''" "v ''ETCD_NAME'' = Some n"
      "v ''ETCD_INITIAL_ADVERTISE_PEER_URLS'' = Some us" for v e n us
    using that by (simp add: roster_started_def roster_members_def getenv_def Let_def)
  show ?thesis
    unfolding etcd_serves_def
  proof (intro conjI)
    show "\<forall>e. fst (api_list roster_api e) = Some (roster_members e) \<and> roster_members (snd (api_list roster_api e)) = roster_members e"
      by (simp add: roster_api_def)
    show "\<forall>e us. accepts_member (roster_members e) us \<longrightarrow>
        added roster_members us False e (api_add roster_api us e) \<and> added roster_members us True e (api_add_learner roster_api us e)"
      using add by (simp add: roster_api_def)
  qed (use flip third old new in \<open>auto simp: roster_api_def\<close>)
qed

text \<open>Three pods, started by \<open>main\<close>: the first finds nobody, the others an etcd.\<close>

definition boot_of :: "string \<Rightarrow> nat \<Rightarrow> (nat, nat, roster) boot" where
  "boot_of n k = \<lparr>bt_params = start_demo\<lparr>sp_host := \<lparr>iface = (\<lambda>i. if i = ''eth0'' then Addrs [IPNetAddr [10, 0, 0, k] 24 32] else NoIface),
       iface_names = None\<rparr>\<rparr>,
     bt_world = \<lparr>env = (\<lambda>v. if v = ''POD_NAME'' then Some n else if demo_genv ''3'' v = [] then None else Some (demo_genv ''3'' v)),
       fs = fs start_world, procs = [], startable = (\<lambda>b. True), etcd = ([], 1), calls = []\<rparr>\<rparr>"

definition booted :: "(nat, nat, roster) boot \<Rightarrow> disc_env \<Rightarrow> roster starting" where
  "booted b d =
     (case cluster_main (bt_params b) (\<lambda>path. Some ''etcd'') (bt_world b) of (r, w) \<Rightarrow>
        \<lparr>st_cfg = (case r of Looping cfg bin \<Rightarrow> cfg | _ \<Rightarrow> env_config (\<lambda>k. [])), st_iter = loop_iter d [], st_world = w\<rparr>)"

definition up_env :: disc_env where
  "up_env = demo_env\<lparr>files := \<lparr>node = (\<lambda>p. if p = [''/d'', ''10.0.0.7''] then RegFile ''10.0.0.1'' else Absent),
     sticky = (\<lambda>p. False)\<rparr>\<rparr>"

lemma booted_facts:
  assumes "case cluster_main (bt_params (boot_of n k)) (\<lambda>path. Some ''etcd'') (bt_world (boot_of n k)) of
    (Looping cfg bin, w) \<Rightarrow> bin = ''etcd'' \<and> node (fs w) [ec_DataDir cfg, ''member''] = Absent \<and>
      ec_PodName cfg = n \<and> own_urls cfg = us \<and> found \<lparr>st_cfg = cfg, st_iter = loop_iter d [], st_world = w\<rparr> | _ \<Rightarrow> False"
    and "no_comma n"
  shows "boots ''etcd'' (boot_of n k) (booted (boot_of n k) d)" and "found (booted (boot_of n k) d)"
    and "ec_PodName (st_cfg (booted (boot_of n k) d)) = n" and "own_urls (st_cfg (booted (boot_of n k) d)) = us"
proof -
  obtain cfg w where run: "cluster_main (bt_params (boot_of n k)) (\<lambda>path. Some ''etcd'') (bt_world (boot_of n k)) = (Looping cfg ''etcd'', w)"
    "node (fs w) [ec_DataDir cfg, ''member''] = Absent" and rest: "ec_PodName cfg = n" "own_urls cfg = us"
    "found \<lparr>st_cfg = cfg, st_iter = loop_iter d [], st_world = w\<rparr>"
    using assms(1) by (auto split: prod.splits main_result.splits)
  moreover have "(\<forall>xs. mset (sp_order (bt_params (boot_of n k)) xs) = mset xs) \<and> startable (bt_world (boot_of n k)) ''etcd'' \<and>
      no_comma (getenv (env (bt_world (boot_of n k))) ''POD_NAME'') \<and> no_comma (getenv (env (bt_world (boot_of n k))) ''PEER_PORT'')"
    using assms(2) by (simp add: boot_of_def start_demo_def getenv_def demo_genv_def)
  ultimately show "boots ''etcd'' (boot_of n k) (booted (boot_of n k) d)" by (simp add: boots_def booted_def loop_iter_def)
  show "found (booted (boot_of n k) d)" "ec_PodName (st_cfg (booted (boot_of n k) d)) = n"
    "own_urls (st_cfg (booted (boot_of n k) d)) = us"
    using run(1) rest by (simp_all add: booted_def)
qed


end
