(* ===== verification/Cert_Secret.thy ===== *)
theory Cert_Secret
  imports Go_Net
begin

text \<open>
  \<open>pkg/cert/ca.go\<close>, \<open>member.go\<close> and \<open>secret.go\<close>: the CA and the client certificates, and their
  secrets. The cryptography of Go's library is a parameter (the record \<open>pki\<close>); a parsed
  certificate is represented by its DER bytes. Randomness (a generated key, a serial number) is
  an argument; \<open>None\<close> is a failure to obtain it. The Kubernetes API for secrets is a parameter
  (the record \<open>secret_api\<close> over an arbitrary state). Go's \<open>[]byte\<close> values are strings.
\<close>

section \<open>Certificates\<close>

record template =
  t_CommonName :: string
  t_Organization :: string
  t_ValidityYears :: int
  t_KeyUsage :: "key_usage list"
  t_ExtKeyUsage :: "ext_key_usage list"
  t_BasicConstraintsValid :: bool
  t_IsCA :: bool
  t_MaxPathLen :: nat
  t_DNSNames :: "string list"
  t_IPAddresses :: "nat list list"

text \<open>
  \<open>pem_decode\<close> yields the type and the bytes of the first block. \<open>parse_pkcs8\<close> distinguishes an
  error (\<open>None\<close>), a key of another kind (\<open>Some None\<close>) and an ECDSA key. \<open>create_cert\<close> takes the
  template, the serial number, the subject's key and, unless self-signed, the issuer's
  certificate and key.
\<close>

record 'k pki =
  pem_decode :: "string \<Rightarrow> (string \<times> string) option"
  pem_encode :: "string \<Rightarrow> string \<Rightarrow> string"
  parse_cert :: "string \<Rightarrow> bool"
  parse_ec :: "string \<Rightarrow> 'k option"
  parse_pkcs8 :: "string \<Rightarrow> 'k option option"
  marshal_ec :: "'k \<Rightarrow> string option"
  create_cert :: "template \<Rightarrow> nat \<Rightarrow> 'k \<Rightarrow> (string \<times> 'k) option \<Rightarrow> string option"
  verify_cert :: "string \<Rightarrow> string \<Rightarrow> bool"
  not_after :: "string \<Rightarrow> string"

record CAConfig =
  ca_CommonName :: string
  ca_Organization :: string
  ca_ValidityYears :: int

text \<open>\<open>CACertificate\<close> and \<open>ClientCertificate\<close> have the same fields.\<close>

record 'k CACertificate =
  Certificate :: string
  PrivateKey :: 'k
  CertPEM :: string
  KeyPEM :: string

datatype cert_error =
  KeyNotGenerated | SerialNotGenerated | CertNotCreated | CertNotParsed | KeyNotMarshalled
| BadCertPEM | BadKeyPEM | KeyNotParsed | KeyNotECDSA | UnsupportedKeyType string
| SecretNotRead | SecretMissingKey string | SecretNotCreated | SecretNotUpdated | SecretNotDeleted
| NoExpiryAnnotation | BadExpiryAnnotation

text \<open>The common second half of both generators: parse what was created and encode it.\<close>

definition finish_cert :: "'k pki \<Rightarrow> 'k \<Rightarrow> string option \<Rightarrow> cert_error + 'k CACertificate" where
  "finish_cert p key created =
     (case created of
        None \<Rightarrow> Inl CertNotCreated
      | Some der \<Rightarrow>
          (if \<not> parse_cert p der then Inl CertNotParsed
           else (case marshal_ec p key of
                   None \<Rightarrow> Inl KeyNotMarshalled
                 | Some keyBytes \<Rightarrow>
                     Inr \<lparr>Certificate = der, PrivateKey = key, CertPEM = pem_encode p ''CERTIFICATE'' der,
                       KeyPEM = pem_encode p ''EC PRIVATE KEY'' keyBytes\<rparr>)))"

definition ca_template :: "CAConfig \<Rightarrow> template" where
  "ca_template cfg =
     \<lparr>t_CommonName = ca_CommonName cfg, t_Organization = ca_Organization cfg,
      t_ValidityYears = ca_ValidityYears cfg, t_KeyUsage = [CertSign, CRLSign, DigitalSignature],
      t_ExtKeyUsage = [], t_BasicConstraintsValid = True, t_IsCA = True, t_MaxPathLen = 2,
      t_DNSNames = [], t_IPAddresses = []\<rparr>"

definition GenerateCA ::
    "'k pki \<Rightarrow> CAConfig \<Rightarrow> 'k option \<Rightarrow> nat option \<Rightarrow> cert_error + 'k CACertificate" where
  "GenerateCA p cfg key serial =
     (case key of
        None \<Rightarrow> Inl KeyNotGenerated
      | Some k \<Rightarrow>
          (case serial of
             None \<Rightarrow> Inl SerialNotGenerated
           | Some n \<Rightarrow>
               finish_cert p k (create_cert p (ca_template cfg) n k None)))"

definition loadCertAndKey :: "'k pki \<Rightarrow> string \<Rightarrow> string \<Rightarrow> cert_error + string \<times> 'k" where
  "loadCertAndKey p certPEM keyPEM =
     (case pem_decode p certPEM of
        None \<Rightarrow> Inl BadCertPEM
      | Some (ct, der) \<Rightarrow>
          (if \<not> parse_cert p der then Inl CertNotParsed
           else (case pem_decode p keyPEM of
                   None \<Rightarrow> Inl BadKeyPEM
                 | Some (kt, bytes) \<Rightarrow>
                     (if kt = ''EC PRIVATE KEY'' then
                        (case parse_ec p bytes of None \<Rightarrow> Inl KeyNotParsed | Some k \<Rightarrow> Inr (der, k))
                      else if kt = ''PRIVATE KEY'' then
                        (case parse_pkcs8 p bytes of
                           None \<Rightarrow> Inl KeyNotParsed
                         | Some None \<Rightarrow> Inl KeyNotECDSA
                         | Some (Some k) \<Rightarrow> Inr (der, k))
                      else Inl (UnsupportedKeyType kt)))))"

definition LoadCA :: "'k pki \<Rightarrow> string \<Rightarrow> string \<Rightarrow> cert_error + 'k CACertificate" where
  "LoadCA p certPEM keyPEM =
     (case loadCertAndKey p certPEM keyPEM of
        Inl e \<Rightarrow> Inl e
      | Inr (der, k) \<Rightarrow> Inr \<lparr>Certificate = der, PrivateKey = k, CertPEM = certPEM, KeyPEM = keyPEM\<rparr>)"

record ClientCertConfig =
  cl_CommonName :: string
  cl_Organization :: string
  cl_DNSNames :: "string list"
  cl_IPAddresses :: "string list"
  cl_ValidityYears :: int

text \<open>The addresses that do not parse are left out; no constraint on the path length is the value 0.\<close>

definition client_template :: "ClientCertConfig \<Rightarrow> template" where
  "client_template cfg =
     \<lparr>t_CommonName = cl_CommonName cfg, t_Organization = cl_Organization cfg,
      t_ValidityYears = cl_ValidityYears cfg, t_KeyUsage = [KeyEncipherment, DigitalSignature],
      t_ExtKeyUsage = [ServerAuth, ClientAuth], t_BasicConstraintsValid = True, t_IsCA = False, t_MaxPathLen = 0,
      t_DNSNames = cl_DNSNames cfg,
      t_IPAddresses = List.map_filter (\<lambda>ipStr. parse_ip (trim_space ipStr)) (cl_IPAddresses cfg)\<rparr>"

definition GenerateClientCert ::
    "'k pki \<Rightarrow> 'k CACertificate \<Rightarrow> ClientCertConfig \<Rightarrow> 'k option \<Rightarrow> nat option \<Rightarrow> cert_error + 'k CACertificate" where
  "GenerateClientCert p ca cfg key serial =
     (case key of
        None \<Rightarrow> Inl KeyNotGenerated
      | Some k \<Rightarrow>
          (case serial of
             None \<Rightarrow> Inl SerialNotGenerated
           | Some n \<Rightarrow>
               finish_cert p k (create_cert p (client_template cfg) n k (Some (Certificate ca, PrivateKey ca)))))"

definition LoadClientCert :: "'k pki \<Rightarrow> string \<Rightarrow> string \<Rightarrow> cert_error + 'k CACertificate" where
  "LoadClientCert p certPEM keyPEM =
     (case loadCertAndKey p certPEM keyPEM of
        Inl e \<Rightarrow> Inl e
      | Inr (der, k) \<Rightarrow> Inr \<lparr>Certificate = der, PrivateKey = k, CertPEM = certPEM, KeyPEM = keyPEM\<rparr>)"

definition VerifyCertificate :: "'k pki \<Rightarrow> string \<Rightarrow> 'k CACertificate \<Rightarrow> bool" where
  "VerifyCertificate p c ca = verify_cert p (Certificate ca) c"

text \<open>Times and durations as numbers; \<open>time.Until(t)\<close> is \<open>t - now\<close>.\<close>

definition IsCertificateExpiringSoon :: "int \<Rightarrow> int \<Rightarrow> int \<Rightarrow> bool" where
  "IsCertificateExpiringSoon now notAfter threshold \<longleftrightarrow> notAfter - now < threshold"

section \<open>Secrets\<close>

type_synonym secret_key = "string \<times> string"

record secret =
  sec_Type :: string
  sec_Data :: "(string, string) gomap"
  sec_Annotations :: "(string, string) gomap option"
  sec_Labels :: "(string, string) gomap"

datatype sec_result = SecFound secret | SecNotFound | SecFailed
datatype sec_write = WriteOk | WriteNotFound | WriteFailed

record 'e secret_api =
  s_get :: "secret_key \<Rightarrow> 'e \<Rightarrow> sec_result \<times> 'e"
  s_create :: "secret_key \<Rightarrow> secret \<Rightarrow> 'e \<Rightarrow> sec_write \<times> 'e"
  s_update :: "secret_key \<Rightarrow> secret \<Rightarrow> 'e \<Rightarrow> sec_write \<times> 'e"
  s_delete :: "secret_key \<Rightarrow> 'e \<Rightarrow> sec_write \<times> 'e"

definition CACertKey :: string where "CACertKey = ''ca.pem''"
definition CAKeyKey :: string where "CAKeyKey = ''ca-key.pem''"
definition TLSCertKey :: string where "TLSCertKey = ''tls.crt''"
definition TLSPrivateKeyKey :: string where "TLSPrivateKeyKey = ''tls.key''"
definition AnnotationCreatedAt :: string where "AnnotationCreatedAt = ''etcdauto.io/cert-created-at''"
definition AnnotationExpiresAt :: string where "AnnotationExpiresAt = ''etcdauto.io/cert-expires-at''"
definition AnnotationRotationFlag :: string where
  "AnnotationRotationFlag = ''etcdauto.io/cert-rotation-enabled''"

definition secret_labels :: "string \<Rightarrow> (string, string) gomap" where
  "secret_labels component =
     [(''app.kubernetes.io/name'', ''etcd''), (''app.kubernetes.io/component'', component),
      (''app.kubernetes.io/managed-by'', ''etcdauto'')]"

definition ca_data :: "'k CACertificate \<Rightarrow> (string, string) gomap" where
  "ca_data ca = [(CACertKey, CertPEM ca), (CAKeyKey, KeyPEM ca)]"

text \<open>The first of the keys that the data lacks.\<close>

fun missing_key :: "string list \<Rightarrow> (string, string) gomap \<Rightarrow> string option" where
  "missing_key [] d = None"
| "missing_key (k # ks) d = (if map_of d k = None then Some k else missing_key ks d)"

text \<open>\<open>now\<close> is the formatted current time.\<close>

definition EnsureCASecret ::
    "'k pki \<Rightarrow> 'e secret_api \<Rightarrow> string \<Rightarrow> string \<Rightarrow> string \<Rightarrow> 'k CACertificate \<Rightarrow> 'e \<Rightarrow> cert_error option \<times> 'e" where
  "EnsureCASecret p api now ns name ca e =
     (case s_get api (ns, name) e of
        (SecFound existing, e1) \<Rightarrow>
          (map_option SecretMissingKey (missing_key [CACertKey, CAKeyKey] (sec_Data existing)), e1)
      | (SecFailed, e1) \<Rightarrow> (Some SecretNotRead, e1)
      | (SecNotFound, e1) \<Rightarrow>
          (case s_create api (ns, name)
             \<lparr>sec_Type = ''Opaque'', sec_Data = ca_data ca,
              sec_Annotations = Some [(AnnotationCreatedAt, now),
                (AnnotationExpiresAt, not_after p (Certificate ca)), (AnnotationRotationFlag, ''false'')],
              sec_Labels = secret_labels ''ca-certificate''\<rparr> e1 of
             (WriteOk, e2) \<Rightarrow> (None, e2)
           | (WriteNotFound, e2) \<Rightarrow> (Some SecretNotCreated, e2)
           | (WriteFailed, e2) \<Rightarrow> (Some SecretNotCreated, e2)))"

definition client_data :: "'k CACertificate \<Rightarrow> 'k CACertificate \<Rightarrow> (string, string) gomap" where
  "client_data ca client =
     [(CACertKey, CertPEM ca), (TLSCertKey, CertPEM client), (TLSPrivateKeyKey, KeyPEM client)]"

definition EnsureClientSecret ::
    "'k pki \<Rightarrow> 'e secret_api \<Rightarrow> string \<Rightarrow> string \<Rightarrow> string \<Rightarrow> 'k CACertificate \<Rightarrow> 'k CACertificate \<Rightarrow> 'e
      \<Rightarrow> cert_error option \<times> 'e" where
  "EnsureClientSecret p api now ns name ca client e =
     (case s_get api (ns, name) e of
        (SecFound existing, e1) \<Rightarrow>
          (map_option SecretMissingKey (missing_key [TLSCertKey, TLSPrivateKeyKey] (sec_Data existing)), e1)
      | (SecFailed, e1) \<Rightarrow> (Some SecretNotRead, e1)
      | (SecNotFound, e1) \<Rightarrow>
          (case s_create api (ns, name)
             \<lparr>sec_Type = ''kubernetes.io/tls'', sec_Data = client_data ca client,
              sec_Annotations = Some [(AnnotationCreatedAt, now),
                (AnnotationExpiresAt, not_after p (Certificate client)), (AnnotationRotationFlag, ''false'')],
              sec_Labels = secret_labels ''client-certificate''\<rparr> e1 of
             (WriteOk, e2) \<Rightarrow> (None, e2)
           | (WriteNotFound, e2) \<Rightarrow> (Some SecretNotCreated, e2)
           | (WriteFailed, e2) \<Rightarrow> (Some SecretNotCreated, e2)))"

definition mapsEqual :: "(string, string) gomap \<Rightarrow> (string, string) gomap \<Rightarrow> bool" where
  "mapsEqual a b =
     (if length a \<noteq> length b then False else list_all (\<lambda>(k, v). map_of b k = Some v) a)"

definition CopyCASecretData ::
    "'e secret_api \<Rightarrow> string \<Rightarrow> string \<Rightarrow> string \<Rightarrow> (string, string) gomap \<Rightarrow> (string, string) gomap \<Rightarrow> 'e
      \<Rightarrow> cert_error option \<times> 'e" where
  "CopyCASecretData api now ns name d annotations e =
     (case s_get api (ns, name) e of
        (SecFound existing, e1) \<Rightarrow>
          (if mapsEqual (sec_Data existing) d then (None, e1)
           else (case s_update api (ns, name) (existing\<lparr>sec_Data := d\<rparr>) e1 of
                   (WriteOk, e2) \<Rightarrow> (None, e2)
                 | (WriteNotFound, e2) \<Rightarrow> (Some SecretNotUpdated, e2)
                 | (WriteFailed, e2) \<Rightarrow> (Some SecretNotUpdated, e2)))
      | (SecFailed, e1) \<Rightarrow> (Some SecretNotRead, e1)
      | (SecNotFound, e1) \<Rightarrow>
          (case s_create api (ns, name)
             \<lparr>sec_Type = ''Opaque'', sec_Data = d,
              sec_Annotations = Some (fold (\<lambda>(k, v) m. AList.update k v m) annotations
                [(AnnotationCreatedAt, now), (AnnotationRotationFlag, ''false'')]),
              sec_Labels = secret_labels ''ca-certificate''\<rparr> e1 of
             (WriteOk, e2) \<Rightarrow> (None, e2)
           | (WriteNotFound, e2) \<Rightarrow> (Some SecretNotCreated, e2)
           | (WriteFailed, e2) \<Rightarrow> (Some SecretNotCreated, e2)))"

definition LoadCAFromSecret ::
    "'k pki \<Rightarrow> 'e secret_api \<Rightarrow> string \<Rightarrow> string \<Rightarrow> 'e \<Rightarrow> (cert_error + 'k CACertificate) \<times> 'e" where
  "LoadCAFromSecret p api ns name e =
     (case s_get api (ns, name) e of
        (SecFound s, e1) \<Rightarrow>
          ((case map_of (sec_Data s) CACertKey of
              None \<Rightarrow> Inl (SecretMissingKey CACertKey)
            | Some certPEM \<Rightarrow>
                (case map_of (sec_Data s) CAKeyKey of
                   None \<Rightarrow> Inl (SecretMissingKey CAKeyKey)
                 | Some keyPEM \<Rightarrow> LoadCA p certPEM keyPEM)), e1)
      | (SecNotFound, e1) \<Rightarrow> (Inl SecretNotRead, e1)
      | (SecFailed, e1) \<Rightarrow> (Inl SecretNotRead, e1))"

text \<open>
  The two rotation functions, which nothing calls yet. \<open>parse_time\<close> reads an RFC 3339 time as
  seconds, \<open>now\<close> is the current time.
\<close>

definition CheckCertificateRotationNeeded ::
    "'e secret_api \<Rightarrow> (string \<Rightarrow> int option) \<Rightarrow> int \<Rightarrow> string \<Rightarrow> string \<Rightarrow> int \<Rightarrow> 'e \<Rightarrow> (cert_error + bool) \<times> 'e" where
  "CheckCertificateRotationNeeded api parse_time now ns name threshold e =
     (case s_get api (ns, name) e of
        (SecFound s, e1) \<Rightarrow>
          (let ann = (case sec_Annotations s of None \<Rightarrow> [] | Some m \<Rightarrow> m) in
           if map_of ann AnnotationRotationFlag \<noteq> Some ''true'' then (Inr False, e1)
           else (case map_of ann AnnotationExpiresAt of
                   None \<Rightarrow> (Inl NoExpiryAnnotation, e1)
                 | Some t \<Rightarrow>
                     (case parse_time t of
                        None \<Rightarrow> (Inl BadExpiryAnnotation, e1)
                      | Some expiresAt \<Rightarrow> (Inr (expiresAt - now < threshold), e1))))
      | (SecNotFound, e1) \<Rightarrow> (Inl SecretNotRead, e1)
      | (SecFailed, e1) \<Rightarrow> (Inl SecretNotRead, e1))"

definition EnableCertificateRotation ::
    "'e secret_api \<Rightarrow> string \<Rightarrow> string \<Rightarrow> 'e \<Rightarrow> cert_error option \<times> 'e" where
  "EnableCertificateRotation api ns name e =
     (case s_get api (ns, name) e of
        (SecFound s, e1) \<Rightarrow>
          (let ann = (case sec_Annotations s of None \<Rightarrow> [] | Some m \<Rightarrow> m) in
           case s_update api (ns, name) (s\<lparr>sec_Annotations := Some (AList.update AnnotationRotationFlag ''true'' ann)\<rparr>) e1 of
             (WriteOk, e2) \<Rightarrow> (None, e2)
           | (WriteNotFound, e2) \<Rightarrow> (Some SecretNotUpdated, e2)
           | (WriteFailed, e2) \<Rightarrow> (Some SecretNotUpdated, e2))
      | (SecNotFound, e1) \<Rightarrow> (Some SecretNotRead, e1)
      | (SecFailed, e1) \<Rightarrow> (Some SecretNotRead, e1))"

end
