(* ===== verification/Secret_Sync.thy ===== *)
theory Secret_Sync
  imports Cert_Secret
begin

text \<open>
  \<open>pkg/controller/secret.go\<close>: the controller that owns the CA and keeps a valid client
  certificate in every configured namespace. The answers of its cached client are arguments of
  \<open>Reconcile\<close>; its writes go through the secret API of \<open>Cert_Secret\<close>. The field \<open>ca\<close> is nil
  until \<open>Start\<close> has set it, and using it before that panics.
\<close>

section \<open>Configuration\<close>

record CertConfig =
  Enabled :: bool
  CASecretName :: string
  CASecretNamespace :: string
  ClientSecretName :: string
  ClientSecretNamespaces :: "string list"
  ValidityYears :: int
  Organization :: string
  CommonName :: string
  clientSecretNamespaceSet :: "string set"

datatype cert_cfg_error = NoCASecretName | NoClientSecretName | NoClientNamespaces

text \<open>\<open>Valid\<close> also fills in defaults and the namespace set.\<close>

definition CertConfig_Valid :: "CertConfig \<Rightarrow> cert_cfg_error + CertConfig" where
  "CertConfig_Valid c =
     (if \<not> Enabled c then Inr c
      else if CASecretName c = [] then Inl NoCASecretName
      else if ClientSecretName c = [] then Inl NoClientSecretName
      else if length (ClientSecretNamespaces c) = 0 then Inl NoClientNamespaces
      else Inr (c\<lparr>ValidityYears := (if ValidityYears c \<le> 0 then 100 else ValidityYears c),
                  Organization := (if Organization c = [] then ''etcdauto'' else Organization c),
                  CommonName := (if CommonName c = [] then ''etcdauto-ca'' else CommonName c),
                  clientSecretNamespaceSet := set (ClientSecretNamespaces c)\<rparr>))"

datatype watched = NamespaceObject string | SecretObject string string | OtherObject

text \<open>The event filter, and the requests a namespace is mapped to.\<close>

fun secret_filter :: "CertConfig \<Rightarrow> watched \<Rightarrow> bool" where
  "secret_filter c (NamespaceObject n) = True"
| "secret_filter c (SecretObject ns n) = (n = ClientSecretName c \<and> ns \<in> clientSecretNamespaceSet c)"
| "secret_filter c OtherObject = False"

definition namespace_requests :: "CertConfig \<Rightarrow> string \<Rightarrow> secret_key list" where
  "namespace_requests c ns = (if ns \<in> clientSecretNamespaceSet c then [(ns, ClientSecretName c)] else [])"

record 'k SecretSync =
  sy_config :: CertConfig
  selfNamespace :: string
  sy_ca :: "'k CACertificate option"

definition NewSecretSync :: "CertConfig \<Rightarrow> string \<Rightarrow> 'k SecretSync option" where
  "NewSecretSync c self =
     (if \<not> Enabled c then None else Some \<lparr>sy_config = c, selfNamespace = self, sy_ca = None\<rparr>)"

text \<open>What a generation of a key and a serial number yields: the randomness of one run.\<close>

type_synonym 'k draw = "'k option \<times> nat option"

section \<open>The CA\<close>

definition syncCAToNamespace ::
    "'e secret_api \<Rightarrow> string \<Rightarrow> 'k SecretSync \<Rightarrow> 'k CACertificate \<Rightarrow> string \<Rightarrow> 'e \<Rightarrow> cert_error option \<times> 'e" where
  "syncCAToNamespace api now h ca target e =
     CopyCASecretData api now target (CASecretName (sy_config h)) (ca_data ca) [] e"

definition new_ca :: "'k pki \<Rightarrow> 'k SecretSync \<Rightarrow> 'k draw \<Rightarrow> cert_error + 'k CACertificate" where
  "new_ca p h d = GenerateCA p
     \<lparr>ca_CommonName = CommonName (sy_config h), ca_Organization = Organization (sy_config h),
      ca_ValidityYears = ValidityYears (sy_config h)\<rparr> (fst d) (snd d)"

text \<open>Generating a CA and ensuring its secret in a namespace.\<close>

definition create_ca ::
    "'k pki \<Rightarrow> 'e secret_api \<Rightarrow> string \<Rightarrow> 'k SecretSync \<Rightarrow> 'k draw \<Rightarrow> string \<Rightarrow> 'e
      \<Rightarrow> (cert_error + 'k CACertificate) \<times> 'e" where
  "create_ca p api now h d ns e =
     (case new_ca p h d of
        Inl err \<Rightarrow> (Inl err, e)
      | Inr ca \<Rightarrow>
          (case EnsureCASecret p api now ns (CASecretName (sy_config h)) ca e of
             (Some err, e1) \<Rightarrow> (Inl err, e1)
           | (None, e1) \<Rightarrow> (Inr ca, e1)))"

definition loadOrCreateCA ::
    "'k pki \<Rightarrow> 'e secret_api \<Rightarrow> string \<Rightarrow> 'k SecretSync \<Rightarrow> 'k draw \<Rightarrow> 'e
      \<Rightarrow> (cert_error + 'k CACertificate) \<times> 'e" where
  "loadOrCreateCA p api now h d e =
     (let caNamespace = CASecretNamespace (sy_config h);
          name = CASecretName (sy_config h);
          crossNamespace = (caNamespace \<noteq> selfNamespace h)
      in case LoadCAFromSecret p api caNamespace name e of
           (Inr ca, e1) \<Rightarrow>
             (if crossNamespace then
                (case syncCAToNamespace api now h ca (selfNamespace h) e1 of
                   (Some err, e2) \<Rightarrow> (Inl err, e2)
                 | (None, e2) \<Rightarrow> (Inr ca, e2))
              else (Inr ca, e1))
         | (Inl _, e1) \<Rightarrow>
             (if crossNamespace then
                (case (case LoadCAFromSecret p api (selfNamespace h) name e1 of
                         (Inr ca, e2) \<Rightarrow> (Inr ca, e2)
                       | (Inl _, e2) \<Rightarrow> create_ca p api now h d (selfNamespace h) e2) of
                   (Inl err, e3) \<Rightarrow> (Inl err, e3)
                 | (Inr ca, e3) \<Rightarrow>
                     (case syncCAToNamespace api now h ca caNamespace e3 of
                        (Some err, e4) \<Rightarrow> (Inl err, e4)
                      | (None, e4) \<Rightarrow> (Inr ca, e4)))
              else create_ca p api now h d caNamespace e1))"

section \<open>Client certificates\<close>

definition client_config :: "CertConfig \<Rightarrow> ClientCertConfig" where
  "client_config c =
     \<lparr>cl_CommonName = ''etcd-client'', cl_Organization = Organization c,
      cl_DNSNames = [''127.0.0.1'', ''localhost''], cl_IPAddresses = [''127.0.0.1''],
      cl_ValidityYears = ValidityYears c\<rparr>"

text \<open>\<open>True\<close> means that the secret must be recreated.\<close>

definition validateClientCert :: "'k pki \<Rightarrow> 'k SecretSync \<Rightarrow> secret \<Rightarrow> (cert_error, bool) gores" where
  "validateClientCert p h s =
     (case (map_of (sec_Data s) CACertKey, map_of (sec_Data s) TLSCertKey) of
        (Some caPEM, Some clientPEM) \<Rightarrow>
          (case pem_decode p caPEM of
             None \<Rightarrow> GoOk True
           | Some (t1, caDER) \<Rightarrow>
               (if \<not> parse_cert p caDER then GoOk True
                else (case pem_decode p clientPEM of
                        None \<Rightarrow> GoOk True
                      | Some (t2, clientDER) \<Rightarrow>
                          (if \<not> parse_cert p clientDER then GoOk True
                           else (case sy_ca h of
                                   None \<Rightarrow> GoPanic
                                 | Some ca \<Rightarrow>
                                     (if caDER \<noteq> Certificate ca then GoOk True
                                      else if \<not> verify_cert p (Certificate ca) clientDER then GoOk True
                                      else GoOk False))))))
      | _ \<Rightarrow> GoOk True)"

text \<open>\<open>None\<close> for the error is success.\<close>

definition recreateClientSecret ::
    "'k pki \<Rightarrow> 'e secret_api \<Rightarrow> string \<Rightarrow> 'k SecretSync \<Rightarrow> 'k draw \<Rightarrow> string \<Rightarrow> 'e
      \<Rightarrow> (cert_error, unit) gores \<times> 'e" where
  "recreateClientSecret p api now h d namespace e =
     (case s_delete api (namespace, ClientSecretName (sy_config h)) e of
        (WriteFailed, e1) \<Rightarrow> (GoErr SecretNotDeleted, e1)
      | (_, e1) \<Rightarrow>
          (case sy_ca h of
             None \<Rightarrow> (GoPanic, e1)
           | Some ca \<Rightarrow>
               (case GenerateClientCert p ca (client_config (sy_config h)) (fst d) (snd d) of
                  Inl err \<Rightarrow> (GoErr err, e1)
                | Inr client \<Rightarrow>
                    (case EnsureClientSecret p api now namespace (ClientSecretName (sy_config h)) ca client e1 of
                       (Some err, e2) \<Rightarrow> (GoErr err, e2)
                     | (None, e2) \<Rightarrow> (GoOk (), e2)))))"

datatype ns_get = NsFound bool | NsNotFound | NsFailed

text \<open>\<open>NsFound d\<close>: the namespace exists; \<open>d\<close> tells whether it is being deleted.\<close>

definition Secret_Reconcile ::
    "'k pki \<Rightarrow> 'e secret_api \<Rightarrow> string \<Rightarrow> 'k SecretSync \<Rightarrow> 'k draw \<Rightarrow> string \<Rightarrow> ns_get \<Rightarrow> sec_result \<Rightarrow> 'e
      \<Rightarrow> (cert_error, unit) gores \<times> 'e" where
  "Secret_Reconcile p api now h d reqNamespace gotNs gotSecret e =
     (case gotNs of
        NsNotFound \<Rightarrow> (GoOk (), e)
      | NsFailed \<Rightarrow> (GoErr SecretNotRead, e)
      | NsFound deleting \<Rightarrow>
          (if deleting then (GoOk (), e)
           else (case gotSecret of
                   SecNotFound \<Rightarrow> recreateClientSecret p api now h d reqNamespace e
                 | SecFailed \<Rightarrow> (GoErr SecretNotRead, e)
                 | SecFound se \<Rightarrow>
                     (case validateClientCert p h se of
                        GoOk True \<Rightarrow> recreateClientSecret p api now h d reqNamespace e
                      | GoOk False \<Rightarrow> (GoOk (), e)
                      | GoErr err \<Rightarrow> (GoErr err, e)
                      | GoPanic \<Rightarrow> (GoPanic, e)))))"

text \<open>The loop over the namespaces, in the order \<open>nss\<close>; errors are only logged.\<close>

fun ensure_loop ::
    "'k pki \<Rightarrow> 'e secret_api \<Rightarrow> string \<Rightarrow> string \<Rightarrow> 'k CACertificate \<Rightarrow> 'k CACertificate \<Rightarrow> string list \<Rightarrow> 'e \<Rightarrow> 'e" where
  "ensure_loop p api now name ca client [] e = e"
| "ensure_loop p api now name ca client (ns # nss) e =
     ensure_loop p api now name ca client nss (snd (EnsureClientSecret p api now ns name ca client e))"

definition ensureClientCertificates ::
    "'k pki \<Rightarrow> 'e secret_api \<Rightarrow> string \<Rightarrow> (string set \<Rightarrow> string list) \<Rightarrow> 'k SecretSync \<Rightarrow> 'k CACertificate \<Rightarrow> 'k draw \<Rightarrow> 'e \<Rightarrow> 'e" where
  "ensureClientCertificates p api now order h ca d e =
     (case GenerateClientCert p ca (client_config (sy_config h)) (fst d) (snd d) of
        Inl err \<Rightarrow> e
      | Inr client \<Rightarrow>
          ensure_loop p api now (ClientSecretName (sy_config h)) ca client
            (order (clientSecretNamespaceSet (sy_config h))) e)"

definition SecretSync_Start ::
    "'k pki \<Rightarrow> 'e secret_api \<Rightarrow> string \<Rightarrow> (string set \<Rightarrow> string list) \<Rightarrow> 'k draw \<Rightarrow> 'k draw \<Rightarrow> 'k SecretSync \<Rightarrow> 'e
      \<Rightarrow> cert_error option \<times> 'k SecretSync \<times> 'e" where
  "SecretSync_Start p api now order d1 d2 h e =
     (case loadOrCreateCA p api now h d1 e of
        (Inl err, e1) \<Rightarrow> (Some err, h, e1)
      | (Inr ca, e1) \<Rightarrow>
          (let h1 = h\<lparr>sy_ca := Some ca\<rparr> in (None, h1, ensureClientCertificates p api now order h1 ca d2 e1)))"

section \<open>Laws\<close>

text \<open>
  The API over what it stores: reading tells what is stored and changes nothing; a successful
  write stores and leaves other keys alone; ``not found'' on a deletion means nothing is there.
\<close>

definition secret_laws :: "'e secret_api \<Rightarrow> (secret_key \<Rightarrow> 'e \<Rightarrow> secret option) \<Rightarrow> bool" where
  "secret_laws api stored \<longleftrightarrow>
     (\<forall>k e r e'. s_get api k e = (r, e') \<longrightarrow>
        (\<forall>k'. stored k' e' = stored k' e) \<and>
        (case r of SecFound s \<Rightarrow> stored k e = Some s | SecNotFound \<Rightarrow> stored k e = None | SecFailed \<Rightarrow> True)) \<and>
     (\<forall>k s e e'. s_create api k s e = (WriteOk, e') \<longrightarrow>
        (\<forall>k'. stored k' e' = (if k' = k then Some s else stored k' e))) \<and>
     (\<forall>k s e e'. s_update api k s e = (WriteOk, e') \<longrightarrow>
        (\<forall>k'. stored k' e' = (if k' = k then Some s else stored k' e))) \<and>
     (\<forall>k e r e'. s_delete api k e = (r, e') \<longrightarrow> r \<noteq> WriteFailed \<longrightarrow>
        (\<forall>k'. stored k' e' = (if k' = k then None else stored k' e)))"

text \<open>
  \<open>issues\<close>: the key belongs to the CA certificate, which is within its validity, so that what it
  signs for servers and clients verifies against it.
\<close>

definition issues :: "'k pki \<Rightarrow> string \<Rightarrow> 'k \<Rightarrow> bool" where
  "issues p ca key \<longleftrightarrow>
     (\<forall>t n k der. \<not> t_IsCA t \<longrightarrow> 0 < t_ValidityYears t \<longrightarrow> {ServerAuth, ClientAuth} \<subseteq> set (t_ExtKeyUsage t) \<longrightarrow>
        create_cert p t n k (Some (ca, key)) = Some der \<longrightarrow> verify_cert p ca der)"

text \<open>PEM blocks and EC keys are read back as they were written, and a self-signed CA issues.\<close>

definition pki_laws :: "'k pki \<Rightarrow> bool" where
  "pki_laws p \<longleftrightarrow>
     (\<forall>t b. t = ''CERTIFICATE'' \<or> t = ''EC PRIVATE KEY'' \<longrightarrow> pem_decode p (pem_encode p t b) = Some (t, b)) \<and>
     (\<forall>k b. marshal_ec p k = Some b \<longrightarrow> parse_ec p b = Some k) \<and>
     (\<forall>t n k ca. t_IsCA t \<longrightarrow> t_BasicConstraintsValid t \<longrightarrow> CertSign \<in> set (t_KeyUsage t) \<longrightarrow>
        0 < t_ValidityYears t \<longrightarrow> create_cert p t n k None = Some ca \<longrightarrow> issues p ca k)"

definition usable_ca :: "'k pki \<Rightarrow> 'k CACertificate \<Rightarrow> bool" where
  "usable_ca p ca \<longleftrightarrow>
     map_option snd (pem_decode p (CertPEM ca)) = Some (Certificate ca) \<and> parse_cert p (Certificate ca) \<and>
     issues p (Certificate ca) (PrivateKey ca)"

text \<open>The CA of the secret found under a key.\<close>

definition holds_ca :: "secret option \<Rightarrow> 'k CACertificate \<Rightarrow> bool" where
  "holds_ca so ca \<longleftrightarrow>
     (\<exists>s. so = Some s \<and> map_of (sec_Data s) CACertKey = Some (CertPEM ca) \<and>
        map_of (sec_Data s) CAKeyKey = Some (KeyPEM ca))"

lemma ca_keys [simp]: "CAKeyKey \<noteq> CACertKey" "CACertKey \<noteq> CAKeyKey"
  by (simp_all add: CAKeyKey_def CACertKey_def)

lemma get_laws:
  assumes laws: "secret_laws api stored" and got: "s_get api k e = (r, e')"
  shows "stored k' e' = stored k' e"
    and "r = SecFound s \<Longrightarrow> stored k e = Some s" and "r = SecNotFound \<Longrightarrow> stored k e = None"
proof -
  from laws have "\<forall>k e r e'. s_get api k e = (r, e') \<longrightarrow>
        (\<forall>k'. stored k' e' = stored k' e) \<and>
        (case r of SecFound s \<Rightarrow> stored k e = Some s | SecNotFound \<Rightarrow> stored k e = None | SecFailed \<Rightarrow> True)"
    unfolding secret_laws_def by (rule conjunct1)
  with got have all: "(\<forall>k'. stored k' e' = stored k' e) \<and>
        (case r of SecFound s \<Rightarrow> stored k e = Some s | SecNotFound \<Rightarrow> stored k e = None | SecFailed \<Rightarrow> True)"
    by blast
  then show "stored k' e' = stored k' e" by blast
  show "stored k e = Some s" if "r = SecFound s" using all that by simp
  show "stored k e = None" if "r = SecNotFound" using all that by simp
qed

lemma write_laws:
  assumes "secret_laws api stored"
  shows "s_create api k s e = (WriteOk, e') \<Longrightarrow> stored k' e' = (if k' = k then Some s else stored k' e)"
    and "s_update api k s e = (WriteOk, e') \<Longrightarrow> stored k' e' = (if k' = k then Some s else stored k' e)"
    and "s_delete api k e = (r, e') \<Longrightarrow> r \<noteq> WriteFailed \<Longrightarrow> stored k' e' = (if k' = k then None else stored k' e)"
  using assms unfolding secret_laws_def by blast+

lemma LoadCA_PEM: "LoadCA p c k = Inr ca \<Longrightarrow> CertPEM ca = c \<and> KeyPEM ca = k"
  by (auto simp: LoadCA_def split: sum.splits)

lemma mapsEqual_lookup:
  assumes "mapsEqual a b" and "gowf a" and "gowf b"
  shows "map_of a = map_of b"
proof -
  have len: "length a = length b" and all: "\<And>k v. (k, v) \<in> set a \<Longrightarrow> map_of b k = Some v"
    using assms(1) by (auto simp: mapsEqual_def list_all_iff split: if_splits)
  have sub: "map_of a k = Some v \<Longrightarrow> map_of b k = Some v" for k v using all by (blast dest: map_of_SomeD)
  then have dom: "dom (map_of a) \<subseteq> dom (map_of b)" by auto
  have "card (dom (map_of a)) = card (dom (map_of b))" using len assms(2,3) by (simp add: gokeys_card)
  then have deq: "dom (map_of a) = dom (map_of b)" by (intro card_subset_eq dom) (simp_all add: finite_dom_map_of)
  show ?thesis
  proof
    fix k
    show "map_of a k = map_of b k"
    proof (cases "map_of a k")
      case None
      then have "k \<notin> dom (map_of b)" using deq by (auto simp: domIff)
      with None show ?thesis by (simp add: domIff)
    qed (simp add: sub)
  qed
qed

section \<open>What the steps store\<close>

lemma LoadCAFromSecret_spec:
  assumes laws: "secret_laws api stored" and run: "LoadCAFromSecret p api ns name e = (r, e')"
  shows "stored k e' = stored k e" and "r = Inr ca \<Longrightarrow> holds_ca (stored (ns, name) e) ca"
proof -
  obtain g e1 where g: "s_get api (ns, name) e = (g, e1)" by (cases "s_get api (ns, name) e")
  then have [simp]: "e1 = e'" using run by (auto simp: LoadCAFromSecret_def split: sec_result.splits)
  show "stored k e' = stored k e" using get_laws(1) [OF laws g] by simp
  assume "r = Inr ca"
  then obtain s where "g = SecFound s"
    and s: "map_of (sec_Data s) CACertKey = Some (CertPEM ca)" "map_of (sec_Data s) CAKeyKey = Some (KeyPEM ca)"
    using run g by (auto simp: LoadCAFromSecret_def dest: LoadCA_PEM split: sec_result.splits option.splits)
  then show "holds_ca (stored (ns, name) e) ca" using get_laws(2) [OF laws g] by (simp add: holds_ca_def)
qed

lemma CopyCASecretData_spec:
  assumes laws: "secret_laws api stored" and run: "CopyCASecretData api now ns name (ca_data ca) ann e = (None, e')"
    and wf: "\<And>s. stored (ns, name) e = Some s \<Longrightarrow> gowf (sec_Data s)"
  shows "holds_ca (stored (ns, name) e') ca" and "k \<noteq> (ns, name) \<Longrightarrow> stored k e' = stored k e"
proof -
  have d: "map_of (ca_data ca) CACertKey = Some (CertPEM ca)" "map_of (ca_data ca) CAKeyKey = Some (KeyPEM ca)"
    "gowf (ca_data ca)" by (simp_all add: ca_data_def)
  obtain g e1 where g: "s_get api (ns, name) e = (g, e1)" by (cases "s_get api (ns, name) e")
  note gl = get_laws [OF laws g]
  have "holds_ca (stored (ns, name) e') ca \<and> (k \<noteq> (ns, name) \<longrightarrow> stored k e' = stored k e)"
  proof (cases g)
    case (SecFound s)
    have st: "stored (ns, name) e = Some s" using gl(2) SecFound by simp
    show ?thesis
    proof (cases "mapsEqual (sec_Data s) (ca_data ca)")
      case True
      then have "map_of (sec_Data s) = map_of (ca_data ca)" using wf [OF st] d(3) by (rule mapsEqual_lookup)
      moreover have "e' = e1" using True SecFound g run by (simp add: CopyCASecretData_def)
      ultimately show ?thesis using st gl(1) d by (simp add: holds_ca_def)
    next
      case False
      then have "s_update api (ns, name) (s\<lparr>sec_Data := ca_data ca\<rparr>) e1 = (WriteOk, e')"
        using SecFound g run by (auto simp: CopyCASecretData_def split: prod.splits sec_write.splits)
      from write_laws(2) [OF laws this] show ?thesis using gl(1) d by (simp add: holds_ca_def)
    qed
  next
    case SecNotFound
    then obtain s where "s_create api (ns, name) s e1 = (WriteOk, e')" and "sec_Data s = ca_data ca"
      using g run by (auto simp: CopyCASecretData_def split: prod.splits sec_write.splits)
    with write_laws(1) [OF laws this(1)] show ?thesis using gl(1) d by (simp add: holds_ca_def)
  next
    case SecFailed
    then show ?thesis using g run by (simp add: CopyCASecretData_def)
  qed
  then show "holds_ca (stored (ns, name) e') ca" and "k \<noteq> (ns, name) \<Longrightarrow> stored k e' = stored k e" by blast+
qed

lemma create_ca_spec:
  assumes laws: "secret_laws api stored" and run: "create_ca p api now h d ns e = (Inr ca, e')"
    and absent: "stored (ns, CASecretName (sy_config h)) e = None"
  shows "holds_ca (stored (ns, CASecretName (sy_config h)) e') ca"
    and "k \<noteq> (ns, CASecretName (sy_config h)) \<Longrightarrow> stored k e' = stored k e"
proof -
  let ?k = "(ns, CASecretName (sy_config h))"
  have ens: "EnsureCASecret p api now ns (CASecretName (sy_config h)) ca e = (None, e')"
    using run by (auto simp: create_ca_def split: sum.splits prod.splits option.splits)
  obtain g e1 where g: "s_get api ?k e = (g, e1)" by (cases "s_get api ?k e")
  have nf: "g = SecNotFound"
    using ens g get_laws(2) [OF laws g] absent by (cases g) (auto simp: EnsureCASecret_def)
  then obtain s where "s_create api ?k s e1 = (WriteOk, e')" and "sec_Data s = ca_data ca"
    using g ens by (auto simp: EnsureCASecret_def split: prod.splits sec_write.splits)
  with write_laws(1) [OF laws this(1)] get_laws(1) [OF laws g]
  show "holds_ca (stored ?k e') ca" and "k \<noteq> ?k \<Longrightarrow> stored k e' = stored k e"
    by (simp_all add: holds_ca_def ca_data_def)
qed

text \<open>A secret that is there and cannot be loaded is never mistaken for an absent one when
  reads do not fail.\<close>

definition reads_work :: "'e secret_api \<Rightarrow> bool" where
  "reads_work api \<longleftrightarrow> (\<forall>k e. fst (s_get api k e) \<noteq> SecFailed)"

definition loadable :: "'k pki \<Rightarrow> secret \<Rightarrow> bool" where
  "loadable p s \<longleftrightarrow> gowf (sec_Data s) \<and>
     (\<exists>c k ca. map_of (sec_Data s) CACertKey = Some c \<and> map_of (sec_Data s) CAKeyKey = Some k \<and>
        LoadCA p c k = Inr ca)"

lemma LoadCAFromSecret_Inl:
  assumes laws: "secret_laws api stored" and "reads_work api"
    and ld: "\<And>s. stored (ns, name) e = Some s \<Longrightarrow> loadable p s"
    and run: "LoadCAFromSecret p api ns name e = (Inl err, e')"
  shows "stored (ns, name) e = None"
proof -
  obtain g e1 where g: "s_get api (ns, name) e = (g, e1)" by (cases "s_get api (ns, name) e")
  have "g \<noteq> SecFailed" using assms(2) g by (metis fst_conv reads_work_def)
  moreover have "g \<noteq> SecFound s" for s
  proof
    assume s: "g = SecFound s"
    then have "loadable p s" using ld get_laws(2) [OF laws g] by blast
    with run g s show False by (auto simp: LoadCAFromSecret_def loadable_def)
  qed
  ultimately show ?thesis using get_laws(3) [OF laws g] by (cases g) auto
qed

lemma self_loaded_or_created:
  assumes laws: "secret_laws api stored" and rw: "reads_work api"
    and run: "(case LoadCAFromSecret p api ns (CASecretName (sy_config h)) e of
                 (Inr ca, e2) \<Rightarrow> (Inr ca, e2)
               | (Inl _, e2) \<Rightarrow> create_ca p api now h d ns e2) = (Inr ca, e')"
    and ld: "\<And>s. stored (ns, CASecretName (sy_config h)) e = Some s \<Longrightarrow> loadable p s"
  shows "holds_ca (stored (ns, CASecretName (sy_config h)) e') ca"
    and "k \<noteq> (ns, CASecretName (sy_config h)) \<Longrightarrow> stored k e' = stored k e"
proof -
  obtain r e2 where load: "LoadCAFromSecret p api ns (CASecretName (sy_config h)) e = (r, e2)"
    by (cases "LoadCAFromSecret p api ns (CASecretName (sy_config h)) e")
  note same = LoadCAFromSecret_spec(1) [OF laws load]
  have "holds_ca (stored (ns, CASecretName (sy_config h)) e') ca \<and>
    (k \<noteq> (ns, CASecretName (sy_config h)) \<longrightarrow> stored k e' = stored k e)"
  proof (cases r)
    case (Inr c)
    then show ?thesis using run load same LoadCAFromSecret_spec(2) [OF laws load] by simp
  next
    case (Inl err)
    then have "stored (ns, CASecretName (sy_config h)) e2 = None"
      using LoadCAFromSecret_Inl [OF laws rw ld] load same by simp
    moreover have "create_ca p api now h d ns e2 = (Inr ca, e')" using run load Inl by simp
    ultimately show ?thesis using create_ca_spec [OF laws] same by metis
  qed
  then show "holds_ca (stored (ns, CASecretName (sy_config h)) e') ca"
    and "k \<noteq> (ns, CASecretName (sy_config h)) \<Longrightarrow> stored k e' = stored k e" by blast+
qed

lemma GenerateClientCert_valid:
  assumes "pki_laws p" and "issues p (Certificate ca) (PrivateKey ca)" and "0 < cl_ValidityYears cfg"
    and gen: "GenerateClientCert p ca cfg key serial = Inr client"
  shows "pem_decode p (CertPEM client) = Some (''CERTIFICATE'', Certificate client)"
    and "parse_cert p (Certificate client)" and "verify_cert p (Certificate ca) (Certificate client)"
proof -
  obtain k n where kn: "key = Some k" "serial = Some n"
    using gen by (auto simp: GenerateClientCert_def split: option.splits)
  let ?t = "client_template cfg"
  have "finish_cert p k (create_cert p ?t n k (Some (Certificate ca, PrivateKey ca))) = Inr client"
    using gen kn by (simp add: GenerateClientCert_def)
  then obtain der where der: "create_cert p ?t n k (Some (Certificate ca, PrivateKey ca)) = Some der"
    and parse: "parse_cert p der" and client: "Certificate client = der" "CertPEM client = pem_encode p ''CERTIFICATE'' der"
    by (auto simp: finish_cert_def split: option.splits if_splits)
  have "\<not> t_IsCA ?t" and "0 < t_ValidityYears ?t" and "{ServerAuth, ClientAuth} \<subseteq> set (t_ExtKeyUsage ?t)"
    using assms(3) by (simp_all add: client_template_def)
  then show "verify_cert p (Certificate ca) (Certificate client)"
    using assms(2) der unfolding issues_def client by blast
  show "parse_cert p (Certificate client)" using parse client by simp
  show "pem_decode p (CertPEM client) = Some (''CERTIFICATE'', Certificate client)"
    using assms(1) client by (simp add: pki_laws_def)
qed

lemma GenerateCA_loads_back:
  assumes "pki_laws p" and "0 < ca_ValidityYears cfg" and gen: "GenerateCA p cfg key serial = Inr ca"
  shows "LoadCA p (CertPEM ca) (KeyPEM ca) = Inr ca \<and> usable_ca p ca"
proof -
  obtain k n where "key = Some k" and "serial = Some n"
    using gen by (auto simp: GenerateCA_def split: option.splits)
  let ?t = "ca_template cfg"
  have "finish_cert p k (create_cert p ?t n k None) = Inr ca"
    using gen \<open>key = Some k\<close> \<open>serial = Some n\<close> by (simp add: GenerateCA_def)
  then obtain der b where der: "create_cert p ?t n k None = Some der" and "parse_cert p der"
    and b: "marshal_ec p k = Some b"
    and ca: "ca = \<lparr>Certificate = der, PrivateKey = k, CertPEM = pem_encode p ''CERTIFICATE'' der,
               KeyPEM = pem_encode p ''EC PRIVATE KEY'' b\<rparr>"
    by (auto simp: finish_cert_def split: option.splits if_splits)
  have pem: "pem_decode p (pem_encode p ''CERTIFICATE'' der) = Some (''CERTIFICATE'', der)"
    "pem_decode p (pem_encode p ''EC PRIVATE KEY'' b) = Some (''EC PRIVATE KEY'', b)"
    and key: "parse_ec p b = Some k"
    using assms(1) b by (simp_all add: pki_laws_def)
  have "t_IsCA ?t" and "t_BasicConstraintsValid ?t" and "CertSign \<in> set (t_KeyUsage ?t)" and "0 < t_ValidityYears ?t"
    using assms(2) by (simp_all add: ca_template_def)
  then have "issues p der k" using assms(1) der unfolding pki_laws_def by blast
  with pem key show ?thesis using \<open>parse_cert p der\<close> by (simp add: LoadCA_def loadCertAndKey_def usable_ca_def ca)
qed

lemma fresh_client_validates:
  assumes "pki_laws p" and "sy_ca h = Some ca" and "usable_ca p ca" and "0 < ValidityYears (sy_config h)"
    and gen: "GenerateClientCert p ca (client_config (sy_config h)) key serial = Inr client"
    and "sec_Data s = client_data ca client"
  shows "validateClientCert p h s = GoOk False"
proof -
  have "map_of (sec_Data s) CACertKey = Some (CertPEM ca)" and "map_of (sec_Data s) TLSCertKey = Some (CertPEM client)"
    using assms(6) by (simp_all add: client_data_def CACertKey_def TLSCertKey_def)
  moreover obtain t where "pem_decode p (CertPEM ca) = Some (t, Certificate ca)"
    using assms(3) by (auto simp: usable_ca_def)
  moreover have "issues p (Certificate ca) (PrivateKey ca)" and "parse_cert p (Certificate ca)"
    using assms(3) by (simp_all add: usable_ca_def)
  moreover have "0 < cl_ValidityYears (client_config (sy_config h))" using assms(4) by (simp add: client_config_def)
  ultimately show ?thesis
    using GenerateClientCert_valid [OF assms(1) _ _ gen] assms(2) by (simp add: validateClientCert_def)
qed

lemma recreate_spec:
  assumes laws: "secret_laws api stored" and pki: "pki_laws p"
    and ca: "sy_ca h = Some ca" "usable_ca p ca" "0 < ValidityYears (sy_config h)"
    and run: "recreateClientSecret p api now h d ns e = (GoOk (), e')"
  shows "\<exists>s. stored (ns, ClientSecretName (sy_config h)) e' = Some s \<and> validateClientCert p h s = GoOk False"
    and "k \<noteq> (ns, ClientSecretName (sy_config h)) \<Longrightarrow> stored k e' = stored k e"
    and "\<exists>s client. stored (ns, ClientSecretName (sy_config h)) e' = Some s \<and> sec_Data s = client_data ca client"
proof -
  let ?k = "(ns, ClientSecretName (sy_config h))"
  obtain w e1 where del: "s_delete api ?k e = (w, e1)" by (cases "s_delete api ?k e")
  have w: "w \<noteq> WriteFailed" using run del by (auto simp: recreateClientSecret_def)
  note gone = write_laws(3) [OF laws del w]
  obtain client where gen: "GenerateClientCert p ca (client_config (sy_config h)) (fst d) (snd d) = Inr client"
    and ens: "EnsureClientSecret p api now ns (ClientSecretName (sy_config h)) ca client e1 = (None, e')"
    using run del w ca(1)
    by (cases w) (auto simp: recreateClientSecret_def split: sum.splits option.splits prod.splits)
  obtain g e2 where g: "s_get api ?k e1 = (g, e2)" by (cases "s_get api ?k e1")
  note gl = get_laws [OF laws g]
  have "g = SecNotFound" using ens g gl(2) gone by (cases g) (auto simp: EnsureClientSecret_def)
  then obtain s where cr: "s_create api ?k s e2 = (WriteOk, e')" and data: "sec_Data s = client_data ca client"
    using g ens by (auto simp: EnsureClientSecret_def split: prod.splits sec_write.splits)
  note st = write_laws(1) [OF laws cr]
  show "\<exists>s. stored ?k e' = Some s \<and> validateClientCert p h s = GoOk False"
    using st fresh_client_validates [OF pki ca gen data] by simp
  show "stored k e' = stored k e" if "k \<noteq> ?k" using that st gl(1) gone by simp
  show "\<exists>s client. stored ?k e' = Some s \<and> sec_Data s = client_data ca client" using st data by auto
qed

text \<open>
  \<open>Valid\<close> accepts the same name for the CA secret and the client secrets. Where both fall
  into one namespace, the reconciliation replaces the CA secret by a client secret, and the
  CA's private key is gone.
\<close>

lemma shared_name_loses_ca_key:
  assumes laws: "secret_laws api stored" and pki: "pki_laws p"
    and ca: "sy_ca h = Some ca" "usable_ca p ca" "0 < ValidityYears (sy_config h)"
    and name: "ClientSecretName (sy_config h) = CASecretName (sy_config h)"
    and s: "map_of (sec_Data s) TLSCertKey = None"
    and run: "Secret_Reconcile p api now h d ns (NsFound False) (SecFound s) e = (GoOk (), e')"
  shows "\<exists>s'. stored (ns, CASecretName (sy_config h)) e' = Some s' \<and> map_of (sec_Data s') CAKeyKey = None"
proof -
  have "validateClientCert p h s = GoOk True" using s by (simp add: validateClientCert_def split: option.split)
  then have "recreateClientSecret p api now h d ns e = (GoOk (), e')" using run by (simp add: Secret_Reconcile_def)
  from recreate_spec(3) [OF laws pki ca this] show ?thesis
    using name by (auto simp: client_data_def CAKeyKey_def CACertKey_def TLSCertKey_def TLSPrivateKeyKey_def)
qed

lemma loadOrCreateCA_stored:
  assumes laws: "secret_laws api stored" and rw: "reads_work api"
    and ld: "\<And>ns s. stored (ns, CASecretName (sy_config h)) e = Some s \<Longrightarrow> loadable p s"
    and run: "loadOrCreateCA p api now h d e = (Inr ca, e')"
  shows "holds_ca (stored (CASecretNamespace (sy_config h), CASecretName (sy_config h)) e') ca \<and>
    holds_ca (stored (selfNamespace h, CASecretName (sy_config h)) e') ca \<and>
    (stored (CASecretNamespace (sy_config h), CASecretName (sy_config h)) e = None \<or>
     holds_ca (stored (CASecretNamespace (sy_config h), CASecretName (sy_config h)) e) ca)"
proof -
  define name where "name = CASecretName (sy_config h)"
  define cn where "cn = CASecretNamespace (sy_config h)"
  define sn where "sn = selfNamespace h"
  obtain r1 e1 where load1: "LoadCAFromSecret p api cn name e = (r1, e1)"
    by (cases "LoadCAFromSecret p api cn name e")
  have same1: "stored k e1 = stored k e" for k using LoadCAFromSecret_spec(1) [OF laws load1] .
  have sync: "holds_ca (stored (ns, name) e3) c \<and> (\<forall>k. k \<noteq> (ns, name) \<longrightarrow> stored k e3 = stored k e2)"
    if sy: "syncCAToNamespace api now h c ns e2 = (None, e3)"
      and st: "stored (ns, name) e2 = stored (ns, name) e" for ns c e2 e3
  proof -
    have wf: "gowf (sec_Data s)" if "stored (ns, name) e2 = Some s" for s
      using ld [folded name_def] that st by (simp add: loadable_def)
    from sy have "CopyCASecretData api now ns name (ca_data c) [] e2 = (None, e3)"
      by (simp add: syncCAToNamespace_def name_def)
    from CopyCASecretData_spec [OF laws this wf] show ?thesis by blast
  qed
  show ?thesis
  proof (cases r1)
    case (Inr ca1)
    have held: "holds_ca (stored (cn, name) e) ca1" using LoadCAFromSecret_spec(2) [OF laws load1] Inr by simp
    show ?thesis
    proof (cases "cn = sn")
      case True
      then have "ca1 = ca" and "e1 = e'"
        using run load1 Inr by (simp_all add: loadOrCreateCA_def cn_def sn_def name_def)
      then show ?thesis using held same1 True by (simp add: cn_def sn_def name_def)
    next
      case False
      then have sy: "syncCAToNamespace api now h ca1 sn e1 = (None, e')" and "ca1 = ca"
        using run load1 Inr
        by (auto simp: loadOrCreateCA_def cn_def sn_def name_def split: prod.splits option.splits)
      show ?thesis using sync [OF sy same1] held same1 False \<open>ca1 = ca\<close> by (simp add: cn_def sn_def name_def)
    qed
  next
    case (Inl err)
    have none: "stored (cn, name) e = None"
    proof (rule LoadCAFromSecret_Inl [OF laws rw])
      show "LoadCAFromSecret p api cn name e = (Inl err, e1)" using load1 Inl by simp
      show "loadable p s" if "stored (cn, name) e = Some s" for s using ld [folded name_def] that .
    qed
    show ?thesis
    proof (cases "cn = sn")
      case True
      then have cr: "create_ca p api now h d cn e1 = (Inr ca, e')"
        using run load1 Inl by (simp add: loadOrCreateCA_def cn_def sn_def name_def)
      have "holds_ca (stored (cn, name) e') ca"
        using create_ca_spec(1) [OF laws cr] none same1 by (simp add: name_def)
      then show ?thesis using none True by (simp add: cn_def sn_def name_def)
    next
      case False
      then obtain e3 where self: "(case LoadCAFromSecret p api sn name e1 of
                 (Inr ca, e2) \<Rightarrow> (Inr ca, e2)
               | (Inl _, e2) \<Rightarrow> create_ca p api now h d sn e2) = (Inr ca, e3)"
        and sy: "syncCAToNamespace api now h ca cn e3 = (None, e')"
        using run load1 Inl
        by (simp add: loadOrCreateCA_def cn_def sn_def name_def split: prod.splits sum.splits option.splits)
      have "holds_ca (stored (sn, name) e3) ca \<and> stored (cn, name) e3 = stored (cn, name) e"
      proof -
        have ldk: "loadable p s" if "stored (sn, CASecretName (sy_config h)) e1 = Some s" for s
          using ld that same1 by simp
        show ?thesis using self_loaded_or_created [OF laws rw self [unfolded name_def] ldk] same1 False
          by (simp add: name_def)
      qed
      then show ?thesis using sync [OF sy] none False by (simp add: cn_def sn_def name_def)
    qed
  qed
qed

lemma Secret_Reconcile_valid:
  assumes laws: "secret_laws api stored" and pki: "pki_laws p"
    and ca: "sy_ca h = Some ca" "usable_ca p ca" "0 < ValidityYears (sy_config h)"
    and got: "got = (case stored (ns, ClientSecretName (sy_config h)) e of
                       None \<Rightarrow> SecNotFound | Some s \<Rightarrow> SecFound s)"
    and run: "Secret_Reconcile p api now h d ns (NsFound False) got e = (GoOk (), e')"
  shows "(\<exists>s. stored (ns, ClientSecretName (sy_config h)) e' = Some s \<and>
           Secret_Reconcile p api now h d2 ns (NsFound False) (SecFound s) e' = (GoOk (), e') \<and>
           validateClientCert p h s = GoOk False) \<and>
    (\<forall>k. k \<noteq> (ns, ClientSecretName (sy_config h)) \<longrightarrow> stored k e' = stored k e)"
proof (cases "recreateClientSecret p api now h d ns e = (GoOk (), e')")
  case True
  from recreate_spec [OF laws pki ca True] show ?thesis by (auto simp: Secret_Reconcile_def)
next
  case False
  then obtain s where "stored (ns, ClientSecretName (sy_config h)) e = Some s"
    and "validateClientCert p h s = GoOk False" and "e' = e"
    using run got by (auto simp: Secret_Reconcile_def split: option.splits gores.splits bool.splits)
  then show ?thesis by (simp add: Secret_Reconcile_def)
qed

section \<open>An example key infrastructure and secret store\<close>

definition toy_pki :: "nat pki" where
  "toy_pki =
     \<lparr>pem_decode = (\<lambda>s. if CHR ''|'' \<in> set s
          then Some (takeWhile (\<lambda>c. c \<noteq> CHR ''|'') s, tl (dropWhile (\<lambda>c. c \<noteq> CHR ''|'') s)) else None),
      pem_encode = (\<lambda>t b. t @ ''|'' @ b), parse_cert = (\<lambda>d. True),
      parse_ec = (\<lambda>b. Some (length b)), parse_pkcs8 = (\<lambda>b. None),
      marshal_ec = (\<lambda>k. Some (replicate k CHR ''k'')),
      create_cert = (\<lambda>t n k i. case i of None \<Rightarrow> Some (t_CommonName t)
                       | Some (ca, key) \<Rightarrow> Some (''by '' @ ca)),
      verify_cert = (\<lambda>ca c. c = ''by '' @ ca), not_after = (\<lambda>c. ''2125'')\<rparr>"

text \<open>The store with a list telling which of the next reads fail.\<close>

type_synonym toy_secrets = "bool list \<times> (secret_key \<rightharpoonup> secret)"

definition toy_secret_api :: "toy_secrets secret_api" where
  "toy_secret_api =
     \<lparr>s_get = (\<lambda>k (fs, m). if fs \<noteq> [] \<and> hd fs then (SecFailed, (tl fs, m))
                 else ((case m k of None \<Rightarrow> SecNotFound | Some s \<Rightarrow> SecFound s), (tl fs, m))),
      s_create = (\<lambda>k s (fs, m). if m k = None then (WriteOk, (fs, m(k \<mapsto> s))) else (WriteFailed, (fs, m))),
      s_update = (\<lambda>k s (fs, m). if m k = None then (WriteNotFound, (fs, m)) else (WriteOk, (fs, m(k \<mapsto> s)))),
      s_delete = (\<lambda>k (fs, m). if m k = None then (WriteNotFound, (fs, m)) else (WriteOk, (fs, m(k := None))))\<rparr>"

definition toy_stored :: "secret_key \<Rightarrow> toy_secrets \<Rightarrow> secret option" where
  "toy_stored k e = snd e k"

lemma toy_secret_laws: "secret_laws toy_secret_api toy_stored"
  unfolding secret_laws_def toy_secret_api_def toy_stored_def
  by (auto split: option.splits if_splits)

lemma toy_pki_laws: "pki_laws toy_pki"
  by (auto simp: pki_laws_def issues_def toy_pki_def)

definition toy_sync :: "string \<Rightarrow> nat SecretSync" where
  "toy_sync self =
     \<lparr>sy_config = \<lparr>Enabled = True, CASecretName = ''etcd-ca'', CASecretNamespace = ''kube-system'',
        ClientSecretName = ''etcd-client'', ClientSecretNamespaces = [''apps''], ValidityYears = 100,
        Organization = ''etcdauto'', CommonName = ''etcdauto-ca'', clientSecretNamespaceSet = {''apps''}\<rparr>,
      selfNamespace = self, sy_ca = None\<rparr>"

definition toy_ca :: "nat CACertificate" where
  "toy_ca = \<lparr>Certificate = ''etcdauto-ca'', PrivateKey = 2, CertPEM = ''CERTIFICATE|etcdauto-ca'',
     KeyPEM = ''EC PRIVATE KEY|kk''\<rparr>"

lemma toy_new_ca: "new_ca toy_pki (toy_sync ns) (Some 2, Some 7) = Inr toy_ca"
  by (simp add: new_ca_def GenerateCA_def ca_template_def finish_cert_def toy_pki_def toy_sync_def toy_ca_def numeral_2_eq_2)

section \<open>Properties\<close>

text \<open>
  C28: A generated CA is usable, and loading it back from the PEM texts that are stored for it
  yields the same CA, certificate and key.
\<close>

theorem generated_ca_loads_back:
  assumes "pki_laws p" and "0 < ca_ValidityYears cfg" and gen: "GenerateCA p cfg key serial = Inr ca"
  shows "LoadCA p (CertPEM ca) (KeyPEM ca) = Inr ca \<and> usable_ca p ca"
  by (rule GenerateCA_loads_back [OF assms])

theorem generated_ca_loads_back_witness:
  "LoadCA toy_pki (CertPEM toy_ca) (KeyPEM toy_ca) = Inr toy_ca \<and> usable_ca toy_pki toy_ca"
  by (rule generated_ca_loads_back [OF toy_pki_laws _ toy_new_ca [unfolded new_ca_def]])
    (simp add: toy_sync_def)

text \<open>
  C15: When reads do not fail and the stored CA secrets can be loaded, the CA that the controller
  goes on with is the one of the secret in its CA namespace and in its own namespace, and a CA
  that the CA namespace already had is kept.
\<close>

theorem ca_stored_is_ca_used:
  assumes laws: "secret_laws api stored" and rw: "reads_work api"
    and ld: "\<And>ns s. stored (ns, CASecretName (sy_config h)) e = Some s \<Longrightarrow> loadable p s"
    and run: "loadOrCreateCA p api now h d e = (Inr ca, e')"
  shows "holds_ca (stored (CASecretNamespace (sy_config h), CASecretName (sy_config h)) e') ca \<and>
    holds_ca (stored (selfNamespace h, CASecretName (sy_config h)) e') ca \<and>
    (stored (CASecretNamespace (sy_config h), CASecretName (sy_config h)) e = None \<or>
     holds_ca (stored (CASecretNamespace (sy_config h), CASecretName (sy_config h)) e) ca)"
  by (rule loadOrCreateCA_stored [OF assms])

text \<open>The store whose reads never fail.\<close>

definition calm_secret_api :: "toy_secrets secret_api" where
  "calm_secret_api = toy_secret_api
     \<lparr>s_get := (\<lambda>k (fs, m). ((case m k of None \<Rightarrow> SecNotFound | Some s \<Rightarrow> SecFound s), (fs, m)))\<rparr>"

lemma calm_laws: "secret_laws calm_secret_api toy_stored" "reads_work calm_secret_api"
  unfolding secret_laws_def calm_secret_api_def toy_secret_api_def toy_stored_def reads_work_def
  by (auto split: option.splits if_splits)

theorem ca_stored_is_ca_used_witness:
  "let e' = snd (loadOrCreateCA toy_pki calm_secret_api ''t'' (toy_sync ''etcd'') (Some 2, Some 7) ([], \<lambda>k. None))
   in holds_ca (toy_stored (''kube-system'', ''etcd-ca'') e') toy_ca \<and>
      holds_ca (toy_stored (''etcd'', ''etcd-ca'') e') toy_ca"
proof -
  define e' where "e' = snd (loadOrCreateCA toy_pki calm_secret_api ''t'' (toy_sync ''etcd'') (Some 2, Some 7) ([], \<lambda>k. None))"
  have cfg: "CASecretName (sy_config (toy_sync ns)) = ''etcd-ca''" "selfNamespace (toy_sync ns) = ns"
    "CASecretNamespace (sy_config (toy_sync ns)) = ''kube-system''" for ns by (simp_all add: toy_sync_def)
  have "loadOrCreateCA toy_pki calm_secret_api ''t'' (toy_sync ''etcd'') (Some 2, Some 7) ([], \<lambda>k. None) = (Inr toy_ca, e')"
    unfolding e'_def loadOrCreateCA_def cfg create_ca_def toy_new_ca
    by (simp add: LoadCAFromSecret_def calm_secret_api_def toy_secret_api_def EnsureCASecret_def
      syncCAToNamespace_def CopyCASecretData_def cfg)
  note w = ca_stored_is_ca_used [OF calm_laws _ this, unfolded cfg]
  have "toy_stored k ([], \<lambda>k. None) = None" for k by (simp add: toy_stored_def)
  then show ?thesis using w unfolding e'_def [symmetric] Let_def by simp
qed

text \<open>
  C38: When the controller owns the CA secret's namespace, one failed read of a secret that is
  there makes it go on with a newly generated CA that is stored nowhere: the stored CA stays,
  and no error is reported.
\<close>

theorem failed_read_forks_ca:
  assumes laws: "secret_laws api stored"
    and same: "CASecretNamespace (sy_config h) = selfNamespace h"
    and failed: "s_get api (selfNamespace h, CASecretName (sy_config h)) e = (SecFailed, e1)"
    and found: "s_get api (selfNamespace h, CASecretName (sy_config h)) e1 = (SecFound s, e2)"
    and keys: "missing_key [CACertKey, CAKeyKey] (sec_Data s) = None"
    and fresh: "new_ca p h d = Inr ca"
  shows "loadOrCreateCA p api now h d e = (Inr ca, e2) \<and>
    stored (selfNamespace h, CASecretName (sy_config h)) e2 = Some s"
proof -
  have "stored (selfNamespace h, CASecretName (sy_config h)) e2 = Some s"
    using get_laws(1,2) [OF laws found] by simp
  moreover have "loadOrCreateCA p api now h d e = (Inr ca, e2)"
    using same failed found keys fresh
    by (simp add: loadOrCreateCA_def LoadCAFromSecret_def create_ca_def EnsureCASecret_def
      del: missing_key.simps)
  ultimately show ?thesis by blast
qed

definition old_ca_secret :: secret where
  "old_ca_secret = \<lparr>sec_Type = ''Opaque'', sec_Data = [(CACertKey, ''old cert''), (CAKeyKey, ''old key'')],
     sec_Annotations = None, sec_Labels = []\<rparr>"

theorem failed_read_forks_ca_witness:
  "\<exists>e'. loadOrCreateCA toy_pki toy_secret_api ''t'' (toy_sync ''kube-system'') (Some 2, Some 7)
      ([True], [(''kube-system'', ''etcd-ca'') \<mapsto> old_ca_secret]) = (Inr toy_ca, e') \<and>
    toy_stored (''kube-system'', ''etcd-ca'') e' = Some old_ca_secret \<and>
    map_of (sec_Data old_ca_secret) CACertKey \<noteq> Some (CertPEM toy_ca)"
proof -
  have cfg: "CASecretName (sy_config (toy_sync ns)) = ''etcd-ca''" "selfNamespace (toy_sync ns) = ns"
    "CASecretNamespace (sy_config (toy_sync ns)) = ''kube-system''" for ns by (simp_all add: toy_sync_def)
  have "loadOrCreateCA toy_pki toy_secret_api ''t'' (toy_sync ''kube-system'') (Some 2, Some 7)
      ([True], [(''kube-system'', ''etcd-ca'') \<mapsto> old_ca_secret])
      = (Inr toy_ca, ([], [(''kube-system'', ''etcd-ca'') \<mapsto> old_ca_secret])) \<and>
    toy_stored (''kube-system'', ''etcd-ca'') ([], [(''kube-system'', ''etcd-ca'') \<mapsto> old_ca_secret]) = Some old_ca_secret"
    by (rule failed_read_forks_ca [OF toy_secret_laws, where h = "toy_sync ''kube-system''"
        and ?e1.0 = "([], [(''kube-system'', ''etcd-ca'') \<mapsto> old_ca_secret])", unfolded cfg, OF refl _ _ _ toy_new_ca])
      (simp_all add: toy_secret_api_def old_ca_secret_def)
  then show ?thesis by (auto simp: old_ca_secret_def toy_ca_def)
qed

text \<open>
  C16: A successful reconciliation of an existing namespace leaves in it a client secret that
  passes the controller's own validation (the current CA, and a certificate that it signed), and
  leaves every other secret alone; so a further reconciliation does nothing.
\<close>

theorem client_secret_valid_after_reconcile:
  assumes laws: "secret_laws api stored" and pki: "pki_laws p"
    and ca: "sy_ca h = Some ca" "usable_ca p ca" "0 < ValidityYears (sy_config h)"
    and got: "got = (case stored (ns, ClientSecretName (sy_config h)) e of
                       None \<Rightarrow> SecNotFound | Some s \<Rightarrow> SecFound s)"
    and run: "Secret_Reconcile p api now h d ns (NsFound False) got e = (GoOk (), e')"
  shows "(\<exists>s. stored (ns, ClientSecretName (sy_config h)) e' = Some s \<and>
           Secret_Reconcile p api now h d2 ns (NsFound False) (SecFound s) e' = (GoOk (), e') \<and>
           validateClientCert p h s = GoOk False) \<and>
    (\<forall>k. k \<noteq> (ns, ClientSecretName (sy_config h)) \<longrightarrow> stored k e' = stored k e)"
  by (rule Secret_Reconcile_valid [OF assms])

theorem client_secret_valid_after_reconcile_witness:
  "let h = toy_sync ''etcd'' \<lparr>sy_ca := Some toy_ca\<rparr>;
       e' = snd (Secret_Reconcile toy_pki toy_secret_api ''t'' h (Some 3, Some 8) ''apps'' (NsFound False) SecNotFound
              ([], \<lambda>k. None))
   in \<exists>s. toy_stored (''apps'', ''etcd-client'') e' = Some s \<and> validateClientCert toy_pki h s = GoOk False"
proof -
  define h where "h = toy_sync ''etcd'' \<lparr>sy_ca := Some toy_ca\<rparr>"
  define e' where "e' = snd (Secret_Reconcile toy_pki toy_secret_api ''t'' h (Some 3, Some 8) ''apps'' (NsFound False) SecNotFound
              ([], \<lambda>k. None))"
  have "Secret_Reconcile toy_pki toy_secret_api ''t'' h (Some 3, Some 8) ''apps'' (NsFound False) SecNotFound
              ([], \<lambda>k. None) = (GoOk (), e')"
    unfolding e'_def h_def
    by (simp add: Secret_Reconcile_def recreateClientSecret_def toy_secret_api_def toy_sync_def
      GenerateClientCert_def finish_cert_def toy_pki_def EnsureClientSecret_def)
  moreover have "sy_ca h = Some toy_ca" "0 < ValidityYears (sy_config h)" by (simp_all add: h_def toy_sync_def)
  moreover have "usable_ca toy_pki toy_ca" by (simp add: usable_ca_def issues_def toy_pki_def toy_ca_def)
  moreover have "SecNotFound = (case toy_stored (''apps'', ClientSecretName (sy_config h)) ([], \<lambda>k. None) of
                       None \<Rightarrow> SecNotFound | Some s \<Rightarrow> SecFound s)" by (simp add: toy_stored_def)
  moreover have "ClientSecretName (sy_config h) = ''etcd-client''" by (simp add: h_def toy_sync_def)
  ultimately show ?thesis
    using client_secret_valid_after_reconcile [OF toy_secret_laws toy_pki_laws, of h toy_ca] unfolding Let_def
    by (metis e'_def h_def)
qed

end
