(* ===== verification/Cluster_Trust.thy ===== *)
theory Cluster_Trust
  imports Secret_Sync Cluster_Main
begin

text \<open>
  The certificates of the two programs together. The secret controller of \<open>ecsnode\<close> keeps the CA
  and the client certificates in secrets; an etcd pod mounts the CA secret of its namespace
  (volume \<open>ssl\<close> of \<open>examples/etcd-sts.yml\<close> and of the chart) and signs its server certificate
  with it. This theory has the controller as a transition system over the secret store and the
  start of a pod on the mounted secret.
\<close>

section \<open>The controller's run\<close>

text \<open>
  A step is one reconciliation, with whatever the cached client answered and whatever the random
  source yielded, ending in any way but a panic.
\<close>

inductive secret_step :: "'k pki \<Rightarrow> 'e secret_api \<Rightarrow> 'k SecretSync \<Rightarrow> 'e \<Rightarrow> 'e \<Rightarrow> bool"
  for p api h where
  "Secret_Reconcile p api now h d ns gotNs gotSecret e = (r, e') \<Longrightarrow> secret_step p api h e e'"

text \<open>The pod's volume: the two files of the CA secret.\<close>

definition mounted_ca :: "secret option \<Rightarrow> string \<Rightarrow> string \<Rightarrow> fsys \<Rightarrow> bool" where
  "mounted_ca so certFile keyFile f \<longleftrightarrow>
     (case so of
        None \<Rightarrow> False
      | Some s \<Rightarrow>
          (case (map_of (sec_Data s) CACertKey, map_of (sec_Data s) CAKeyKey) of
             (Some c, Some k) \<Rightarrow> node f [certFile] = RegFile c \<and> node f [keyFile] = RegFile k
           | _ \<Rightarrow> False))"

text \<open>A side that trusts the certificates of one PEM text, offered the certificate of another.\<close>

definition tls_accepts :: "'k pki \<Rightarrow> string \<Rightarrow> string \<Rightarrow> bool" where
  "tls_accepts p caPEM certPEM =
     (case pem_decode p caPEM of
        None \<Rightarrow> False
      | Some (t1, ca) \<Rightarrow>
          (case pem_decode p certPEM of None \<Rightarrow> False | Some (t2, c) \<Rightarrow> verify_cert p ca c))"

section \<open>Laws\<close>

text \<open>A write touches no secret but its own, whatever it answers.\<close>

definition writes_local :: "'e secret_api \<Rightarrow> (secret_key \<Rightarrow> 'e \<Rightarrow> secret option) \<Rightarrow> bool" where
  "writes_local api stored \<longleftrightarrow>
     (\<forall>k s e k'. k' \<noteq> k \<longrightarrow> stored k' (snd (s_create api k s e)) = stored k' e) \<and>
     (\<forall>k e k'. k' \<noteq> k \<longrightarrow> stored k' (snd (s_delete api k e)) = stored k' e)"

text \<open>
  Both programs use the same library: \<open>sg\<close> reads what \<open>p\<close> reads, with the ECDSA keys of \<open>p\<close>
  among its private keys, and what a CA signs for servers and clients verifies whichever
  of the two has it signed.
\<close>

definition one_library :: "'k pki \<Rightarrow> ('m, 's) signer \<Rightarrow> ('k \<Rightarrow> 's) \<Rightarrow> bool" where
  "one_library p sg ecdsa \<longleftrightarrow>
     sg_pem_decode sg = pem_decode p \<and> sg_pem_encode sg = pem_encode p \<and> sg_parse_cert sg = parse_cert p \<and>
     (\<forall>b. sg_parse_ec sg b = map_option ecdsa (parse_ec p b)) \<and>
     (\<forall>b k. parse_pkcs8 p b = Some (Some k) \<longrightarrow> sg_parse_pkcs8 sg b = Some (ecdsa k)) \<and>
     (\<forall>ca key t k der. issues p ca key \<longrightarrow> 0 < ct_ValidHours t \<longrightarrow>
        {ServerAuth, ClientAuth} \<subseteq> set (ct_ExtKeyUsage t) \<longrightarrow>
        sg_create_cert sg t ca (ecdsa key) k = Some der \<longrightarrow> verify_cert p ca der)"

section \<open>Lemmas\<close>

lemma EnsureClientSecret_other:
  assumes laws: "secret_laws api stored" and wl: "writes_local api stored" and k: "k \<noteq> (ns, name)"
  shows "stored k (snd (EnsureClientSecret p api now ns name ca client e)) = stored k e"
proof -
  obtain g e1 where g: "s_get api (ns, name) e = (g, e1)" by (cases "s_get api (ns, name) e")
  have "stored k (snd (s_create api (ns, name) s e1)) = stored k e1" for s
    using wl k unfolding writes_local_def by blast
  then have cr: "stored k e2 = stored k e1" if "s_create api (ns, name) s e1 = (r, e2)" for s r e2
    using that by (metis snd_conv)
  have "stored k (snd (EnsureClientSecret p api now ns name ca client e)) = stored k e1"
    by (cases g) (auto simp: EnsureClientSecret_def g split: prod.splits sec_write.splits dest!: cr)
  then show ?thesis using get_laws(1) [OF laws g] by simp
qed

lemma recreate_other:
  assumes laws: "secret_laws api stored" and wl: "writes_local api stored"
    and k: "k \<noteq> (ns, ClientSecretName (sy_config h))"
  shows "stored k (snd (recreateClientSecret p api now h d ns e)) = stored k e"
proof -
  let ?n = "ClientSecretName (sy_config h)"
  obtain w e1 where del: "s_delete api (ns, ?n) e = (w, e1)" by (cases "s_delete api (ns, ?n) e")
  have "stored k (snd (s_delete api (ns, ?n) e)) = stored k e" using wl k unfolding writes_local_def by blast
  then have same: "stored k e1 = stored k e" by (simp add: del)
  have ens: "stored k e2 = stored k e1"
    if "EnsureClientSecret p api now ns ?n ca client e1 = (r, e2)" for ca client r e2
    using EnsureClientSecret_other [OF laws wl k, of p now ca client e1] that by simp
  show ?thesis
    using same by (cases w) (auto simp: recreateClientSecret_def del split: option.splits sum.splits prod.splits dest!: ens)
qed

lemma Secret_Reconcile_other:
  assumes "secret_laws api stored" and "writes_local api stored"
    and "k \<noteq> (ns, ClientSecretName (sy_config h))"
  shows "stored k (snd (Secret_Reconcile p api now h d ns gotNs gotSecret e)) = stored k e"
  using recreate_other [OF assms]
  by (auto simp: Secret_Reconcile_def split: ns_get.split sec_result.split gores.split bool.split)

lemma secret_step_other:
  assumes "secret_laws api stored" and "writes_local api stored" and "n \<noteq> ClientSecretName (sy_config h)"
    and "secret_step p api h e e'"
  shows "stored (ns, n) e' = stored (ns, n) e"
  using assms(4)
proof cases
  case (1 now d ns' gotNs gotSecret r)
  then show ?thesis
    using Secret_Reconcile_other [OF assms(1,2), of "(ns, n)" ns' h p now d gotNs gotSecret e] assms(3) by simp
qed

lemma ensure_loop_other:
  assumes "secret_laws api stored" and "writes_local api stored" and "n \<noteq> name"
  shows "stored (ns, n) (ensure_loop p api now name ca client nss e) = stored (ns, n) e"
  by (induction nss arbitrary: e) (simp_all add: EnsureClientSecret_other [OF assms(1,2)] assms(3))


lemma ensureClientCertificates_other:
  assumes "secret_laws api stored" and "writes_local api stored" and "n \<noteq> ClientSecretName (sy_config h)"
  shows "stored (ns, n) (ensureClientCertificates p api now order h ca d e) = stored (ns, n) e"
  by (simp add: ensureClientCertificates_def ensure_loop_other [OF assms] split: sum.split)

lemma secret_steps_other:
  assumes "secret_laws api stored" and "writes_local api stored" and "n \<noteq> ClientSecretName (sy_config h)"
    and "(secret_step p api h)\<^sup>*\<^sup>* e e'"
  shows "stored (ns, n) e' = stored (ns, n) e"
  using assms(4) by (induction rule: rtranclp_induct) (simp_all add: secret_step_other [OF assms(1-3)])

subsection \<open>The CA the controller goes on with\<close>

text \<open>A stored CA secret that can be loaded, to a CA that is usable.\<close>

definition trusted_secret :: "'k pki \<Rightarrow> secret \<Rightarrow> bool" where
  "trusted_secret p s \<longleftrightarrow> gowf (sec_Data s) \<and>
     (\<exists>c k ca. map_of (sec_Data s) CACertKey = Some c \<and> map_of (sec_Data s) CAKeyKey = Some k \<and>
        LoadCA p c k = Inr ca \<and> usable_ca p ca)"

definition loads_back :: "'k pki \<Rightarrow> 'k CACertificate \<Rightarrow> bool" where
  "loads_back p ca \<longleftrightarrow> LoadCA p (CertPEM ca) (KeyPEM ca) = Inr ca \<and> usable_ca p ca"

lemma trusted_loadable: "trusted_secret p s \<Longrightarrow> loadable p s"
  unfolding trusted_secret_def loadable_def by blast

lemma LoadCAFromSecret_trusted:
  assumes laws: "secret_laws api stored" and run: "LoadCAFromSecret p api ns name e = (Inr ca, e')"
    and ok: "\<And>s. stored (ns, name) e = Some s \<Longrightarrow> trusted_secret p s"
  shows "loads_back p ca"
proof -
  obtain s where g: "s_get api (ns, name) e = (SecFound s, e')"
    using run by (auto simp: LoadCAFromSecret_def split: prod.splits sec_result.splits)
  obtain c k ca' where "map_of (sec_Data s) CACertKey = Some c" "map_of (sec_Data s) CAKeyKey = Some k"
    and l: "LoadCA p c k = Inr ca'" "usable_ca p ca'"
    using ok [OF get_laws(2) [OF laws g refl]] by (auto simp: trusted_secret_def)
  then have "ca' = ca" using run g by (simp add: LoadCAFromSecret_def)
  then show ?thesis using l LoadCA_PEM [OF l(1)] by (simp add: loads_back_def)
qed

lemma create_ca_loads_back:
  assumes "pki_laws p" and "0 < ValidityYears (sy_config h)" and "create_ca p api now h d ns e = (Inr ca, e')"
  shows "loads_back p ca"
proof -
  have "new_ca p h d = Inr ca"
    using assms(3) by (auto simp: create_ca_def split: sum.splits prod.splits option.splits)
  from GenerateCA_loads_back [OF assms(1) _ this [unfolded new_ca_def]] show ?thesis
    using assms(2) by (simp add: loads_back_def)
qed

lemma loadOrCreateCA_loads_back:
  assumes laws: "secret_laws api stored" and pki: "pki_laws p" and v: "0 < ValidityYears (sy_config h)"
    and ok: "\<And>ns s. stored (ns, CASecretName (sy_config h)) e = Some s \<Longrightarrow> trusted_secret p s"
    and run: "loadOrCreateCA p api now h d e = (Inr ca, e')"
  shows "loads_back p ca"
proof -
  define name where "name = CASecretName (sy_config h)"
  define cn where "cn = CASecretNamespace (sy_config h)"
  define sn where "sn = selfNamespace h"
  obtain r1 e1 where load1: "LoadCAFromSecret p api cn name e = (r1, e1)"
    by (cases "LoadCAFromSecret p api cn name e")
  obtain r2 e2 where load2: "LoadCAFromSecret p api sn name e1 = (r2, e2)"
    by (cases "LoadCAFromSecret p api sn name e1")
  have same1: "stored k e1 = stored k e" for k using LoadCAFromSecret_spec(1) [OF laws load1] .
  note defs = loadOrCreateCA_def cn_def [symmetric] sn_def [symmetric] name_def [symmetric] Let_def
  show ?thesis
  proof (cases r1)
    case (Inr ca1)
    then have "ca1 = ca"
      using run load1 by (auto simp: defs split: if_splits prod.splits option.splits)
    then show ?thesis
      using LoadCAFromSecret_trusted [OF laws, of p cn name e ca e1] load1 Inr ok name_def by simp
  next
    case (Inl err)
    then consider (loaded) "r2 = Inr ca" | (created) ns e3 e4 where "create_ca p api now h d ns e3 = (Inr ca, e4)"
      using run load1 load2
      by (cases r2) (auto simp: defs split: if_splits prod.splits option.splits sum.splits)
    then show ?thesis
    proof cases
      case loaded
      then show ?thesis
        using LoadCAFromSecret_trusted [OF laws, of p sn name e1 ca e2] load2 ok same1 name_def by simp
    next
      case created
      then show ?thesis by (rule create_ca_loads_back [OF pki v])
    qed
  qed
qed


subsection \<open>The pod\<close>

lemma loaded_files:
  assumes m: "mounted_ca so certFile keyFile f" and h: "holds_ca so ca" and l: "loads_back p ca"
    and lib: "one_library p sg ecdsa"
  shows "loadCA_files sg f certFile keyFile = Inr (Certificate ca, ecdsa (PrivateKey ca))"
    and "node f [certFile] = RegFile (CertPEM ca)"
proof -
  have n: "node f [certFile] = RegFile (CertPEM ca)" "node f [keyFile] = RegFile (KeyPEM ca)"
    using m h by (auto simp: mounted_ca_def holds_ca_def)
  then show "node f [certFile] = RegFile (CertPEM ca)" by simp
  have dec: "sg_pem_decode sg = pem_decode p" and pc: "sg_parse_cert sg = parse_cert p"
    and ec: "\<And>b. sg_parse_ec sg b = map_option ecdsa (parse_ec p b)"
    and p8: "\<And>b k. parse_pkcs8 p b = Some (Some k) \<Longrightarrow> sg_parse_pkcs8 sg b = Some (ecdsa k)"
    using lib unfolding one_library_def by blast+
  have "loadCertAndKey p (CertPEM ca) (KeyPEM ca) = Inr (Certificate ca, PrivateKey ca)"
    using l by (cases ca) (auto simp: loads_back_def LoadCA_def split: sum.splits)
  then obtain ct kt b where c: "pem_decode p (CertPEM ca) = Some (ct, Certificate ca)" "parse_cert p (Certificate ca)"
    and k: "pem_decode p (KeyPEM ca) = Some (kt, b)"
      "kt = ''EC PRIVATE KEY'' \<and> parse_ec p b = Some (PrivateKey ca) \<or>
       kt = ''PRIVATE KEY'' \<and> parse_pkcs8 p b = Some (Some (PrivateKey ca))"
    by (auto simp: loadCertAndKey_def split: option.splits if_splits)
  have "loadCACertificate sg f certFile = Inr (Certificate ca)"
    using c n(1) by (simp add: loadCACertificate_def read_file_def dec pc)
  moreover have "loadCAPrivateKey sg f keyFile = Inr (ecdsa (PrivateKey ca))"
    using k n(2) p8 by (auto simp: loadCAPrivateKey_def read_file_def dec ec Let_def)
  ultimately show "loadCA_files sg f certFile keyFile = Inr (Certificate ca, ecdsa (PrivateKey ca))"
    by (simp add: loadCA_files_def)
qed

text \<open>A generation into a fresh directory: the pod's certificate and its copy of the CA.\<close>

lemma GenerateCertificate_trusted:
  assumes run: "GenerateCertificate sg o' key serial cfg f = (None, f')"
    and ca: "loadCA_files sg f (ic_CAFile cfg) (ic_CAKeyFile cfg) = Inr (Certificate ca, ecdsa (PrivateKey ca))"
      "node f [ic_CAFile cfg] = RegFile (CertPEM ca)" "issues p (Certificate ca) (PrivateKey ca)"
    and lib: "one_library p sg ecdsa"
    and fresh: "\<And>q. node f [ic_CertDir cfg, q] = Absent" and name: "ic_PodName cfg \<noteq> ''ca''"
  shows "\<exists>der. node f' (cert_file_of cfg) = RegFile (pem_encode p ''CERTIFICATE'' der) \<and> verify_cert p (Certificate ca) der"
    and "node f' [ic_CertDir cfg, ''ca.pem''] = RegFile (CertPEM ca)"
proof -
  have new: "\<not> (fileExists f (cert_file_of cfg) \<and> fileExists f (key_file_of cfg))"
    using fresh by (simp add: fileExists_def cert_file_of_def)
  obtain f1 caCert caKey k der where mk: "mkdir_all o' [ic_CertDir cfg] f = (True, f1)"
    and ca1: "loadCA_files sg f1 (ic_CAFile cfg) (ic_CAKeyFile cfg) = Inr (caCert, caKey)"
    and der: "sg_create_cert sg (createCertTemplate cfg serial) caCert caKey k = Some der"
    and wr: "(case writeCertFiles sg o' (cert_file_of cfg) (key_file_of cfg) der k f1 of
            (Some e, f2) \<Rightarrow> (Some e, f2)
          | (None, f2) \<Rightarrow> copyCACert o' (ic_CAFile cfg) (ic_CertDir cfg) f2) = (None, f')"
    by (rule GenerateCertificate_writes [OF run new]) simp_all
  have same: "caCert = Certificate ca" "caKey = ecdsa (PrivateKey ca)"
    using loadCA_files_mkdir [OF mk ca1] ca(1) by simp_all
  obtain f2 where w: "writeCertFiles sg o' (cert_file_of cfg) (key_file_of cfg) der k f1 = (None, f2)"
    and cp: "copyCACert o' (ic_CAFile cfg) (ic_CertDir cfg) f2 = (None, f')"
    using wr by (auto split: prod.splits option.splits)
  obtain b where n2: "node f2 = (node f1)(cert_file_of cfg := RegFile (sg_pem_encode sg ''CERTIFICATE'' der),
           key_file_of cfg := RegFile (sg_pem_encode sg ''EC PRIVATE KEY'' b))"
    by (rule writeCertFiles_ok [OF w]) simp_all
  have ne: "[ic_CertDir cfg, ''ca.pem''] \<noteq> cert_file_of cfg" "[ic_CertDir cfg, ''ca.pem''] \<noteq> key_file_of cfg"
    "[ic_CAFile cfg] \<noteq> cert_file_of cfg" "[ic_CAFile cfg] \<noteq> key_file_of cfg"
    using name by (auto simp: cert_file_of_def key_file_of_def dest: arg_cong [of _ _ rev])
  have "ic_CAFile cfg \<noteq> ic_CertDir cfg \<or> node f1 [ic_CAFile cfg] = Directory"
    using mkdir_all_ok [OF mk] by auto
  moreover obtain c where "read_file f1 [ic_CAFile cfg] = Some c"
    using ca1 by (auto simp: loadCA_files_def loadCACertificate_def split: sum.splits option.splits)
  ultimately have "ic_CAFile cfg \<noteq> ic_CertDir cfg" by (auto simp: read_file_def)
  then have "node f2 [ic_CAFile cfg] = RegFile (CertPEM ca)" and absent: "node f2 [ic_CertDir cfg, ''ca.pem''] = Absent"
    using mkdir_all_ok [OF mk] ca(2) fresh ne by (simp_all add: n2)
  then show "node f' [ic_CertDir cfg, ''ca.pem''] = RegFile (CertPEM ca)"
    using copyCACert_ok(3) [OF cp] by (simp add: fileExists_def)
  have "sg_pem_encode sg = pem_encode p" and
    verify: "\<And>ca key t k der. issues p ca key \<Longrightarrow> 0 < ct_ValidHours t \<Longrightarrow>
        {ServerAuth, ClientAuth} \<subseteq> set (ct_ExtKeyUsage t) \<Longrightarrow>
        sg_create_cert sg t ca (ecdsa key) k = Some der \<Longrightarrow> verify_cert p ca der"
    using lib unfolding one_library_def by blast+
  moreover have "node f' (cert_file_of cfg) = node f2 (cert_file_of cfg)"
    using copyCACert_ok(2) [OF cp] ne(1) by simp
  moreover have "verify_cert p (Certificate ca) der"
    by (rule verify [OF ca(3) _ _ der [unfolded same]]) (simp_all add: createCertTemplate_def Let_def)
  ultimately show "\<exists>der. node f' (cert_file_of cfg) = RegFile (pem_encode p ''CERTIFICATE'' der) \<and> verify_cert p (Certificate ca) der"
    by (auto simp: n2)
qed

lemma mkdir_all_keeps:
  assumes "mkdir_all o' p f = (r, f')"
  shows "node f q = RegFile c \<Longrightarrow> node f' q = RegFile c" and "q \<noteq> p \<Longrightarrow> node f' q = node f q"
  using assms by (auto simp: mkdir_all_def split: if_splits)

lemma create_dirs_keeps:
  "create_dirs o' ds f = (r, f') \<Longrightarrow> (node f q = RegFile c \<longrightarrow> node f' q = RegFile c) \<and> (length q \<noteq> 1 \<longrightarrow> node f' q = node f q)"
proof (induction ds arbitrary: f)
  case (Cons d ds)
  obtain ok f1 where mk: "mkdir_all o' [d] f = (ok, f1)" by (cases "mkdir_all o' [d] f")
  have "length q \<noteq> 1 \<longrightarrow> q \<noteq> [d]" by auto
  then show ?case
    using Cons.IH [of f1] Cons.prems mkdir_all_keeps [OF mk] mk by (cases ok) auto
qed simp

lemma mounted_ca_mono:
  "mounted_ca so c k f \<Longrightarrow> (\<And>q d. node f q = RegFile d \<Longrightarrow> node f' q = RegFile d) \<Longrightarrow> mounted_ca so c k f'"
  by (auto simp: mounted_ca_def split: option.splits)

text \<open>The start of a pod whose certificate directory is fresh.\<close>

lemma pod_start_trusted:
  assumes run: "cluster_main sp lookpath w = (Looping cfg bin, w')"
    and m: "mounted_ca so (ec_CAFile cfg) (ec_CAKeyFile cfg) (fs w)"
    and ca: "holds_ca so ca" "loads_back p ca" and lib: "one_library p (sp_signer sp) ecdsa"
    and fresh: "\<And>q. node (fs w) [ec_CertDir cfg, q] = Absent"
  shows "\<exists>der. read_file (fs w') [ec_CertDir cfg, ec_PodName cfg @ ''.pem''] = Some (pem_encode p ''CERTIFICATE'' der) \<and>
      verify_cert p (Certificate ca) der"
    and "read_file (fs w') [ec_CertDir cfg, ''ca.pem''] = Some (CertPEM ca)"
proof -
  let ?c = "init_cert_config cfg"
  obtain f1 f2 info m' f3 where
    gen: "GenerateCertificate (sp_signer sp) (sp_faults sp) (sp_key sp) (sp_serial sp) ?c f1 = (None, f2)"
    and probe: "write_probe_files (sp_faults sp) cfg (init_env_config cfg info) (getenv m') f2 = (None, f3)"
    and w': "w' = w\<lparr>fs := f3, env := m'\<rparr>"
    and dirs: "CreateDirectories (sp_faults sp) (ec_DataDir cfg) (ec_CertDir cfg) (fs w) = (True, f1)"
    by (rule initializeEnvironment_ok [OF cluster_main_looping(2) [OF run]])
  have kept: "node f1 q = RegFile d" if "node (fs w) q = RegFile d" for q d
    using create_dirs_keeps [OF dirs [unfolded CreateDirectories_def]] that by blast
  have other: "node f1 q = node (fs w) q" if "length q \<noteq> 1" for q
    using create_dirs_keeps [OF dirs [unfolded CreateDirectories_def]] that by blast
  have sel: "ic_CAFile ?c = ec_CAFile cfg" "ic_CAKeyFile ?c = ec_CAKeyFile cfg" "ic_CertDir ?c = ec_CertDir cfg"
    "ic_PodName ?c = ec_PodName cfg" by (simp_all add: init_cert_config_def)
  have m1: "mounted_ca so (ec_CAFile cfg) (ec_CAKeyFile cfg) f1" using mounted_ca_mono [OF m] kept by blast
  have fr: "node f1 [ec_CertDir cfg, q] = Absent" for q using other [of "[ec_CertDir cfg, q]"] fresh by simp
  obtain ds where "ec_PodName cfg = ec_Prefix cfg @ CHR ''-'' # ds"
    using loadConfig_config_ok(1) [OF cluster_main_looping(1) [OF run]] by (auto simp: config_ok_def)
  then have "CHR ''-'' \<in> set (ec_PodName cfg)" by simp
  then have "ec_PodName cfg \<noteq> ''ca''" by auto
  moreover have "issues p (Certificate ca) (PrivateKey ca)" using ca(2) by (simp add: loads_back_def usable_ca_def)
  ultimately have g: "\<exists>der. node f2 (cert_file_of ?c) = RegFile (pem_encode p ''CERTIFICATE'' der) \<and> verify_cert p (Certificate ca) der"
    "node f2 [ec_CertDir cfg, ''ca.pem''] = RegFile (CertPEM ca)"
    using GenerateCertificate_trusted [OF gen, unfolded sel, OF loaded_files [OF m1 ca lib] _ lib fr] by simp_all
  have "node f3 q = node f2 q" if "length q \<noteq> 1" for q using write_probe_files_other [OF probe that] .
  with g show "read_file (fs w') [ec_CertDir cfg, ''ca.pem''] = Some (CertPEM ca)"
    "\<exists>der. read_file (fs w') [ec_CertDir cfg, ec_PodName cfg @ ''.pem''] = Some (pem_encode p ''CERTIFICATE'' der) \<and>
      verify_cert p (Certificate ca) der"
    by (auto simp: w' read_file_def cert_file_of_def sel)
qed


subsection \<open>What validation of the client secret tells\<close>

lemma validateClientCert_ok:
  assumes "validateClientCert p h s = GoOk False" and "sy_ca h = Some ca"
  obtains caPEM t1 crt t2 der where "map_of (sec_Data s) CACertKey = Some caPEM"
    and "pem_decode p caPEM = Some (t1, Certificate ca)" and "map_of (sec_Data s) TLSCertKey = Some crt"
    and "pem_decode p crt = Some (t2, der)" and "verify_cert p (Certificate ca) der"
  using assms by (auto simp: validateClientCert_def split: option.splits prod.splits if_splits)

section \<open>Properties\<close>


text \<open>An example: pod 2 of the demonstration, on the CA that the controller of its namespace made.\<close>

definition trust_signer :: "(nat, nat) signer" where
  "trust_signer = toy_signer\<lparr>sg_create_cert := (\<lambda>t c s k. Some (''by '' @ c))\<rparr>"

definition trust_world :: "nat world" where
  "trust_world = start_world\<lparr>fs := \<lparr>node = (\<lambda>p. if p = [''/run/ssl/ca.pem''] then RegFile (CertPEM toy_ca)
        else if p = [''/run/ssl/ca-key.pem''] then RegFile (KeyPEM toy_ca) else Absent), sticky = (\<lambda>p. False)\<rparr>\<rparr>"

lemma trust_library: "one_library toy_pki trust_signer id"
  by (simp add: one_library_def toy_pki_def trust_signer_def toy_signer_def)

lemma toy_writes_local: "writes_local calm_secret_api toy_stored"
  unfolding writes_local_def calm_secret_api_def toy_secret_api_def toy_stored_def by auto

lemma trust_pod_run:
  "\<exists>cfg w'. cluster_main (start_demo\<lparr>sp_signer := trust_signer\<rparr>) (\<lambda>p. Some ''etcd'') trust_world = (Looping cfg ''etcd'', w') \<and>
     ec_CertDir cfg = ''/run/etcd/ssl'' \<and> ec_PodName cfg = ''etcd-2'' \<and> ec_PodNamespace cfg = ''ns'' \<and>
     ec_CAFile cfg = ''/run/ssl/ca.pem'' \<and> ec_CAKeyFile cfg = ''/run/ssl/ca-key.pem''"
proof -
  have "(case cluster_main (start_demo\<lparr>sp_signer := trust_signer\<rparr>) (\<lambda>p. Some ''etcd'') trust_world of
      (Looping cfg b, w') \<Rightarrow> b = ''etcd'' \<and> ec_CertDir cfg = ''/run/etcd/ssl'' \<and> ec_PodName cfg = ''etcd-2'' \<and>
         ec_PodNamespace cfg = ''ns'' \<and> ec_CAFile cfg = ''/run/ssl/ca.pem'' \<and> ec_CAKeyFile cfg = ''/run/ssl/ca-key.pem''
    | _ \<Rightarrow> False)" by code_simp
  then show ?thesis by (auto split: prod.splits main_result.splits)
qed

definition empty_store :: toy_secrets where "empty_store = ([], \<lambda>k. None)"

lemma trust_start:
  "\<exists>h1 e1 s. SecretSync_Start toy_pki calm_secret_api ''t'' (\<lambda>n. [''apps'']) (Some 2, Some 7) (Some 3, Some 8)
       (toy_sync ''ns'') empty_store = (None, h1, e1) \<and>
     mounted_ca (toy_stored (''ns'', ''etcd-ca'') e1) ''/run/ssl/ca.pem'' ''/run/ssl/ca-key.pem'' (fs trust_world) \<and>
     toy_stored (''apps'', ''etcd-client'') e1 = Some s \<and> validateClientCert toy_pki h1 s = GoOk False"
proof -
  have "(case SecretSync_Start toy_pki calm_secret_api ''t'' (\<lambda>n. [''apps'']) (Some 2, Some 7) (Some 3, Some 8)
       (toy_sync ''ns'') empty_store of (err, h1, e1) \<Rightarrow> err = None \<and>
     mounted_ca (toy_stored (''ns'', ''etcd-ca'') e1) ''/run/ssl/ca.pem'' ''/run/ssl/ca-key.pem'' (fs trust_world) \<and>
     (case toy_stored (''apps'', ''etcd-client'') e1 of None \<Rightarrow> False
      | Some s \<Rightarrow> (case validateClientCert toy_pki h1 s of GoOk b \<Rightarrow> \<not> b | _ \<Rightarrow> False)))" by code_simp
  then show ?thesis by (auto split: prod.splits option.splits gores.splits)
qed


end
