(* ===== verification/Cert_Rotation.thy ===== *)
theory Cert_Rotation
  imports Secret_Sync
begin

text \<open>
  The life of a stored certificate as the two rotation functions of \<open>pkg/cert/secret.go\<close> see it
  (\<open>CheckCertificateRotationNeeded\<close> and \<open>EnableCertificateRotation\<close>, which no controller calls
  yet), over the secrets that \<open>EnsureCASecret\<close> stores.
\<close>

section \<open>Lemmas\<close>

lemma annotation_keys [simp]:
  "AnnotationCreatedAt \<noteq> AnnotationRotationFlag" "AnnotationExpiresAt \<noteq> AnnotationRotationFlag"
  "AnnotationRotationFlag \<noteq> AnnotationExpiresAt" "AnnotationCreatedAt \<noteq> AnnotationExpiresAt"
  "AnnotationRotationFlag \<noteq> AnnotationCreatedAt" "AnnotationExpiresAt \<noteq> AnnotationCreatedAt"
  by (simp_all add: AnnotationCreatedAt_def AnnotationExpiresAt_def AnnotationRotationFlag_def)

lemma read_stored:
  assumes laws: "secret_laws api stored" and rw: "reads_work api" and st: "stored k e = Some s"
  obtains e' where "s_get api k e = (SecFound s, e')" and "\<And>k'. stored k' e' = stored k' e"
proof -
  obtain g e' where g: "s_get api k e = (g, e')" by (cases "s_get api k e")
  have "g \<noteq> SecFailed" using rw g unfolding reads_work_def by (metis fst_conv)
  then have "g = SecFound s" using get_laws(2,3) [OF laws g] st by (cases g) auto
  then show thesis using that g get_laws(1) [OF laws g] by blast
qed

text \<open>What a check tells of a stored secret.\<close>

lemma check_stored:
  assumes "secret_laws api stored" and "reads_work api" and "stored (ns, name) e = Some s"
    and "sec_Annotations s = Some ann"
    and "CheckCertificateRotationNeeded api parse_time now ns name threshold e = (r, e')"
  shows "stored k e' = stored k e"
    and "map_of ann AnnotationRotationFlag \<noteq> Some ''true'' \<Longrightarrow> r = Inr False"
    and "map_of ann AnnotationRotationFlag = Some ''true'' \<Longrightarrow> map_of ann AnnotationExpiresAt = Some x \<Longrightarrow>
      parse_time x = Some t \<Longrightarrow> r = Inr (t - now < threshold)"
proof -
  obtain e1 where g: "s_get api (ns, name) e = (SecFound s, e1)" and same: "\<And>k'. stored k' e1 = stored k' e"
    by (rule read_stored [OF assms(1-3)]) blast
  note run = assms(5) [unfolded CheckCertificateRotationNeeded_def g prod.case sec_result.case assms(4) option.case Let_def]
  have "e' = e1" using run by (auto split: if_splits option.splits)
  then show "stored k e' = stored k e" using same by simp
  show "r = Inr False" if "map_of ann AnnotationRotationFlag \<noteq> Some ''true''" using run that by simp
  show "r = Inr (t - now < threshold)"
    if "map_of ann AnnotationRotationFlag = Some ''true''" "map_of ann AnnotationExpiresAt = Some x" "parse_time x = Some t"
    using run that by simp
qed

lemma enable_stored:
  assumes "secret_laws api stored" and "reads_work api" and "stored (ns, name) e = Some s"
    and "sec_Annotations s = Some ann" and "EnableCertificateRotation api ns name e = (None, e')"
  shows "stored k e' = (if k = (ns, name)
    then Some (s\<lparr>sec_Annotations := Some (AList.update AnnotationRotationFlag ''true'' ann)\<rparr>) else stored k e)"
proof -
  obtain e1 where g: "s_get api (ns, name) e = (SecFound s, e1)" and same: "\<And>k'. stored k' e1 = stored k' e"
    by (rule read_stored [OF assms(1-3)]) blast
  have "s_update api (ns, name) (s\<lparr>sec_Annotations := Some (AList.update AnnotationRotationFlag ''true'' ann)\<rparr>) e1 = (WriteOk, e')"
    using assms(5) g by (auto simp: EnableCertificateRotation_def assms(4) split: prod.splits sec_write.splits)
  from write_laws(2) [OF assms(1) this] show ?thesis by (simp add: same)
qed

lemma ensured_ca_secret:
  assumes laws: "secret_laws api stored" and rw: "reads_work api" and absent: "stored (ns, name) e = None"
    and run: "EnsureCASecret p api now ns name ca e = (None, e')"
  obtains s where "stored (ns, name) e' = Some s" and "sec_Data s = ca_data ca"
    and "sec_Annotations s = Some [(AnnotationCreatedAt, now), (AnnotationExpiresAt, not_after p (Certificate ca)),
      (AnnotationRotationFlag, ''false'')]"
proof -
  obtain g e1 where g: "s_get api (ns, name) e = (g, e1)" by (cases "s_get api (ns, name) e")
  have "g \<noteq> SecFailed" using rw g unfolding reads_work_def by (metis fst_conv)
  then have "g = SecNotFound" using get_laws(2) [OF laws g] absent by (cases g) auto
  then obtain s where cr: "s_create api (ns, name) s e1 = (WriteOk, e')" and s: "sec_Data s = ca_data ca"
    "sec_Annotations s = Some [(AnnotationCreatedAt, now), (AnnotationExpiresAt, not_after p (Certificate ca)),
      (AnnotationRotationFlag, ''false'')]"
    using g run by (auto simp: EnsureCASecret_def split: prod.splits sec_write.splits)
  show thesis using that s write_laws(1) [OF laws cr] by simp
qed

section \<open>Properties\<close>

text \<open>
  C30: A CA secret that was just created is never due for rotation; once rotation is enabled it
  is due exactly when less than the threshold is left of the certificate's validity; and neither
  the checks nor enabling touch the key material or any other secret. (Reads do not fail, and the
  expiry that the certificate carries is a time that parses back.)
\<close>

theorem rotation_follows_flag_and_expiry:
  assumes "secret_laws api stored" and "reads_work api" and "stored (ns, name) e = None"
    and "EnsureCASecret p api created ns name ca e = (None, e1)"
    and "CheckCertificateRotationNeeded api parse_time now1 ns name threshold e1 = (r1, e2)"
    and "EnableCertificateRotation api ns name e2 = (None, e3)"
    and "CheckCertificateRotationNeeded api parse_time now2 ns name threshold e3 = (r2, e4)"
    and "parse_time (not_after p (Certificate ca)) = Some t"
  shows "r1 = Inr False \<and> r2 = Inr (t - now2 < threshold) \<and>
    (\<exists>s. stored (ns, name) e4 = Some s \<and> sec_Data s = ca_data ca) \<and>
    (\<forall>k. k \<noteq> (ns, name) \<longrightarrow> stored k e4 = stored k e1)"
proof -
  obtain s where s: "stored (ns, name) e1 = Some s" "sec_Data s = ca_data ca"
    and ann: "sec_Annotations s = Some [(AnnotationCreatedAt, created), (AnnotationExpiresAt, not_after p (Certificate ca)),
      (AnnotationRotationFlag, ''false'')]"
    by (rule ensured_ca_secret [OF assms(1-4)])
  note c1 = check_stored [OF assms(1,2) s(1) ann assms(5)]
  have s2: "stored (ns, name) e2 = Some s" using c1(1) s(1) by simp
  note en = enable_stored [OF assms(1,2) s2 ann assms(6)]
  let ?ann = "AList.update AnnotationRotationFlag ''true''
    [(AnnotationCreatedAt, created), (AnnotationExpiresAt, not_after p (Certificate ca)), (AnnotationRotationFlag, ''false'')]"
  have s3: "stored (ns, name) e3 = Some (s\<lparr>sec_Annotations := Some ?ann\<rparr>)" using en by simp
  note c2 = check_stored [OF assms(1,2) s3 _ assms(7), of ?ann]
  have "r2 = Inr (t - now2 < threshold)" using c2(3) assms(8) by simp
  moreover have "r1 = Inr False" using c1(2) by simp
  moreover have "stored k e4 = stored k e1" if "k \<noteq> (ns, name)" for k using that c2(1) en c1(1) by simp
  moreover have "stored (ns, name) e4 = Some (s\<lparr>sec_Annotations := Some ?ann\<rparr>)" using c2(1) s3 by simp
  ultimately show ?thesis using s(2) by auto
qed

definition toy_time :: "string \<Rightarrow> int option" where
  "toy_time s = (if s = ''2125'' then Some 2125 else None)"

theorem rotation_follows_flag_and_expiry_witness:
  "\<exists>e1 e2 e3 e4. EnsureCASecret toy_pki calm_secret_api ''2025'' ''ns'' ''ca'' toy_ca ([], \<lambda>k. None) = (None, e1) \<and>
     CheckCertificateRotationNeeded calm_secret_api toy_time 2124 ''ns'' ''ca'' 2 e1 = (Inr False, e2) \<and>
     EnableCertificateRotation calm_secret_api ''ns'' ''ca'' e2 = (None, e3) \<and>
     CheckCertificateRotationNeeded calm_secret_api toy_time 2124 ''ns'' ''ca'' 2 e3 = (Inr True, e4)"
proof -
  obtain r0 e1 where 1: "EnsureCASecret toy_pki calm_secret_api ''2025'' ''ns'' ''ca'' toy_ca ([], \<lambda>k. None) = (r0, e1)"
    by (meson surj_pair)
  obtain r1 e2 where 2: "CheckCertificateRotationNeeded calm_secret_api toy_time 2124 ''ns'' ''ca'' 2 e1 = (r1, e2)" by (meson surj_pair)
  obtain r2 e3 where 3: "EnableCertificateRotation calm_secret_api ''ns'' ''ca'' e2 = (r2, e3)" by (meson surj_pair)
  obtain r3 e4 where 4: "CheckCertificateRotationNeeded calm_secret_api toy_time 2124 ''ns'' ''ca'' 2 e3 = (r3, e4)" by (meson surj_pair)
  have ok: "fst (EnsureCASecret toy_pki calm_secret_api ''2025'' ''ns'' ''ca'' toy_ca ([], \<lambda>k. None)) = None \<and>
      fst (EnableCertificateRotation calm_secret_api ''ns'' ''ca''
        (snd (CheckCertificateRotationNeeded calm_secret_api toy_time 2124 ''ns'' ''ca'' 2
          (snd (EnsureCASecret toy_pki calm_secret_api ''2025'' ''ns'' ''ca'' toy_ca ([], \<lambda>k. None)))))) = None"
    by code_simp
  then have none: "r0 = None" "r2 = None" using 1 2 3 by simp_all
  moreover have "toy_stored (''ns'', ''ca'') ([], \<lambda>k. None) = None" by (simp add: toy_stored_def)
  moreover have "toy_time (not_after toy_pki (Certificate toy_ca)) = Some 2125" by (simp add: toy_time_def toy_pki_def)
  ultimately have "r1 = Inr False \<and> r3 = Inr True"
    using rotation_follows_flag_and_expiry [OF calm_laws(1) calm_laws(2), of "''ns''" "''ca''" "([], \<lambda>k. None)" toy_pki "''2025''" toy_ca e1
        toy_time 2124 2 r1 e2 e3 2124 r3 e4 2125] 1 2 3 4 by simp
  then show ?thesis using 1 2 3 4 none by blast
qed

end
