(* ===== verification/Host_Mirror.thy ===== *)
theory Host_Mirror
  imports Etcd_Prelude "HOL-Library.Char_ord" "HOL-Library.List_Lexorder"
begin

text \<open>
  The map from a master address to a node's addresses, which the ECSNode controller publishes
  and the pod and the ConfigMap controllers copy with the same two loops. A
  \<open>sets.Set[string]\<close> is a set; nothing mutates one after it has been stored. What a copy must
  promise to the pipeline is the locale \<open>follower\<close>.
\<close>

type_synonym host_map = "(string, string set) gomap"

text \<open>The payloads of the bus: the ECSNode controller's own map, by reference, or nil.\<close>

datatype payload = HostIPs | NilData

definition EcsNodeTopic :: string where "EcsNodeTopic = ''/ecsnode''"
definition PodTopic :: string where "PodTopic = ''/pod''"

text \<open>A topic without publisher, and the delay before a retry, in nanoseconds.\<close>

definition NodeTopic :: string where "NodeTopic = ''/node''"
definition RequeuDelay :: int where "RequeuDelay = 5 * 1000000000"

text \<open>``Add or update'': the loop over the received map; \<open>changed\<close> collects the keys.\<close>

fun mirror_add :: "host_map \<Rightarrow> host_map \<Rightarrow> string list \<Rightarrow> host_map \<times> string list" where
  "mirror_add [] old changed = (old, changed)"
| "mirror_add ((k, v) # origin) old changed =
     (if map_of old k = Some v then mirror_add origin old changed
      else mirror_add origin (AList.update k v old) (changed @ [k]))"

text \<open>``Remove not existing'': the loop over the own map, run when it has more entries.\<close>

fun mirror_prune :: "host_map \<Rightarrow> host_map \<Rightarrow> host_map \<Rightarrow> string list \<Rightarrow> host_map \<times> string list" where
  "mirror_prune origin [] old changed = (old, changed)"
| "mirror_prune origin ((k, v) # rest) old changed =
     (if map_of origin k = None then mirror_prune origin rest (AList.delete k old) (changed @ [k])
      else mirror_prune origin rest old changed)"

definition mirror_hosts :: "host_map \<Rightarrow> host_map \<Rightarrow> host_map \<times> string list" where
  "mirror_hosts origin old =
     (let (new, changed) = mirror_add origin old [] in
      if length origin < length new then mirror_prune origin new new changed else (new, changed))"

section \<open>Lemmas\<close>

lemma mirror_add_map:
  "gowf origin \<Longrightarrow> map_of (fst (mirror_add origin old ch)) = map_of old ++ map_of origin"
proof (induction origin old ch rule: mirror_add.induct)
  case (2 k v origin old ch)
  have k: "map_of origin k = None" using "2.prems" by (simp add: map_of_None_keys)
  show ?case
  proof (cases "map_of old k = Some v")
    case True
    then show ?thesis using 2 k by (auto simp: fun_eq_iff map_add_def split: option.split)
  next
    case False
    then show ?thesis using 2 k by (auto simp: fun_eq_iff map_add_def update_conv' split: option.split)
  qed
qed simp

lemma mirror_add_wf: "gowf old \<Longrightarrow> gowf (fst (mirror_add origin old ch))"
  by (induction origin old ch rule: mirror_add.induct) auto

lemma mirror_add_changed:
  "gowf origin \<Longrightarrow> snd (mirror_add origin old ch) = [] \<longleftrightarrow>
     ch = [] \<and> (\<forall>k v. map_of origin k = Some v \<longrightarrow> map_of old k = Some v)"
proof (induction origin old ch rule: mirror_add.induct)
  case (2 k v origin old ch)
  have k: "map_of origin k = None" using "2.prems" by (simp add: map_of_None_keys)
  show ?case
  proof (cases "map_of old k = Some v")
    case True
    then show ?thesis using 2 k by auto
  next
    case False
    then show ?thesis using 2 k by auto
  qed
qed simp

lemma mirror_add_same:
  "gowf origin \<Longrightarrow> snd (mirror_add origin old ch) = [] \<Longrightarrow> fst (mirror_add origin old ch) = old"
proof (induction origin old ch rule: mirror_add.induct)
  case (2 k v origin old ch)
  then show ?case by (cases "map_of old k = Some v") (auto simp: mirror_add_changed)
qed simp

lemma mirror_prune_map:
  "map_of (fst (mirror_prune origin its old ch)) =
     (\<lambda>k. if k \<in> fst ` set its \<and> map_of origin k = None then None else map_of old k)"
  by (induction origin its old ch rule: mirror_prune.induct) (auto simp: delete_conv' fun_eq_iff)

lemma mirror_prune_wf: "gowf old \<Longrightarrow> gowf (fst (mirror_prune origin its old ch))"
  by (induction origin its old ch rule: mirror_prune.induct) auto

lemma mirror_prune_changed:
  "snd (mirror_prune origin its old ch) = [] \<longleftrightarrow> ch = [] \<and> (\<forall>k \<in> fst ` set its. map_of origin k \<noteq> None)"
  by (induction origin its old ch rule: mirror_prune.induct) auto

lemma subsetE_not: "\<not> A \<subseteq> B \<Longrightarrow> (\<And>x. x \<in> A \<Longrightarrow> x \<notin> B \<Longrightarrow> P) \<Longrightarrow> P"
  by blast

lemma longer_iff_extra:
  assumes "gowf origin" and "gowf new" and "map_of new = map_of old ++ map_of origin"
  shows "length origin < length new \<longleftrightarrow> (\<exists>k. map_of new k \<noteq> None \<and> map_of origin k = None)"
proof -
  have sub: "dom (map_of origin) \<subseteq> dom (map_of new)" using assms(3) by auto
  have card: "length origin = card (dom (map_of origin))" "length new = card (dom (map_of new))"
    using assms(1,2) by (simp_all add: gokeys_card)
  have fin: "finite (dom (map_of new))" by (simp add: finite_dom_map_of)
  have "card (dom (map_of origin)) < card (dom (map_of new)) \<longleftrightarrow> dom (map_of origin) \<noteq> dom (map_of new)"
    using sub fin card_mono [OF fin sub] card_subset_eq [OF fin sub] by (metis nat_less_le nat_neq_iff)
  also have "\<dots> \<longleftrightarrow> (\<exists>k. map_of new k \<noteq> None \<and> map_of origin k = None)"
  proof
    assume "dom (map_of origin) \<noteq> dom (map_of new)"
    then have "\<not> dom (map_of new) \<subseteq> dom (map_of origin)" using sub by simp
    then obtain k where "k \<in> dom (map_of new)" "k \<notin> dom (map_of origin)" by (rule subsetE_not)
    then show "\<exists>k. map_of new k \<noteq> None \<and> map_of origin k = None" by (auto simp: domIff)
  next
    assume "\<exists>k. map_of new k \<noteq> None \<and> map_of origin k = None"
    then obtain k where "k \<in> dom (map_of new)" "k \<notin> dom (map_of origin)" unfolding domIff by auto
    then show "dom (map_of origin) \<noteq> dom (map_of new)" by metis
  qed
  finally show ?thesis using card by simp
qed

text \<open>The copy equals the original afterwards, and \<open>changed\<close> tells whether it differed before.\<close>

lemma mirror_hosts_spec:
  assumes "gowf origin" and "gowf old"
  shows "map_of (fst (mirror_hosts origin old)) = map_of origin"
    and "gowf (fst (mirror_hosts origin old))"
    and "snd (mirror_hosts origin old) = [] \<longleftrightarrow> map_of old = map_of origin"
proof -
  obtain new ch where add: "mirror_add origin old [] = (new, ch)" by fastforce
  have new: "map_of new = map_of old ++ map_of origin" "gowf new"
    using mirror_add_map [OF assms(1), of old "[]"] mirror_add_wf [OF assms(2), of origin "[]"] add by simp_all
  have ch: "ch = [] \<longleftrightarrow> (\<forall>k v. map_of origin k = Some v \<longrightarrow> map_of old k = Some v)"
    using mirror_add_changed [OF assms(1), of old "[]"] add by simp
  have same: "ch = [] \<Longrightarrow> new = old"
    using mirror_add_same [OF assms(1), of old "[]"] add by simp
  note longer = longer_iff_extra [OF assms(1) new(2) new(1)]
  have keys: "fst ` set new = dom (map_of new)" by (simp add: dom_map_of_conv_image_fst)
  have "map_of (fst (mirror_hosts origin old)) = map_of origin \<and> gowf (fst (mirror_hosts origin old)) \<and>
      (snd (mirror_hosts origin old) = [] \<longleftrightarrow> map_of old = map_of origin)"
  proof (cases "length origin < length new")
    case False
    then have none: "map_of origin k = None \<Longrightarrow> map_of new k = None" for k using longer by blast
    have "map_of new k = map_of origin k" for k
      using none [of k] new(1) by (cases "map_of origin k") (simp_all add: map_add_def)
    then have eq: "map_of new = map_of origin" by (rule ext)
    with False add new(2) have "ch = [] \<longleftrightarrow> map_of old = map_of origin"
      using ch same by auto
    with False eq add new(2) show ?thesis by (simp add: mirror_hosts_def)
  next
    case True
    let ?p = "mirror_prune origin new new ch"
    have p: "mirror_hosts origin old = ?p" using True add by (simp add: mirror_hosts_def)
    have "map_of (fst ?p) k = map_of origin k" for k
      unfolding mirror_prune_map keys using new(1) by (auto simp: map_add_def split: option.splits)
    then have m: "map_of (fst ?p) = map_of origin" by (rule ext)
    from True longer obtain k where k: "map_of new k \<noteq> None" "map_of origin k = None" by blast
    then have "k \<in> dom (map_of new)" by (simp add: domIff)
    then have ne: "snd ?p \<noteq> []" unfolding mirror_prune_changed keys using k(2) by blast
    have "map_of old k \<noteq> map_of origin k" using k new(1) by (auto simp: map_add_def)
    then have "map_of old \<noteq> map_of origin" by auto
    with m ne mirror_prune_wf [OF new(2)] show ?thesis by (simp add: p)
  qed
  then show "map_of (fst (mirror_hosts origin old)) = map_of origin"
    and "gowf (fst (mirror_hosts origin old))"
    and "snd (mirror_hosts origin old) = [] \<longleftrightarrow> map_of old = map_of origin" by blast+
qed

text \<open>What the code relies on of \<open>UnsortedList\<close>; sorting the set is one such enumeration.\<close>

definition enumerates :: "(string set \<Rightarrow> string list) \<Rightarrow> bool" where
  "enumerates unsorted \<longleftrightarrow> (\<forall>v. finite v \<longrightarrow> set (unsorted v) = v)"

lemma enumerates_sorted: "enumerates sorted_list_of_set"
  by (simp add: enumerates_def)

section \<open>The contract of a follower\<close>

text \<open>
  A component that keeps a copy of the published map: \<open>take\<close> is its handler for one message
  when the map has the value given, \<open>live\<close> tells whether it still reads its messages.
\<close>

locale follower =
  fixes ok :: "'s \<Rightarrow> bool"
    and live :: "'s \<Rightarrow> bool"
    and copy :: "'s \<Rightarrow> host_map"
    and take_msg :: "host_map \<Rightarrow> 's \<Rightarrow> 's"
  assumes ok_take: "gowf m \<Longrightarrow> ok s \<Longrightarrow> ok (take_msg m s)"
    and copy_take: "gowf m \<Longrightarrow> ok s \<Longrightarrow> map_of (copy (take_msg m s)) = map_of m"
begin

text \<open>After at least one message, the copy has the value the map had at the last one.\<close>

lemma ok_take_all: "\<forall>m \<in> set ms. gowf m \<Longrightarrow> ok s \<Longrightarrow> ok (fold take_msg ms s)"
  by (induction ms arbitrary: s) (auto intro: ok_take)

lemma copy_take_all:
  assumes "\<forall>m \<in> set ms. gowf m" and "ok s" and "ms \<noteq> []"
  shows "map_of (copy (fold take_msg ms s)) = map_of (last ms)"
proof -
  obtain xs x where ms: "ms = xs @ [x]" using assms(3) by (cases ms rule: rev_cases) auto
  then have "ok (fold take_msg xs s)" using assms by (intro ok_take_all) auto
  then show ?thesis using assms(1) by (simp add: ms copy_take)
qed

text \<open>
  Staleness is always announced: if the copy differs from the map only while a message is on
  its way (\<open>pending\<close>), then this stays so when the map changes together with a new
  announcement, and when a message is taken.
\<close>

definition announced :: "host_map \<Rightarrow> bool \<Rightarrow> 's \<Rightarrow> bool" where
  "announced m pending s \<longleftrightarrow> gowf m \<and> ok s \<and> (live s \<longrightarrow> map_of (copy s) = map_of m \<or> pending)"

lemma announced_taken: "gowf m \<Longrightarrow> ok s \<Longrightarrow> announced m p (take_msg m s)"
  by (simp add: announced_def ok_take copy_take)

lemma announced_change:
  "announced m p s \<Longrightarrow> gowf m' \<Longrightarrow> map_of m' = map_of m \<or> p' \<Longrightarrow> p \<longrightarrow> p' \<Longrightarrow> announced m' p' s"
  by (auto simp: announced_def)

lemma announced_quiet: "announced m False s \<Longrightarrow> live s \<Longrightarrow> map_of (copy s) = map_of m"
  by (simp add: announced_def)

end

end
