(* ===== verification/Ecs_Node.thy ===== *)
theory Ecs_Node
  imports Host_Mirror
begin

text \<open>
  \<open>pkg/controller/ecnode.go\<close>: the controller that collects the addresses of all ECSNode objects
  and publishes them. The API's answers are arguments of \<open>Reconcile\<close>. The value of
  \<open>shouldpublish\<close> that the deferred function looks at is part of the result: the blocking send
  on \<open>trigger\<close> follows as a step of its own in \<open>Host_Pipeline\<close>.
\<close>

record EcsNodeConfig =
  en_Interfaces :: "string list"
  en_MasterIf :: string
  en_Namespace :: string

datatype ecs_cfg_error = NoInterfacesOrMaster | NoNamespace

definition EcsNodeConfig_Valid :: "EcsNodeConfig \<Rightarrow> ecs_cfg_error option" where
  "EcsNodeConfig_Valid c =
     (if length (en_Interfaces c) = 0 \<or> length (en_MasterIf c) = 0 then Some NoInterfacesOrMaster
      else if en_Namespace c = [] then Some NoNamespace
      else None)"

text \<open>The part of an ECSNode that the code reads; an endpoint pointer may be nil.\<close>

record endpoint =
  ep_Name :: string
  ep_Ipnet :: string

record ecsnode =
  Endpoints :: "endpoint option list"
  Deleting :: bool

record EcsNode =
  hostips :: host_map
  ecs_interfaces :: "string set"
  ecs_done :: bool
  ecs_trigger :: "unit chan"
  ecs_config :: EcsNodeConfig

definition NewEcsNode :: "EcsNodeConfig \<Rightarrow> EcsNode" where
  "NewEcsNode c =
     \<lparr>hostips = [], ecs_interfaces = set (en_Interfaces c), ecs_done = False,
      ecs_trigger = make_chan 10, ecs_config = c\<rparr>"

text \<open>\<open>strings.TrimSpace(strings.Split(ipnet, "/")[0])\<close>.\<close>

definition ip_part :: "string \<Rightarrow> string" where
  "ip_part ipnet = trim_space (hd (split_on CHR ''/'' ipnet))"

fun ipmap_loop ::
    "string set \<Rightarrow> string \<Rightarrow> endpoint option list \<Rightarrow> string \<Rightarrow> string set \<Rightarrow> string \<times> string set" where
  "ipmap_loop ifs masterIf [] master ips = (master, ips)"
| "ipmap_loop ifs masterIf (None # eps) master ips = ipmap_loop ifs masterIf eps master ips"
| "ipmap_loop ifs masterIf (Some ep # eps) master ips =
     (let ipstr = ip_part (ep_Ipnet ep) in
      if length ipstr = 0 then ipmap_loop ifs masterIf eps master ips
      else if ep_Name ep \<notin> ifs then ipmap_loop ifs masterIf eps master ips
      else ipmap_loop ifs masterIf eps
             (if ep_Name ep = masterIf then ipstr else master) (insert ipstr ips))"

definition getIpmap :: "EcsNode \<Rightarrow> ecsnode \<Rightarrow> string \<times> string set" where
  "getIpmap h node = ipmap_loop (ecs_interfaces h) (en_MasterIf (ecs_config h)) (Endpoints node) [] {}"

text \<open>The loop of \<open>onceInit\<close> over the listed nodes.\<close>

fun init_loop :: "EcsNode \<Rightarrow> ecsnode list \<Rightarrow> host_map \<Rightarrow> host_map" where
  "init_loop h [] m = m"
| "init_loop h (node # nodes) m =
     (let (mip, ipset) = getIpmap h node in
      init_loop h nodes (if mip = [] then m else AList.update mip ipset m))"

text \<open>\<open>None\<close> is a failed \<open>List\<close>; the boolean tells whether the initialisation ran now.\<close>

definition onceInit :: "ecsnode list option \<Rightarrow> EcsNode \<Rightarrow> bool option \<times> EcsNode" where
  "onceInit listed h =
     (if ecs_done h then (Some False, h)
      else (case listed of
              None \<Rightarrow> (None, h)
            | Some nodes \<Rightarrow>
                (Some True, h\<lparr>hostips := init_loop h nodes (hostips h), ecs_done := True\<rparr>)))"

datatype ecs_get = EcsFound ecsnode | EcsNotFound | EcsGetFailed

datatype reconcile_end = ReconcileDone | ReconcileError

text \<open>The result: how it returns, the final \<open>shouldpublish\<close>, the new state.\<close>

definition EcsNode_Reconcile ::
    "ecsnode list option \<Rightarrow> ecs_get \<Rightarrow> EcsNode \<Rightarrow> reconcile_end \<times> bool \<times> EcsNode" where
  "EcsNode_Reconcile listed got h0 =
     (case onceInit listed h0 of
        (None, h) \<Rightarrow> (ReconcileError, False, h)
      | (Some True, h) \<Rightarrow> (ReconcileDone, True, h)
      | (Some False, h) \<Rightarrow>
          (case got of
             EcsNotFound \<Rightarrow> (ReconcileDone, False, h)
           | EcsGetFailed \<Rightarrow> (ReconcileDone, False, h)
           | EcsFound node \<Rightarrow>
               (let (mip, newips) = getIpmap h node in
                if mip = [] then (ReconcileDone, False, h)
                else if Deleting node then
                  (ReconcileDone, True, h\<lparr>hostips := AList.delete mip (hostips h)\<rparr>)
                else if map_of (hostips h) mip \<noteq> Some newips then
                  (ReconcileDone, True, h\<lparr>hostips := AList.update mip newips (hostips h)\<rparr>)
                else (ReconcileDone, False, h))))"

text \<open>The end of the context: the goroutine closes its trigger channel and returns.\<close>

definition EcsNode_stop :: "EcsNode \<Rightarrow> EcsNode" where
  "EcsNode_stop h = h\<lparr>ecs_trigger := (ecs_trigger h)\<lparr>closed := True\<rparr>\<rparr>"

section \<open>Lemmas\<close>

text \<open>A send that a reconciliation has deferred panics after the end.\<close>

lemma stopped_send_panics: "chan_send () (ecs_trigger (EcsNode_stop h)) = SendPanic"
  by (simp add: EcsNode_stop_def chan_send_def)

definition usable_eps :: "string set \<Rightarrow> endpoint option list \<Rightarrow> endpoint list" where
  "usable_eps ifs eps =
     filter (\<lambda>ep. ep_Name ep \<in> ifs \<and> ip_part (ep_Ipnet ep) \<noteq> []) (concat (map (case_option [] (\<lambda>e. [e])) eps))"

definition master_of :: "string \<Rightarrow> string \<Rightarrow> endpoint list \<Rightarrow> string" where
  "master_of d masterIf eps =
     (case filter (\<lambda>ep. ep_Name ep = masterIf) eps of [] \<Rightarrow> d | ms \<Rightarrow> ip_part (ep_Ipnet (last ms)))"

lemma ipmap_loop_spec:
  "ipmap_loop ifs masterIf eps master ips =
     (master_of master masterIf (usable_eps ifs eps),
      ips \<union> set (map (\<lambda>ep. ip_part (ep_Ipnet ep)) (usable_eps ifs eps)))"
proof (induction ifs masterIf eps master ips rule: ipmap_loop.induct)
  case (3 ifs masterIf ep eps master ips)
  have tail: "usable_eps ifs (Some ep # eps) =
      (if ep_Name ep \<in> ifs \<and> ip_part (ep_Ipnet ep) \<noteq> [] then ep # usable_eps ifs eps else usable_eps ifs eps)"
    by (simp add: usable_eps_def)
  show ?case
  proof (cases "ep_Name ep \<in> ifs \<and> ip_part (ep_Ipnet ep) \<noteq> []")
    case True
    then have "ipmap_loop ifs masterIf (Some ep # eps) master ips =
        ipmap_loop ifs masterIf eps (if ep_Name ep = masterIf then ip_part (ep_Ipnet ep) else master)
          (insert (ip_part (ep_Ipnet ep)) ips)" by (simp add: Let_def)
    also have "\<dots> = (master_of (if ep_Name ep = masterIf then ip_part (ep_Ipnet ep) else master) masterIf (usable_eps ifs eps),
        insert (ip_part (ep_Ipnet ep)) ips \<union> set (map (\<lambda>ep. ip_part (ep_Ipnet ep)) (usable_eps ifs eps)))"
      using True by (intro "3.IH"(3)) auto
    finally show ?thesis unfolding tail using True by (auto simp: master_of_def split: list.split)
  next
    case False
    then show ?thesis unfolding tail using "3.IH"(1,2) by (auto simp: Let_def)
  qed
qed (simp_all add: usable_eps_def master_of_def)

lemma master_of_last:
  "masters = filter (\<lambda>ep. ep_Name ep = masterIf) eps \<Longrightarrow> masters \<noteq> [] \<Longrightarrow>
     master_of d masterIf eps = ip_part (ep_Ipnet (last masters))"
  by (simp add: master_of_def split: list.split)

lemma init_loop_wf: "gowf m \<Longrightarrow> gowf (init_loop h nodes m)"
  by (induction h nodes m rule: init_loop.induct) (auto split: prod.split)

text \<open>Every change of the published map asks for a publication; the map stays well formed.\<close>

lemma EcsNode_Reconcile_facts:
  assumes "EcsNode_Reconcile listed got h = (r, pub, h')"
  shows "map_of (hostips h') \<noteq> map_of (hostips h) \<Longrightarrow> pub"
    and "gowf (hostips h) \<Longrightarrow> gowf (hostips h')"
    and "ecs_trigger h' = ecs_trigger h" and "ecs_done h \<Longrightarrow> ecs_done h'"
  using assms
  by (auto simp: EcsNode_Reconcile_def onceInit_def init_loop_wf Let_def
      split: option.splits ecs_get.splits prod.splits if_splits bool.splits)

section \<open>Properties\<close>

text \<open>
  C22: Once initialised, a reconciliation of an existing ECSNode tracks its addresses: the
  node's addresses are those of its endpoints on configured interfaces (the part before the
  slash, trimmed, non-empty), its key is the address on the master interface, and afterwards
  the map has exactly that entry for the key, or none when the node is being deleted, and is
  otherwise unchanged; a publication is requested when the entry changes (and at every
  deletion). A node that is not found leaves its entry in place and publishes nothing.
\<close>

theorem ecsnode_addresses_tracked:
  assumes "ecs_done h"
    and "usable = usable_eps (ecs_interfaces h) (Endpoints nd)"
    and "masters = filter (\<lambda>ep. ep_Name ep = en_MasterIf (ecs_config h)) usable" and "masters \<noteq> []"
    and "mip = ip_part (ep_Ipnet (last masters))"
    and "EcsNode_Reconcile listed (EcsFound nd) h = (r, pub, h')"
  shows "map_of (hostips h') = (map_of (hostips h))(mip :=
      (if Deleting nd then None else Some (set (map (\<lambda>ep. ip_part (ep_Ipnet ep)) usable)))) \<and>
    (pub \<longleftrightarrow> Deleting nd \<or> map_of (hostips h') \<noteq> map_of (hostips h)) \<and>
    EcsNode_Reconcile listed EcsNotFound h = (ReconcileDone, False, h)"
proof -
  have get: "getIpmap h nd = (mip, set (map (\<lambda>ep. ip_part (ep_Ipnet ep)) usable))"
    using master_of_last [OF assms(3,4)] assms(2,5) by (simp add: getIpmap_def ipmap_loop_spec)
  have "last masters \<in> set masters" using assms(4) by (rule last_in_set)
  then have ne: "mip \<noteq> []" unfolding assms(3,5) by (auto simp: assms(2) usable_eps_def)
  show ?thesis
    using assms(1,6) get ne
    by (auto simp: EcsNode_Reconcile_def onceInit_def fun_eq_iff delete_conv' update_conv' split: if_splits)
qed

definition demo_ecs :: EcsNode where
  "demo_ecs = (NewEcsNode \<lparr>en_Interfaces = [''eth0'', ''eth1''], en_MasterIf = ''eth0'', en_Namespace = ''ns''\<rparr>)
     \<lparr>ecs_done := True\<rparr>"

definition demo_ecsnode :: ecsnode where
  "demo_ecsnode = \<lparr>Endpoints = [Some \<lparr>ep_Name = ''lo'', ep_Ipnet = ''127.0.0.1/8''\<rparr>, None,
     Some \<lparr>ep_Name = ''eth0'', ep_Ipnet = ''10.0.0.1/24''\<rparr>, Some \<lparr>ep_Name = ''eth1'', ep_Ipnet = '' 10.1.0.1''\<rparr>],
     Deleting = False\<rparr>"

theorem ecsnode_addresses_tracked_witness:
  "\<exists>h'. EcsNode_Reconcile None (EcsFound demo_ecsnode) demo_ecs = (ReconcileDone, True, h') \<and>
     map_of (hostips h') ''10.0.0.1'' = Some {''10.0.0.1'', ''10.1.0.1''}"
proof -
  let ?us = "[\<lparr>ep_Name = ''eth0'', ep_Ipnet = ''10.0.0.1/24''\<rparr>, \<lparr>ep_Name = ''eth1'', ep_Ipnet = '' 10.1.0.1''\<rparr>]"
  have ips: "map (\<lambda>ep. ip_part (ep_Ipnet ep)) ?us = [''10.0.0.1'', ''10.1.0.1'']" by code_simp
  have u: "?us = usable_eps (ecs_interfaces demo_ecs) (Endpoints demo_ecsnode)" by code_simp
  obtain r pub h' where run: "EcsNode_Reconcile None (EcsFound demo_ecsnode) demo_ecs = (r, pub, h')"
    by (metis prod_cases3)
  have m: "filter (\<lambda>ep. ep_Name ep = en_MasterIf (ecs_config demo_ecs)) ?us = [\<lparr>ep_Name = ''eth0'', ep_Ipnet = ''10.0.0.1/24''\<rparr>]"
    by (simp add: demo_ecs_def NewEcsNode_def)
  have "fst (EcsNode_Reconcile None (EcsFound demo_ecsnode) demo_ecs) = ReconcileDone"
    "fst (snd (EcsNode_Reconcile None (EcsFound demo_ecsnode) demo_ecs))" by code_simp+
  with run have "r = ReconcileDone" "pub" by simp_all
  with ecsnode_addresses_tracked [OF _ u refl _ refl run] run m ips show ?thesis
    by (auto simp: demo_ecs_def demo_ecsnode_def NewEcsNode_def)
qed

end
