(* ===== verification/Pod_Ctrl.thy ===== *)
theory Pod_Ctrl
  imports Host_Mirror
begin

text \<open>
  \<open>pkg/controller/pod.go\<close>: the controller that keeps, for every etcd pod, whether it is ready and
  the addresses of the host it runs on. The host addresses are a copy of the map published by
  the ECSNode controller. A failed \<open>Get\<close> leaves the local \<open>pod\<close> at its zero value.
\<close>

record PodConfig =
  pc_Lables :: "(string, string) gomap option"
  pc_Namespace :: string

definition PodConfig_Valid :: "PodConfig \<Rightarrow> unit option" where
  "PodConfig_Valid c = (if length (pc_Namespace c) = 0 then Some () else None)"

text \<open>The event filter; a nil label map of the object is \<open>None\<close>, a missing label reads as empty.\<close>

definition label_at :: "(string, string) gomap \<Rightarrow> string \<Rightarrow> string" where
  "label_at m k = (case map_of m k of None \<Rightarrow> [] | Some v \<Rightarrow> v)"

definition pod_filter :: "PodConfig \<Rightarrow> string \<Rightarrow> (string, string) gomap option \<Rightarrow> bool" where
  "pod_filter c ns objlabels =
     (if pc_Namespace c \<noteq> [] \<and> ns \<noteq> pc_Namespace c then False
      else (case pc_Lables c of
              None \<Rightarrow> True
            | Some want \<Rightarrow>
                (case objlabels of
                   None \<Rightarrow> False
                 | Some have_labels \<Rightarrow> list_all (\<lambda>(k, v). label_at have_labels k = v) want)))"

record pod =
  pod_Name :: string
  pod_HostIP :: string
  pod_Phase :: string
  pod_InitReady :: "bool list"
  pod_ContainersReady :: "bool list"
  pod_Deleting :: bool

definition zero_pod :: pod where
  "zero_pod = \<lparr>pod_Name = [], pod_HostIP = [], pod_Phase = [], pod_InitReady = [],
     pod_ContainersReady = [], pod_Deleting = False\<rparr>"

record StatIP =
  st_Ready :: bool
  st_NodeIP :: string
  st_HostIP :: "string set"

record PodCtrl =
  pd_config :: PodConfig
  podInfo :: "(string, StatIP) gomap"
  hostIPDict :: host_map
  pd_done :: bool

definition NewPod :: "PodConfig \<Rightarrow> PodCtrl" where
  "NewPod c = \<lparr>pd_config = c, podInfo = [], hostIPDict = [], pd_done = False\<rparr>"

section \<open>Operations\<close>

text \<open>The handler of the goroutine for one message, when the published map has the value \<open>origin\<close>.\<close>

definition pod_message :: "host_map \<Rightarrow> PodCtrl \<Rightarrow> PodCtrl" where
  "pod_message origin h = h\<lparr>hostIPDict := fst (mirror_hosts origin (hostIPDict h))\<rparr>"

definition isReady :: "pod \<Rightarrow> bool" where
  "isReady po =
     (if pod_Phase po \<noteq> ''Running'' then False
      else if \<not> list_all (\<lambda>r. r) (pod_InitReady po) then False
      else list_all (\<lambda>r. r) (pod_ContainersReady po))"

definition stat_pod :: "PodCtrl \<Rightarrow> pod \<Rightarrow> StatIP" where
  "stat_pod h po =
     \<lparr>st_Ready = isReady po, st_NodeIP = pod_HostIP po,
      st_HostIP = (if pod_HostIP po \<noteq> []
        then (case map_of (hostIPDict h) (pod_HostIP po) of None \<Rightarrow> {} | Some ips \<Rightarrow> ips) else {})\<rparr>"

definition hadChanged :: "PodCtrl \<Rightarrow> StatIP option \<Rightarrow> pod \<Rightarrow> bool \<times> StatIP" where
  "hadChanged h oldstat po =
     (let newstat = stat_pod h po in
      case oldstat of
        None \<Rightarrow> (if st_HostIP newstat = {} then (False, newstat) else (True, newstat))
      | Some old \<Rightarrow>
          (if st_Ready old \<noteq> isReady po \<or> st_HostIP old \<noteq> st_HostIP newstat then (True, newstat)
           else (False, newstat)))"

datatype pod_error = EcsNodeNotSynced | PodListFailed | PodsNotSynced

fun sync_pods :: "PodCtrl \<Rightarrow> pod list \<Rightarrow> (string, StatIP) gomap \<Rightarrow> (string, StatIP) gomap" where
  "sync_pods h [] m = m"
| "sync_pods h (po # pods) m = sync_pods h pods (AList.update (pod_Name po) (stat_pod h po) m)"

text \<open>\<open>listed\<close> is the answer of \<open>List\<close>.\<close>

definition syncOnce :: "pod list option \<Rightarrow> PodCtrl \<Rightarrow> (pod_error + bool) \<times> PodCtrl" where
  "syncOnce listed h =
     (if pd_done h then (Inr False, h)
      else if \<not> 0 < length (hostIPDict h) then (Inl EcsNodeNotSynced, h)
      else (case listed of
              None \<Rightarrow> (Inl PodListFailed, h)
            | Some pods \<Rightarrow> (Inr True, h\<lparr>podInfo := sync_pods h pods (podInfo h), pd_done := True\<rparr>)))"

text \<open>\<open>UnsortedList\<close> of a set is a parameter: some enumeration of its elements.\<close>

definition ListPodHostIP ::
    "(string set \<Rightarrow> string list) \<Rightarrow> bool \<Rightarrow> PodCtrl \<Rightarrow> pod_error + string list" where
  "ListPodHostIP unsorted publishNotready h =
     (if \<not> pd_done h then Inl PodsNotSynced
      else Inr (concat (map (\<lambda>(n, st). if publishNotready \<or> st_Ready st then unsorted (st_HostIP st) else [])
                  (podInfo h))))"

datatype pod_get = PodFound pod | PodNotFound | PodGetFailed

text \<open>The local \<open>pod\<close> after \<open>Get\<close>.\<close>

definition got_pod :: "pod_get \<Rightarrow> pod" where
  "got_pod got = (case got of PodFound po \<Rightarrow> po | _ \<Rightarrow> zero_pod)"

text \<open>The result: requeued after an error or done, whether an event is published, the state.\<close>

definition Pod_Reconcile ::
    "pod list option \<Rightarrow> string \<Rightarrow> pod_get \<Rightarrow> PodCtrl \<Rightarrow> pod_error option \<times> bool \<times> PodCtrl" where
  "Pod_Reconcile listed reqName got h0 =
     (case syncOnce listed h0 of
        (Inl e, h) \<Rightarrow> (Some e, False, h)
      | (Inr shouldpublish, h) \<Rightarrow>
          (let po = got_pod got; oldstat = map_of (podInfo h) (pod_Name po) in
           case got of
             PodNotFound \<Rightarrow>
               (if oldstat \<noteq> None
                then (None, True, h\<lparr>podInfo := AList.delete (pod_Name po) (podInfo h)\<rparr>)
                else (None, shouldpublish, h))
           | PodGetFailed \<Rightarrow> (None, shouldpublish, h)
           | PodFound _ \<Rightarrow>
               (if pod_Deleting po \<and> oldstat \<noteq> None
                then (None, True, h\<lparr>podInfo := AList.delete reqName (podInfo h)\<rparr>)
                else (let (changed, newstat) = hadChanged h oldstat po in
                      if changed
                      then (None, True, h\<lparr>podInfo := AList.update (pod_Name po) newstat (podInfo h)\<rparr>)
                      else (None, shouldpublish, h)))))"

section \<open>Lemmas\<close>

lemma isReady_iff:
  "isReady po \<longleftrightarrow> pod_Phase po = ''Running'' \<and> (\<forall>r \<in> set (pod_InitReady po). r) \<and>
     (\<forall>r \<in> set (pod_ContainersReady po). r)"
  by (auto simp: isReady_def list_all_iff)

definition pod_ok :: "PodCtrl \<Rightarrow> bool" where
  "pod_ok h \<longleftrightarrow> gowf (hostIPDict h)"

interpretation pod_copy: follower pod_ok "\<lambda>h. True" hostIPDict pod_message
  by unfold_locales (simp_all add: pod_ok_def pod_message_def mirror_hosts_spec)

lemma sync_pods_wf: "gowf m \<Longrightarrow> gowf (sync_pods h pods m)"
  by (induction h pods m rule: sync_pods.induct) simp_all

lemma syncOnce_done: "pd_done h \<Longrightarrow> syncOnce listed h = (Inr False, h)"
  by (simp add: syncOnce_def)

lemma syncOnce_facts:
  assumes "syncOnce listed h = (r, h')"
  shows "hostIPDict h' = hostIPDict h" and "gowf (podInfo h) \<Longrightarrow> gowf (podInfo h')"
    and "r \<noteq> Inr True \<Longrightarrow> h' = h"
  using assms by (auto simp: syncOnce_def sync_pods_wf split: if_splits option.splits)

lemma Pod_Reconcile_cases:
  assumes "Pod_Reconcile listed n got h = (r, pub, h')"
  obtains (unsynced) e where "syncOnce listed h = (Inl e, h')" and "\<not> pub"
    | (same) s where "syncOnce listed h = (Inr s, h')" and "pub = s"
    | (changed) s h1 m where "syncOnce listed h = (Inr s, h1)" and "h' = h1\<lparr>podInfo := m\<rparr>" and "pub"
        and "gowf (podInfo h1) \<Longrightarrow> gowf m"
proof -
  obtain x h1 where sync: "syncOnce listed h = (x, h1)" by (cases "syncOnce listed h")
  show thesis
  proof (cases x)
    case (Inl e)
    then show thesis using assms sync by (intro unsynced) (auto simp: Pod_Reconcile_def)
  next
    case (Inr s)
    with sync have sync': "syncOnce listed h = (Inr s, h1)" by simp
    note run = assms [unfolded Pod_Reconcile_def sync' Let_def]
    show thesis
    proof (cases got)
      case (PodFound po)
      note run = run [unfolded PodFound got_pod_def, simplified]
      let ?old = "map_of (podInfo h1) (pod_Name po)"
      obtain c st where hc: "hadChanged h1 ?old po = (c, st)" by (cases "hadChanged h1 ?old po")
      consider "pod_Deleting po \<and> ?old \<noteq> None" | "\<not> (pod_Deleting po \<and> ?old \<noteq> None)" "c"
        | "\<not> (pod_Deleting po \<and> ?old \<noteq> None)" "\<not> c" by blast
      then show thesis
      proof cases
        case 1
        with run show thesis by (intro changed [OF sync', of "AList.delete n (podInfo h1)"]) auto
      next
        case 2
        with run hc show thesis
          by (intro changed [OF sync', of "AList.update (pod_Name po) st (podInfo h1)"]) auto
      next
        case 3
        with run hc have "h' = h1" "pub = s" by auto
        with sync' show thesis by (intro same) simp_all
      qed
    next
      case PodNotFound
      note run = run [unfolded PodNotFound got_pod_def, simplified]
      show thesis
      proof (cases "map_of (podInfo h1) (pod_Name zero_pod) = None")
        case True
        with run sync' show thesis by (intro same) auto
      next
        case False
        with run show thesis by (intro changed [OF sync', of "AList.delete (pod_Name zero_pod) (podInfo h1)"]) auto
      qed
    next
      case PodGetFailed
      with run sync' show thesis by (intro same) auto
    qed
  qed
qed

text \<open>A reconciliation of a pod that exists, once the pods have been listed.\<close>

lemma Pod_Reconcile_found:
  assumes "pd_done h" and "\<not> (pod_Deleting po \<and> map_of (podInfo h) (pod_Name po) \<noteq> None)"
  shows "Pod_Reconcile listed n (PodFound po) h =
    (if fst (hadChanged h (map_of (podInfo h) (pod_Name po)) po)
     then (None, True, h\<lparr>podInfo := AList.update (pod_Name po) (stat_pod h po) (podInfo h)\<rparr>)
     else (None, False, h))"
proof -
  have "snd (hadChanged h o' po) = stat_pod h po" for o'
    by (simp add: hadChanged_def Let_def split: option.split)
  then obtain c where c: "hadChanged h (map_of (podInfo h) (pod_Name po)) po = (c, stat_pod h po)"
    by (metis prod.collapse)
  show ?thesis
    unfolding Pod_Reconcile_def syncOnce_done [OF assms(1)] Let_def
    by (simp only: prod.case sum.case got_pod_def pod_get.case if_not_P [OF assms(2)] c fst_conv)
qed

lemma Pod_Reconcile_keeps:
  assumes "Pod_Reconcile listed n got h = (r, pub, h')"
  shows "hostIPDict h' = hostIPDict h" and "gowf (podInfo h) \<Longrightarrow> gowf (podInfo h')"
    and "\<not> pub \<Longrightarrow> h' = h"
  by (rule Pod_Reconcile_cases [OF assms]; auto dest: syncOnce_facts)+

section \<open>Properties\<close>


text \<open>A controller that knows one host, and a pod on it, for the witnesses.\<close>

definition demo_pods :: PodCtrl where
  "demo_pods = \<lparr>pd_config = \<lparr>pc_Lables = None, pc_Namespace = ''ns''\<rparr>, podInfo = [],
     hostIPDict = [(''10.0.0.1'', {''10.1.0.1''})], pd_done = True\<rparr>"

definition demo_pod :: "bool \<Rightarrow> pod" where
  "demo_pod d = \<lparr>pod_Name = ''etcd-0'', pod_HostIP = ''10.0.0.1'', pod_Phase = ''Running'', pod_InitReady = [],
     pod_ContainersReady = [True], pod_Deleting = d\<rparr>"


text \<open>
  A terminating pod comes back and stays: when a pod on a known host gets one more update
  after the one that announced its deletion, its entry is stored again, and the final ``not
  found'' reconciliation, which looks for the empty name, does not remove it. The host's
  addresses remain in the list of the service.
\<close>

lemma terminated_pod_stays:
  assumes "pd_done h" and "pod_Deleting po" and "pod_Name po \<noteq> []"
    and "map_of (podInfo h) (pod_Name po) \<noteq> None" and "map_of (podInfo h) [] = None"
    and "gowf (podInfo h)" and "st_HostIP (stat_pod h po) \<noteq> {}"
    and "Pod_Reconcile l1 (pod_Name po) (PodFound po) h = (r1, p1, h1)"
    and "Pod_Reconcile l2 (pod_Name po) (PodFound po) h1 = (r2, p2, h2)"
    and "Pod_Reconcile l3 (pod_Name po) PodNotFound h2 = (r3, p3, h3)"
  shows "map_of (podInfo h1) (pod_Name po) = None \<and>
    map_of (podInfo h3) (pod_Name po) = Some (stat_pod h po) \<and>
    (\<exists>ips. ListPodHostIP unsorted True h3 = Inr ips \<and> set (unsorted (st_HostIP (stat_pod h po))) \<subseteq> set ips)"
proof -
  have h1: "h1 = h\<lparr>podInfo := AList.delete (pod_Name po) (podInfo h)\<rparr>"
    using assms(1,2,4,8) by (auto simp: Pod_Reconcile_def syncOnce_done got_pod_def)
  then have gone: "map_of (podInfo h1) (pod_Name po) = None" and d1: "pd_done h1"
    and s1: "stat_pod h1 po = stat_pod h po"
    using assms(1) by (simp_all add: delete_conv' stat_pod_def)
  have h2: "h2 = h1\<lparr>podInfo := AList.update (pod_Name po) (stat_pod h po) (podInfo h1)\<rparr>"
    using assms(7,9) gone d1 s1
    by (auto simp: Pod_Reconcile_def syncOnce_done got_pod_def hadChanged_def Let_def)
  have "map_of (podInfo h2) [] = None" using assms(3,5) by (simp add: h1 h2 update_conv' delete_conv')
  then have h3: "h3 = h2"
    using assms(10) d1 by (auto simp: Pod_Reconcile_def syncOnce_done got_pod_def zero_pod_def Let_def h2)
  have e: "map_of (podInfo h3) (pod_Name po) = Some (stat_pod h po)" by (simp add: h3 h2 update_conv')
  have "(pod_Name po, stat_pod h po) \<in> set (podInfo h3)" using e by (rule map_of_SomeD)
  then have "\<exists>ips. ListPodHostIP unsorted True h3 = Inr ips \<and> set (unsorted (st_HostIP (stat_pod h po))) \<subseteq> set ips"
    using d1 by (force simp: ListPodHostIP_def h3 h2)
  with gone e show ?thesis by blast
qed

end
