(* ===== verification/Service_Sync.thy ===== *)
theory Service_Sync
  imports Pod_Ctrl "HOL-Library.Word"
begin

text \<open>
  \<open>pkg/controller/service.go\<close>: the headless Service and the Endpoints object of the same name,
  kept at the configured ports and the addresses of the pods' hosts. \<open>CreateOrUpdate\<close> is a
  parameter (the record \<open>svc_api\<close>) with its documented effect as \<open>svc_laws\<close>. A comparison of two
  \<open>DeletionTimestamp\<close> pointers of different objects holds exactly when both are nil.
\<close>

section \<open>Data\<close>

record portInfo =
  pi_Protocol :: string
  pi_Port :: "32 word"
  pi_TargetPort :: int

record ServiceConfig =
  PublishNotReady :: bool
  sc_Namespace :: string
  sc_Name :: string
  sc_Ports :: "portInfo list"

datatype svc_cfg_error = NoNameOrNamespace | NoPorts

definition ServiceConfig_Valid :: "ServiceConfig \<Rightarrow> svc_cfg_error option" where
  "ServiceConfig_Valid c =
     (if length (sc_Namespace c) = 0 \<or> length (sc_Name c) = 0 then Some NoNameOrNamespace
      else if length (sc_Ports c) = 0 then Some NoPorts
      else None)"

record object_meta =
  om_Name :: string
  om_Namespace :: string
  om_Deleting :: bool
  om_Annotations :: "(string, string) gomap option"

datatype protocol = TCP | UDP

record service_port =
  sp_Protocol :: protocol
  sp_Port :: "32 word"
  sp_TargetPort :: int

record service =
  sv_meta :: object_meta
  sv_ClusterIP :: string
  sv_Ports :: "service_port list"

text \<open>The subsets of an Endpoints object are represented by the address lists.\<close>

record endpoints =
  eps_meta :: object_meta
  eps_Subsets :: "string list list"

record svcInfo =
  si_service :: "service option"
  si_endpoint :: "endpoints option"

section \<open>Comparing\<close>

definition annotation :: "(string, string) gomap \<Rightarrow> string \<Rightarrow> string" where
  "annotation m k = (case map_of m k of None \<Rightarrow> [] | Some v \<Rightarrow> v)"

definition deepEqual :: "object_meta \<Rightarrow> object_meta \<Rightarrow> bool" where
  "deepEqual m1 m2 =
     (if om_Name m1 \<noteq> om_Name m2 then False
      else if om_Namespace m1 \<noteq> om_Namespace m2 then False
      else if om_Deleting m1 \<or> om_Deleting m2 then False
      else (case (om_Annotations m1, om_Annotations m2) of
              (Some a1, Some a2) \<Rightarrow> list_all (\<lambda>(k, v). annotation a2 k = v) a1
            | _ \<Rightarrow> False))"

text \<open>A port as the string \<open>protocol/port\<close>; the pair stands for it.\<close>

definition svc_ports :: "service \<Rightarrow> (protocol \<times> 32 word) set" where
  "svc_ports s = set (map (\<lambda>p. (sp_Protocol p, sp_Port p)) (sv_Ports s))"

definition svc_ips :: "endpoints \<Rightarrow> string set" where
  "svc_ips e = set (concat (eps_Subsets e))"

definition equalService :: "service option \<Rightarrow> service option \<Rightarrow> bool" where
  "equalService si other =
     (case (si, other) of
        (Some a, Some b) \<Rightarrow>
          (if \<not> deepEqual (sv_meta a) (sv_meta b) then False
           else if svc_ports a \<noteq> svc_ports b then False else True)
      | _ \<Rightarrow> False)"

definition equalEndpoint :: "endpoints option \<Rightarrow> endpoints option \<Rightarrow> bool" where
  "equalEndpoint si other =
     (case (si, other) of
        (Some a, Some b) \<Rightarrow>
          (if \<not> deepEqual (eps_meta a) (eps_meta b) then False
           else if svc_ips a \<noteq> svc_ips b then False else True)
      | _ \<Rightarrow> False)"

definition equal_info :: "svcInfo \<Rightarrow> svcInfo \<Rightarrow> bool" where
  "equal_info a b \<longleftrightarrow>
     equalService (si_service a) (si_service b) \<and> equalEndpoint (si_endpoint a) (si_endpoint b)"

section \<open>The desired objects\<close>

definition lower :: "string \<Rightarrow> string" where
  "lower s = map (\<lambda>c. if 65 \<le> (of_char c :: nat) \<and> (of_char c :: nat) \<le> 90 then char_of ((of_char c :: nat) + 32) else c) s"

definition transPorts :: "portInfo list \<Rightarrow> service_port list" where
  "transPorts ps = map (\<lambda>p. \<lparr>sp_Protocol = (if lower (pi_Protocol p) = ''udp'' then UDP else TCP),
     sp_Port = pi_Port p, sp_TargetPort = pi_TargetPort p\<rparr>) ps"

definition ServiceAnnoNotReadyKey :: string where
  "ServiceAnnoNotReadyKey = ''servicesync.io/publish_notready''"

definition desired_meta :: "ServiceConfig \<Rightarrow> object_meta" where
  "desired_meta c = \<lparr>om_Name = sc_Name c, om_Namespace = sc_Namespace c, om_Deleting = False,
     om_Annotations = Some [(ServiceAnnoNotReadyKey, if PublishNotReady c then ''true'' else ''false'')]\<rparr>"

definition desired_service :: "ServiceConfig \<Rightarrow> service" where
  "desired_service c =
     \<lparr>sv_meta = desired_meta c, sv_ClusterIP = ''None'', sv_Ports = transPorts (sc_Ports c)\<rparr>"

definition desired_endpoints :: "ServiceConfig \<Rightarrow> string list \<Rightarrow> endpoints" where
  "desired_endpoints c addresses =
     \<lparr>eps_meta = desired_meta c, eps_Subsets = (if length addresses \<noteq> 0 then [addresses] else [])\<rparr>"

definition serviceEndpoint :: "ServiceConfig \<Rightarrow> string list \<Rightarrow> svcInfo" where
  "serviceEndpoint c addresses =
     \<lparr>si_service = Some (desired_service c), si_endpoint = Some (desired_endpoints c addresses)\<rparr>"

section \<open>Synchronising\<close>

text \<open>The loop that copies annotations, into a fresh map where there is none.\<close>

definition merge_annotations ::
    "(string, string) gomap option \<Rightarrow> (string, string) gomap option \<Rightarrow> (string, string) gomap option" where
  "merge_annotations from_copy into =
     (case from_copy of
        None \<Rightarrow> into
      | Some new \<Rightarrow>
          (if new = [] then into
           else Some (fold (\<lambda>(k, v) m. AList.update k v m) new (case into of None \<Rightarrow> [] | Some m \<Rightarrow> m))))"

definition mutate_service :: "service \<Rightarrow> service \<Rightarrow> service" where
  "mutate_service desired s =
     (if equalService (Some s) (Some desired) then s
      else s\<lparr>sv_ClusterIP := sv_ClusterIP desired, sv_Ports := sv_Ports desired,
             sv_meta := (sv_meta s)\<lparr>om_Annotations :=
               merge_annotations (om_Annotations (sv_meta desired)) (om_Annotations (sv_meta s))\<rparr>\<rparr>)"

definition mutate_endpoints :: "endpoints \<Rightarrow> endpoints \<Rightarrow> endpoints" where
  "mutate_endpoints desired s =
     (if equalEndpoint (Some s) (Some desired) then s
      else s\<lparr>eps_Subsets := eps_Subsets desired,
             eps_meta := (eps_meta s)\<lparr>om_Annotations :=
               merge_annotations (om_Annotations (eps_meta desired)) (om_Annotations (eps_meta s))\<rparr>\<rparr>)"

text \<open>\<open>create_or_update_*\<close> gets the object to look up and to create, and the mutate function.\<close>

record 'e svc_api =
  stored_service :: "'e \<Rightarrow> service option"
  stored_endpoints :: "'e \<Rightarrow> endpoints option"
  create_or_update_service :: "service \<Rightarrow> (service \<Rightarrow> service) \<Rightarrow> 'e \<Rightarrow> bool \<times> 'e"
  create_or_update_endpoints :: "endpoints \<Rightarrow> (endpoints \<Rightarrow> endpoints) \<Rightarrow> 'e \<Rightarrow> bool \<times> 'e"

record ServiceSync =
  ss_config :: ServiceConfig
  svcinfo :: svcInfo
  ss_trigger :: "unit chan"
  ss_stuck :: bool
  ss_retries :: nat

definition NewServiceSync :: "ServiceConfig \<Rightarrow> ServiceSync" where
  "NewServiceSync c =
     \<lparr>ss_config = c, svcinfo = serviceEndpoint c [], ss_trigger = make_chan 10, ss_stuck = False, ss_retries = 0\<rparr>"

datatype svc_error = AddressesNotListed | ServiceNotWritten | EndpointsNotWritten

text \<open>\<open>iplistfn\<close> is the function handed in by \<open>main\<close>: \<open>PodCtrl.ListPodHostIP\<close>.\<close>

definition syncService ::
    "'e svc_api \<Rightarrow> (bool \<Rightarrow> 'x + string list) \<Rightarrow> ServiceSync \<Rightarrow> 'e \<Rightarrow> svc_error option \<times> ServiceSync \<times> 'e" where
  "syncService api iplistfn s e =
     (case iplistfn (PublishNotReady (ss_config s)) of
        Inl err \<Rightarrow> (Some AddressesNotListed, s, e)
      | Inr addrs \<Rightarrow>
          (let svc = desired_service (ss_config s); eps = desired_endpoints (ss_config s) addrs in
           case create_or_update_service api svc (mutate_service svc) e of
             (False, e1) \<Rightarrow> (Some ServiceNotWritten, s, e1)
           | (True, e1) \<Rightarrow>
               (case create_or_update_endpoints api eps (mutate_endpoints eps) e1 of
                  (False, e2) \<Rightarrow> (Some EndpointsNotWritten, s, e2)
                | (True, e2) \<Rightarrow> (None, s\<lparr>svcinfo := serviceEndpoint (ss_config s) addrs\<rparr>, e2))))"

text \<open>The answers of the two \<open>Get\<close> calls; does the reconciliation end with a trigger?\<close>

definition Service_Reconcile :: "service option \<Rightarrow> endpoints option \<Rightarrow> ServiceSync \<Rightarrow> bool" where
  "Service_Reconcile gotService gotEndpoints s =
     (case gotService of
        None \<Rightarrow> True
      | Some sv \<Rightarrow>
          (case gotEndpoints of
             None \<Rightarrow> True
           | Some ep \<Rightarrow>
               (if \<not> equal_info (svcinfo s) \<lparr>si_service = Some sv, si_endpoint = Some ep\<rparr> then True else False)))"

text \<open>
  The goroutine of \<open>Start\<close>. A pod message makes it send to its own trigger channel, which it
  alone reads: when the channel is full it blocks for ever (\<open>ss_stuck\<close>). A failed
  synchronisation starts a goroutine that triggers again later (\<open>ss_retries\<close> counts them).
\<close>

definition svc_message :: "ServiceSync \<Rightarrow> ServiceSync" where
  "svc_message s =
     (case chan_send () (ss_trigger s) of
        Sent c \<Rightarrow> s\<lparr>ss_trigger := c\<rparr>
      | SendFull \<Rightarrow> s\<lparr>ss_stuck := True\<rparr>
      | SendPanic \<Rightarrow> s\<lparr>ss_stuck := True\<rparr>)"

definition svc_triggered ::
    "'e svc_api \<Rightarrow> (bool \<Rightarrow> 'x + string list) \<Rightarrow> unit chan \<Rightarrow> ServiceSync \<Rightarrow> 'e \<Rightarrow> ServiceSync \<times> 'e" where
  "svc_triggered api iplistfn c s e =
     (case syncService api iplistfn (s\<lparr>ss_trigger := c\<rparr>) e of
        (None, s', e') \<Rightarrow> (s', e')
      | (Some err, s', e') \<Rightarrow> (s'\<lparr>ss_retries := Suc (ss_retries s')\<rparr>, e'))"

text \<open>The end of the context: the goroutine closes its trigger channel and returns.\<close>

definition svc_stop :: "ServiceSync \<Rightarrow> ServiceSync" where
  "svc_stop s = s\<lparr>ss_trigger := (ss_trigger s)\<lparr>closed := True\<rparr>\<rparr>"

text \<open>The event filter of the controller, and the requests its Endpoints watch maps an object to.\<close>

definition svc_filter :: "ServiceConfig \<Rightarrow> string \<Rightarrow> string \<Rightarrow> bool" where
  "svc_filter c name ns = (if name = sc_Name c \<and> ns = sc_Namespace c then True else False)"

definition endpoints_requests :: "ServiceConfig \<Rightarrow> string \<Rightarrow> string \<Rightarrow> (string \<times> string) list" where
  "endpoints_requests c name ns =
     (if name = sc_Name c \<and> ns = sc_Namespace c then [] else [(sc_Namespace c, sc_Name c)])"

section \<open>Lemmas\<close>

text \<open>A send that is due after the end panics: of a reconciliation or of a retry.\<close>

lemma svc_stopped_send_panics: "chan_send () (ss_trigger (svc_stop s)) = SendPanic"
  by (simp add: svc_stop_def chan_send_def)

text \<open>Every object that passes the filter is mapped to no request.\<close>

lemma endpoints_never_enqueue: "svc_filter c name ns \<Longrightarrow> endpoints_requests c name ns = []"
  by (simp add: svc_filter_def endpoints_requests_def split: if_splits)

text \<open>A changed target port is no difference, and so is never written.\<close>

lemma target_port_ignored:
  "equalService (Some (s\<lparr>sv_Ports := map (\<lambda>p. p\<lparr>sp_TargetPort := f p\<rparr>) (sv_Ports s)\<rparr>)) other = equalService (Some s) other"
  by (cases other) (simp_all add: equalService_def svc_ports_def comp_def)

definition svc_laws :: "'e svc_api \<Rightarrow> bool" where
  "svc_laws api \<longleftrightarrow>
     (\<forall>d f e e'. create_or_update_service api d f e = (True, e') \<longrightarrow>
        stored_service api e' = Some (f (case stored_service api e of None \<Rightarrow> d | Some s \<Rightarrow> s)) \<and>
        stored_endpoints api e' = stored_endpoints api e) \<and>
     (\<forall>d f e e'. create_or_update_endpoints api d f e = (True, e') \<longrightarrow>
        stored_endpoints api e' = Some (f (case stored_endpoints api e of None \<Rightarrow> d | Some s \<Rightarrow> s)) \<and>
        stored_service api e' = stored_service api e)"

text \<open>An object stored under the configured key that is not being deleted.\<close>

definition keyed :: "ServiceConfig \<Rightarrow> object_meta \<Rightarrow> bool" where
  "keyed c m \<longleftrightarrow> om_Name m = sc_Name c \<and> om_Namespace m = sc_Namespace c \<and> \<not> om_Deleting m"

lemma keyed_desired [simp]: "keyed c (desired_meta c)"
  by (simp add: keyed_def desired_meta_def)

lemma desired_deepEqual:
  assumes "keyed c m"
  shows "deepEqual (desired_meta c) (m\<lparr>om_Annotations :=
    merge_annotations (om_Annotations (desired_meta c)) (om_Annotations m)\<rparr>)"
  using assms
  by (simp add: deepEqual_def keyed_def desired_meta_def merge_annotations_def annotation_def update_conv')

text \<open>A stored object found equal has the one annotation of the desired one, or the empty value.\<close>

lemma stored_deepEqual:
  assumes "deepEqual m (desired_meta c)"
    and "\<And>a. om_Annotations m = Some a \<Longrightarrow> map_of a ServiceAnnoNotReadyKey \<noteq> None"
  shows "deepEqual (desired_meta c) m"
proof -
  obtain a where a: "om_Annotations m = Some a"
    and all: "list_all (\<lambda>(k, v). annotation (the (om_Annotations (desired_meta c))) k = v) a"
    using assms(1) by (auto simp: deepEqual_def desired_meta_def split: if_splits option.splits)
  obtain v where v: "map_of a ServiceAnnoNotReadyKey = Some v" using assms(2) [OF a] by blast
  then have "(ServiceAnnoNotReadyKey, v) \<in> set a" by (rule map_of_SomeD)
  then have "v = (if PublishNotReady c then ''true'' else ''false'')"
    using all by (auto simp: list_all_iff desired_meta_def annotation_def)
  then have an: "annotation a ServiceAnnoNotReadyKey = (if PublishNotReady c then ''true'' else ''false'')"
    using v by (simp add: annotation_def)
  show ?thesis
    using assms(1) a an by (auto simp: deepEqual_def desired_meta_def split: if_splits)
qed

lemma mutate_service_equal:
  assumes "keyed c (sv_meta s)"
    and "\<And>a. om_Annotations (sv_meta s) = Some a \<Longrightarrow> map_of a ServiceAnnoNotReadyKey \<noteq> None"
  shows "equalService (Some (desired_service c)) (Some (mutate_service (desired_service c) s))"
proof (cases "equalService (Some s) (Some (desired_service c))")
  case True
  then have "deepEqual (sv_meta s) (desired_meta c)" "svc_ports s = svc_ports (desired_service c)"
    by (auto simp: equalService_def desired_service_def split: if_splits)
  with stored_deepEqual [OF _ assms(2)] True show ?thesis
    by (simp add: mutate_service_def equalService_def desired_service_def)
next
  case False
  with desired_deepEqual [OF assms(1)] show ?thesis
    by (simp add: mutate_service_def equalService_def desired_service_def svc_ports_def)
qed

lemma mutate_endpoints_equal:
  assumes "keyed c (eps_meta s)"
    and "\<And>a. om_Annotations (eps_meta s) = Some a \<Longrightarrow> map_of a ServiceAnnoNotReadyKey \<noteq> None"
  shows "equalEndpoint (Some (desired_endpoints c addrs)) (Some (mutate_endpoints (desired_endpoints c addrs) s))"
proof (cases "equalEndpoint (Some s) (Some (desired_endpoints c addrs))")
  case True
  then have "deepEqual (eps_meta s) (desired_meta c)" "svc_ips s = svc_ips (desired_endpoints c addrs)"
    by (auto simp: equalEndpoint_def desired_endpoints_def split: if_splits)
  with stored_deepEqual [OF _ assms(2)] True show ?thesis
    by (simp add: mutate_endpoints_def equalEndpoint_def desired_endpoints_def)
next
  case False
  with desired_deepEqual [OF assms(1)] show ?thesis
    by (simp add: mutate_endpoints_def equalEndpoint_def desired_endpoints_def svc_ips_def)
qed

section \<open>Where the addresses come from\<close>

text \<open>
  What the service controller relies on in the function it gets for listing addresses: a source
  that is ready lists exactly its addresses, in any order and with repetitions.
\<close>

locale address_source =
  fixes source :: "'s \<Rightarrow> bool \<Rightarrow> 'x + string list"
    and ready :: "'s \<Rightarrow> bool"
    and addresses :: "'s \<Rightarrow> bool \<Rightarrow> string set"
  assumes listed: "ready h \<Longrightarrow> \<exists>ips. source h b = Inr ips \<and> set ips = addresses h b"

text \<open>An object found in the store that the controller can bring to the desired form.\<close>

definition old_ok :: "ServiceConfig \<Rightarrow> ('o \<Rightarrow> object_meta) \<Rightarrow> 'o option \<Rightarrow> bool" where
  "old_ok c meta old \<longleftrightarrow>
     (\<forall>x. old = Some x \<longrightarrow> keyed c (meta x) \<and>
        (\<forall>a. om_Annotations (meta x) = Some a \<longrightarrow> map_of a ServiceAnnoNotReadyKey \<noteq> None))"

context address_source
begin

lemma sync_publishes:
  assumes laws: "svc_laws api" and ok: "ready h" and run: "syncService api (source h) s e = (None, s', e')"
    and old: "old_ok (ss_config s) sv_meta (stored_service api e)" "old_ok (ss_config s) eps_meta (stored_endpoints api e)"
    and goal: "\<And>sv ep. stored_service api e' = Some sv \<Longrightarrow> stored_endpoints api e' = Some ep \<Longrightarrow>
      svc_ips ep = addresses h (PublishNotReady (ss_config s)) \<Longrightarrow> svc_ports sv = svc_ports (desired_service (ss_config s)) \<Longrightarrow>
      \<not> Service_Reconcile (Some sv) (Some ep) s' \<Longrightarrow> thesis"
  shows thesis
proof -
  let ?c = "ss_config s"
  obtain ips where l: "source h (PublishNotReady ?c) = Inr ips" and set: "set ips = addresses h (PublishNotReady ?c)"
    using listed [OF ok] by blast
  let ?sv = "mutate_service (desired_service ?c) (case stored_service api e of None \<Rightarrow> desired_service ?c | Some x \<Rightarrow> x)"
  let ?ep = "mutate_endpoints (desired_endpoints ?c ips)
    (case stored_endpoints api e of None \<Rightarrow> desired_endpoints ?c ips | Some x \<Rightarrow> x)"
  obtain e1 where c1: "create_or_update_service api (desired_service ?c) (mutate_service (desired_service ?c)) e = (True, e1)"
    and c2: "create_or_update_endpoints api (desired_endpoints ?c ips) (mutate_endpoints (desired_endpoints ?c ips)) e1 = (True, e')"
    and s': "s' = s\<lparr>svcinfo := serviceEndpoint ?c ips\<rparr>"
    using run l by (auto simp: syncService_def Let_def split: prod.splits bool.splits)
  have sv: "stored_service api e' = Some ?sv" and ep: "stored_endpoints api e' = Some ?ep"
    using laws c1 c2 unfolding svc_laws_def by auto
  have eqs: "equalService (Some (desired_service ?c)) (Some ?sv)"
    using old(1) by (intro mutate_service_equal)
      (auto simp: old_ok_def desired_service_def desired_meta_def keyed_def split: option.splits)
  have eqe: "equalEndpoint (Some (desired_endpoints ?c ips)) (Some ?ep)"
    using old(2) by (intro mutate_endpoints_equal)
      (auto simp: old_ok_def desired_endpoints_def desired_meta_def keyed_def split: option.splits)
  have "svc_ips ?ep = svc_ips (desired_endpoints ?c ips)" "svc_ports ?sv = svc_ports (desired_service ?c)"
    using eqs eqe by (auto simp: equalService_def equalEndpoint_def split: if_splits)
  moreover have "svc_ips (desired_endpoints ?c ips) = set ips"
    by (cases ips) (simp_all add: svc_ips_def desired_endpoints_def)
  moreover have "\<not> Service_Reconcile (Some ?sv) (Some ?ep) s'"
    using eqs eqe by (simp add: Service_Reconcile_def s' equal_info_def serviceEndpoint_def)
  ultimately show thesis using goal [OF sv ep] set by simp
qed

end

text \<open>The pod controller is such a source once it has listed its pods.\<close>

definition source_list :: "(string set \<Rightarrow> string list) \<times> PodCtrl \<Rightarrow> bool \<Rightarrow> pod_error + string list" where
  "source_list h b = ListPodHostIP (fst h) b (snd h)"

definition source_ok :: "(string set \<Rightarrow> string list) \<times> PodCtrl \<Rightarrow> bool" where
  "source_ok h \<longleftrightarrow> pd_done (snd h) \<and> enumerates (fst h) \<and> (\<forall>(n, st) \<in> set (podInfo (snd h)). finite (st_HostIP st))"

definition source_addrs :: "(string set \<Rightarrow> string list) \<times> PodCtrl \<Rightarrow> bool \<Rightarrow> string set" where
  "source_addrs h b = (\<Union>(n, st) \<in> set (podInfo (snd h)). if b \<or> st_Ready st then st_HostIP st else {})"

interpretation pods: address_source source_list source_ok source_addrs
  by unfold_locales
    (fastforce simp: source_list_def source_ok_def source_addrs_def ListPodHostIP_def enumerates_def split: if_splits)

section \<open>Properties\<close>

text \<open>
  C24: A successful synchronisation publishes the pods' hosts: the stored Endpoints object has
  exactly the addresses of the hosts of the ready pods (of all known pods when not-ready ones
  are published), the Service has the configured protocols and ports, and reconciling what is
  now stored asks for nothing more. The objects stored before must not be in deletion, and if
  they have annotations the controller's own must be among them.
\<close>

theorem service_endpoints_are_pod_hosts:
  assumes "svc_laws api" and "pd_done h" and "enumerates unsorted" and "\<forall>(n, st) \<in> set (podInfo h). finite (st_HostIP st)"
    and "\<forall>sv. stored_service api e = Some sv \<longrightarrow> keyed (ss_config s) (sv_meta sv) \<and>
      (\<forall>a. om_Annotations (sv_meta sv) = Some a \<longrightarrow> map_of a ServiceAnnoNotReadyKey \<noteq> None)"
    and "\<forall>ep. stored_endpoints api e = Some ep \<longrightarrow> keyed (ss_config s) (eps_meta ep) \<and>
      (\<forall>a. om_Annotations (eps_meta ep) = Some a \<longrightarrow> map_of a ServiceAnnoNotReadyKey \<noteq> None)"
    and "syncService api (\<lambda>b. ListPodHostIP unsorted b h) s e = (None, s', e')"
  shows "\<exists>sv ep. stored_service api e' = Some sv \<and> stored_endpoints api e' = Some ep \<and>
    svc_ips ep = (\<Union>(n, st) \<in> set (podInfo h). if PublishNotReady (ss_config s) \<or> st_Ready st then st_HostIP st else {}) \<and>
    svc_ports sv = svc_ports (desired_service (ss_config s)) \<and>
    \<not> Service_Reconcile (Some sv) (Some ep) s'"
proof -
  let ?c = "ss_config s"
  have ok: "source_ok (unsorted, h)" using assms(2-4) by (simp add: source_ok_def)
  have "source_list (unsorted, h) = (\<lambda>b. ListPodHostIP unsorted b h)" by (simp add: source_list_def fun_eq_iff)
  with assms(7) have run: "syncService api (source_list (unsorted, h)) s e = (None, s', e')" by simp
  show ?thesis
  proof (rule pods.sync_publishes [OF assms(1) ok run])
    show "old_ok ?c sv_meta (stored_service api e)" "old_ok ?c eps_meta (stored_endpoints api e)"
      using assms(5,6) by (auto simp: old_ok_def)
  qed (auto simp: source_addrs_def)
qed

text \<open>A store of two objects that never fails, for the witness.\<close>

definition demo_svc_api :: "(service option \<times> endpoints option) svc_api" where
  "demo_svc_api = \<lparr>stored_service = fst, stored_endpoints = snd,
     create_or_update_service = (\<lambda>d f e. (True, (Some (f (case fst e of None \<Rightarrow> d | Some s \<Rightarrow> s)), snd e))),
     create_or_update_endpoints = (\<lambda>d f e. (True, (fst e, Some (f (case snd e of None \<Rightarrow> d | Some s \<Rightarrow> s)))))\<rparr>"

definition demo_svc_cfg :: ServiceConfig where
  "demo_svc_cfg = \<lparr>PublishNotReady = False, sc_Namespace = ''ns'', sc_Name = ''etcd'',
     sc_Ports = [\<lparr>pi_Protocol = ''tcp'', pi_Port = 2479, pi_TargetPort = 2479\<rparr>]\<rparr>"

theorem service_endpoints_are_pod_hosts_witness:
  "\<exists>s' e' ep. syncService demo_svc_api
       (\<lambda>b. ListPodHostIP sorted_list_of_set b (demo_pods\<lparr>podInfo := [(''etcd-0'', stat_pod demo_pods (demo_pod False))]\<rparr>))
       (NewServiceSync demo_svc_cfg) (None, None) = (None, s', e') \<and>
     stored_endpoints demo_svc_api e' = Some ep \<and> svc_ips ep = {''10.1.0.1''}"
proof -
  let ?h = "demo_pods\<lparr>podInfo := [(''etcd-0'', stat_pod demo_pods (demo_pod False))]\<rparr>"
  have st: "stat_pod demo_pods (demo_pod False) = \<lparr>st_Ready = True, st_NodeIP = ''10.0.0.1'', st_HostIP = {''10.1.0.1''}\<rparr>"
    by (simp add: stat_pod_def isReady_def demo_pods_def demo_pod_def)
  have laws: "svc_laws demo_svc_api" by (simp add: svc_laws_def demo_svc_api_def)
  have d: "pd_done ?h" and fin: "\<forall>(n, st) \<in> set (podInfo ?h). finite (st_HostIP st)"
    by (simp add: demo_pods_def) (simp add: st)
  obtain s' e' where run: "syncService demo_svc_api (\<lambda>b. ListPodHostIP sorted_list_of_set b ?h)
      (NewServiceSync demo_svc_cfg) (None, None) = (None, s', e')"
    by (simp add: syncService_def ListPodHostIP_def demo_pods_def demo_svc_api_def Let_def)
  from service_endpoints_are_pod_hosts [OF laws d enumerates_sorted fin _ _ run] run
  show ?thesis by (auto simp: demo_svc_api_def st NewServiceSync_def demo_svc_cfg_def)
qed

end
