(* ===== verification/Configmap_Sync.thy ===== *)
theory Configmap_Sync
  imports Host_Mirror Discovery
begin

text \<open>
  \<open>pkg/controller/configmap.go\<close>: the controller that writes the published addresses into a
  ConfigMap, one key per master address. \<open>controllerutil.CreateOrUpdate\<close> is a parameter (the
  record \<open>cm_api\<close>) with its documented effect as \<open>cm_laws\<close>; \<open>unsorted\<close> stands for
  \<open>UnsortedList\<close>. The ConfigMap is mounted as the node-IP directory that the etcd pods read.
\<close>

record ConfigMapConfig =
  cc_Namespace :: string
  cc_Name :: string

definition ConfigMapConfig_Valid :: "ConfigMapConfig \<Rightarrow> unit option" where
  "ConfigMapConfig_Valid c =
     (if length (cc_Name c) = 0 \<or> length (cc_Namespace c) = 0 then Some () else None)"

definition cm_filter :: "ConfigMapConfig \<Rightarrow> string \<Rightarrow> string \<Rightarrow> bool" where
  "cm_filter c name ns \<longleftrightarrow> name = cc_Name c \<and> ns = cc_Namespace c"

type_synonym cm_data = "(string, string) gomap"

text \<open>\<open>cm_stuck\<close>: the goroutine blocks for ever on a send to the channel only it receives from.
  \<open>cm_retries\<close> counts the goroutines that wait to trigger again after a failure.\<close>

record ConfigMapSync =
  cm_config :: ConfigMapConfig
  cm_copy :: host_map
  cm_trigger :: "unit chan"
  cm_retries :: nat
  cm_stuck :: bool

definition NewConfigMapSync :: "ConfigMapConfig \<Rightarrow> ConfigMapSync" where
  "NewConfigMapSync c =
     \<lparr>cm_config = c, cm_copy = [], cm_trigger = make_chan 10, cm_retries = 0, cm_stuck = False\<rparr>"

section \<open>Comparing and writing\<close>

definition parse_ips :: "string \<Rightarrow> string set" where
  "parse_ips v = set (map trim_space (split_on CHR '','' v))"

definition getIPSetFromConfigmap :: "cm_data \<Rightarrow> host_map" where
  "getIPSetFromConfigmap d = map (\<lambda>(k, v). (k, parse_ips v)) d"

definition deepEqualSets :: "host_map \<Rightarrow> host_map \<Rightarrow> bool" where
  "deepEqualSets s1 s2 \<longleftrightarrow>
     (if length s1 \<noteq> length s2 then False
      else if length s1 = 0 \<and> length s2 = 0 then True
      else if \<not> list_all (\<lambda>(k, set1). case map_of s2 k of None \<Rightarrow> False | Some set2 \<Rightarrow> set1 = set2) s1 then False
      else list_all (\<lambda>(k, v). map_of s1 k \<noteq> None) s2)"

text \<open>The mutate function handed to \<open>CreateOrUpdate\<close>.\<close>

definition render_hosts :: "(string set \<Rightarrow> string list) \<Rightarrow> host_map \<Rightarrow> cm_data" where
  "render_hosts unsorted m = map (\<lambda>(k, v). (k, join '','' (unsorted v))) m"

definition cm_mutate :: "(string set \<Rightarrow> string list) \<Rightarrow> host_map \<Rightarrow> cm_data \<Rightarrow> cm_data" where
  "cm_mutate unsorted m d =
     (if \<not> deepEqualSets (getIPSetFromConfigmap d) m then render_hosts unsorted m else d)"

record 'e cm_api =
  cm_stored :: "'e \<Rightarrow> cm_data option"
  create_or_update :: "(cm_data \<Rightarrow> cm_data) \<Rightarrow> 'e \<Rightarrow> bool \<times> 'e"

definition syncConfigmap ::
    "(string set \<Rightarrow> string list) \<Rightarrow> 'e cm_api \<Rightarrow> ConfigMapSync \<Rightarrow> 'e \<Rightarrow> bool \<times> 'e" where
  "syncConfigmap unsorted api s e = create_or_update api (cm_mutate unsorted (cm_copy s)) e"

section \<open>The goroutine and the reconciler\<close>

text \<open>A message, when the published map has the value \<open>origin\<close>; the send at its end blocks when
  the trigger channel is full.\<close>

definition cm_message :: "host_map \<Rightarrow> ConfigMapSync \<Rightarrow> ConfigMapSync" where
  "cm_message origin s =
     (let (new, changed) = mirror_hosts origin (cm_copy s); s1 = s\<lparr>cm_copy := new\<rparr> in
      if 0 < length changed then
        (case chan_send () (cm_trigger s1) of
           Sent c \<Rightarrow> s1\<lparr>cm_trigger := c\<rparr>
         | SendFull \<Rightarrow> s1\<lparr>cm_stuck := True\<rparr>
         | SendPanic \<Rightarrow> s1\<lparr>cm_stuck := True\<rparr>)
      else s1)"

text \<open>A trigger: one synchronisation, and on failure a goroutine that triggers again later.\<close>

definition cm_triggered ::
    "(string set \<Rightarrow> string list) \<Rightarrow> 'e cm_api \<Rightarrow> unit chan \<Rightarrow> ConfigMapSync \<Rightarrow> 'e \<Rightarrow> ConfigMapSync \<times> 'e" where
  "cm_triggered unsorted api c s e =
     (let s1 = s\<lparr>cm_trigger := c\<rparr>; (ok, e') = syncConfigmap unsorted api s1 e in
      (if ok then s1 else s1\<lparr>cm_retries := Suc (cm_retries s1)\<rparr>, e'))"

datatype cm_get = CmFound cm_data bool | CmGetFailed

text \<open>Does this reconciliation end with a (blocking) send on the trigger channel?\<close>

definition Cm_Reconcile :: "cm_get \<Rightarrow> ConfigMapSync \<Rightarrow> bool" where
  "Cm_Reconcile got s =
     (if length (cm_copy s) = 0 then False
      else (case got of
              CmGetFailed \<Rightarrow> True
            | CmFound d deleting \<Rightarrow>
                (if deleting then True
                 else if \<not> deepEqualSets (getIPSetFromConfigmap d) (cm_copy s) then True else False)))"

text \<open>The end of the context: the goroutine closes its trigger channel and returns.\<close>

definition cm_stop :: "ConfigMapSync \<Rightarrow> ConfigMapSync" where
  "cm_stop s = s\<lparr>cm_trigger := (cm_trigger s)\<lparr>closed := True\<rparr>\<rparr>"

text \<open>
  The controller at work: messages and triggers taken by the one goroutine (in either order,
  as its \<open>select\<close> picks) until it ends, sends by reconciliations and by retries when there is room.
\<close>

inductive cm_step ::
    "(string set \<Rightarrow> string list) \<Rightarrow> 'e cm_api \<Rightarrow> ConfigMapSync \<times> 'e \<Rightarrow> ConfigMapSync \<times> 'e \<Rightarrow> bool"
  for unsorted :: "string set \<Rightarrow> string list" and api :: "'e cm_api" where
  cm_receive: "\<not> cm_stuck s \<Longrightarrow> \<not> closed (cm_trigger s) \<Longrightarrow> gowf m \<Longrightarrow> cm_step unsorted api (s, e) (cm_message m s, e)"
| cm_work: "\<not> cm_stuck s \<Longrightarrow> \<not> closed (cm_trigger s) \<Longrightarrow> chan_recv (cm_trigger s) = Received () c \<Longrightarrow>
    cm_step unsorted api (s, e) (cm_triggered unsorted api c s e)"
| cm_request: "Cm_Reconcile got s \<Longrightarrow> chan_send () (cm_trigger s) = Sent c \<Longrightarrow>
    cm_step unsorted api (s, e) (s\<lparr>cm_trigger := c\<rparr>, e)"
| cm_retry: "0 < cm_retries s \<Longrightarrow> chan_send () (cm_trigger s) = Sent c \<Longrightarrow>
    cm_step unsorted api (s, e) (s\<lparr>cm_trigger := c, cm_retries := cm_retries s - 1\<rparr>, e)"
| cm_end: "\<not> cm_stuck s \<Longrightarrow> \<not> closed (cm_trigger s) \<Longrightarrow> cm_step unsorted api (s, e) (cm_stop s, e)"
| cm_world: "cm_step unsorted api (s, e) (s, e')"

section \<open>Lemmas\<close>

lemma cm_stopped_send_panics: "chan_send () (cm_trigger (cm_stop s)) = SendPanic"
  by (simp add: cm_stop_def chan_send_def)

lemma getIPSet_map_of: "map_of (getIPSetFromConfigmap d) k = map_option parse_ips (map_of d k)"
  by (simp add: getIPSetFromConfigmap_def map_of_map)

lemma getIPSet_keys: "gokeys (getIPSetFromConfigmap d) = gokeys d"
  by (auto simp: getIPSetFromConfigmap_def)

lemma render_map_of:
  "map_of (render_hosts unsorted m) k = map_option (\<lambda>v. join '','' (unsorted v)) (map_of m k)"
  by (simp add: render_hosts_def map_of_map)

text \<open>\<open>deepEqualSets\<close> is equality of maps.\<close>

lemma same_map_length: "gowf s1 \<Longrightarrow> gowf s2 \<Longrightarrow> map_of s1 = map_of s2 \<Longrightarrow> length s1 = length s2"
  by (metis gokeys_card)

lemma deepEqualSets_iff:
  assumes "gowf s1" and "gowf s2"
  shows "deepEqualSets s1 s2 \<longleftrightarrow> map_of s1 = map_of s2"
proof
  assume eq: "map_of s1 = map_of s2"
  have "map_of s2 k = Some v" if "(k, v) \<in> set s1" for k v
    using that assms(1) unfolding eq [symmetric] by (rule map_of_is_SomeI [rotated])
  moreover have "map_of s1 k = Some v" if "(k, v) \<in> set s2" for k v
    using that assms(2) unfolding eq by (rule map_of_is_SomeI [rotated])
  ultimately show "deepEqualSets s1 s2"
    using same_map_length [OF assms eq] by (fastforce simp: deepEqualSets_def list_all_iff)
next
  assume d: "deepEqualSets s1 s2"
  show "map_of s1 = map_of s2"
  proof
    fix k
    have le: "(k, v) \<in> set s1 \<Longrightarrow> map_of s2 k = Some v" for v
      using d by (fastforce simp: deepEqualSets_def list_all_iff split: if_splits option.splits)
    have ge: "(k, v) \<in> set s2 \<Longrightarrow> map_of s1 k \<noteq> None" for v
      using d by (fastforce simp: deepEqualSets_def list_all_iff split: if_splits)
    show "map_of s1 k = map_of s2 k"
    proof (cases "map_of s1 k")
      case (Some v)
      with le map_of_SomeD show ?thesis by fastforce
    next
      case None
      with ge show ?thesis by (cases "map_of s2 k") (auto dest: map_of_SomeD)
    qed
  qed
qed

text \<open>An address list that survives joining, splitting and trimming.\<close>

definition plain_ip :: "string \<Rightarrow> bool" where
  "plain_ip ip \<longleftrightarrow> (\<forall>c \<in> set ip. c \<noteq> CHR '','' \<and> \<not> is_space c)"

definition plain_hosts :: "host_map \<Rightarrow> bool" where
  "plain_hosts m \<longleftrightarrow> (\<forall>(k, v) \<in> set m. v \<noteq> {} \<and> finite v \<and> (\<forall>ip \<in> v. plain_ip ip))"

lemma parse_ips_join:
  assumes "ips \<noteq> []" and "\<forall>ip \<in> set ips. plain_ip ip"
  shows "parse_ips (join '','' ips) = set ips"
proof -
  have "split_on CHR '','' (join '','' ips) = ips"
    using assms by (intro split_on_join) (auto simp: plain_ip_def)
  moreover have "map trim_space ips = ips"
    using assms(2) by (intro map_idI trim_space_id) (auto simp: plain_ip_def)
  ultimately show ?thesis by (simp add: parse_ips_def)
qed

lemma getIPSet_render:
  assumes "enumerates unsorted" and "plain_hosts m"
  shows "getIPSetFromConfigmap (render_hosts unsorted m) = m"
proof -
  have "parse_ips (join '','' (unsorted v)) = v" if "(k, v) \<in> set m" for k v
  proof -
    have v: "v \<noteq> {}" "finite v" "\<forall>ip \<in> v. plain_ip ip" using assms(2) that by (auto simp: plain_hosts_def)
    then have "set (unsorted v) = v" using assms(1) by (simp add: enumerates_def)
    moreover have "unsorted v \<noteq> []" using v(1) calculation by auto
    ultimately show ?thesis using parse_ips_join [of "unsorted v"] v(3) by simp
  qed
  then show ?thesis
    by (auto simp: getIPSetFromConfigmap_def render_hosts_def intro!: map_idI)
qed

text \<open>
  The documented effect of \<open>CreateOrUpdate\<close> when it succeeds: the stored object is the mutate
  function's result on the object that was there, or on the empty one.
\<close>

definition cm_laws :: "'e cm_api \<Rightarrow> bool" where
  "cm_laws api \<longleftrightarrow>
     (\<forall>f e e'. create_or_update api f e = (True, e') \<longrightarrow>
        cm_stored api e' = Some (f (case cm_stored api e of None \<Rightarrow> [] | Some d \<Rightarrow> d)))"

definition cm_ok :: "ConfigMapSync \<Rightarrow> bool" where
  "cm_ok s \<longleftrightarrow> gowf (cm_copy s)"

lemma cm_message_copy:
  "cm_copy (cm_message m s) = fst (mirror_hosts m (cm_copy s))"
  by (simp add: cm_message_def Let_def split: prod.split send_result.split)

interpretation cm_follower: follower cm_ok "\<lambda>s. \<not> cm_stuck s" cm_copy cm_message
  by unfold_locales (simp_all add: cm_ok_def cm_message_copy mirror_hosts_spec)

text \<open>
  A rendered key, mounted as a file, is read by \<open>readIPFile\<close> as a list of the host's addresses.
\<close>

lemma render_read:
  assumes "enumerates unsorted" and "plain_hosts m" and "map_of m k = Some v"
    and "map_of (render_hosts unsorted m) k = Some content"
    and "node f [d, k] = RegFile content"
  shows "\<exists>ips. readIPFile f d k = Some ips \<and> set ips = v"
proof -
  have kv: "(k, v) \<in> set m" using assms(3) by (rule map_of_SomeD)
  then have v: "v \<noteq> {}" "finite v" "\<forall>ip \<in> v. plain_ip ip" using assms(2) by (auto simp: plain_hosts_def)
  have set: "set (unsorted v) = v" using assms(1) v by (simp add: enumerates_def)
  have "content = join '','' (unsorted v)" using assms(3,4) by (simp add: render_map_of)
  moreover have "unsorted v \<noteq> []" using v(1) set by auto
  ultimately have "readIPFile f d k = Some (unsorted v)"
    using assms(5) v set by (intro readIPFile_join) (auto simp: plain_ip_def)
  with set show ?thesis by blast
qed

text \<open>What a successful synchronisation has stored.\<close>

lemma sync_stored:
  assumes "cm_laws api" and "syncConfigmap unsorted api s e = (True, e')"
  shows "cm_stored api e' =
    Some (cm_mutate unsorted (cm_copy s) (case cm_stored api e of None \<Rightarrow> [] | Some d \<Rightarrow> d))"
  using assms by (simp add: cm_laws_def syncConfigmap_def)

section \<open>Properties\<close>

text \<open>
  C23: A successful synchronisation leaves a ConfigMap that reads back as exactly the
  controller's copy: parsing the stored data gives, for every key, the same set of addresses,
  whatever the enumeration order of the sets, if the addresses have no comma or white space.
\<close>

theorem sync_reads_back:
  assumes "cm_laws api" and "enumerates unsorted" and "plain_hosts (cm_copy s)" and "gowf (cm_copy s)"
    and "\<forall>d. cm_stored api e = Some d \<longrightarrow> gowf d"
    and "syncConfigmap unsorted api s e = (True, e')"
  shows "\<exists>d. cm_stored api e' = Some d \<and> map_of (getIPSetFromConfigmap d) = map_of (cm_copy s) \<and>
    \<not> Cm_Reconcile (CmFound d False) s"
proof -
  let ?old = "case cm_stored api e of None \<Rightarrow> [] | Some d \<Rightarrow> d"
  let ?new = "cm_mutate unsorted (cm_copy s) ?old"
  have st: "cm_stored api e' = Some ?new"
    by (rule sync_stored [OF assms(1,6)])
  have old: "gowf (getIPSetFromConfigmap ?old)"
    using assms(5) by (simp add: getIPSet_keys split: option.split)
  have new: "map_of (getIPSetFromConfigmap ?new) = map_of (cm_copy s)"
    using getIPSet_render [OF assms(2,3)] deepEqualSets_iff [OF old assms(4)] by (simp add: cm_mutate_def)
  moreover have "gowf (getIPSetFromConfigmap ?new)"
    using old getIPSet_render [OF assms(2,3)] assms(4) by (simp add: cm_mutate_def)
  ultimately have "deepEqualSets (getIPSetFromConfigmap ?new) (cm_copy s)"
    using deepEqualSets_iff assms(4) by blast
  with st new show ?thesis by (auto simp: Cm_Reconcile_def)
qed

text \<open>A store that holds one ConfigMap and never fails, for the witnesses.\<close>

definition demo_cm_api :: "cm_data option cm_api" where
  "demo_cm_api = \<lparr>cm_stored = (\<lambda>e. e),
     create_or_update = (\<lambda>f e. (True, Some (f (case e of None \<Rightarrow> [] | Some d \<Rightarrow> d))))\<rparr>"

definition demo_cm :: ConfigMapSync where
  "demo_cm = (NewConfigMapSync \<lparr>cc_Namespace = ''ns'', cc_Name = ''ips''\<rparr>)\<lparr>cm_copy := [(''10.0.0.1'', {''10.1.0.1''})]\<rparr>"

theorem sync_reads_back_witness:
  "\<exists>d. cm_stored demo_cm_api (snd (syncConfigmap sorted_list_of_set demo_cm_api demo_cm None)) = Some d \<and>
     map_of (getIPSetFromConfigmap d) = map_of (cm_copy demo_cm)"
proof -
  have laws: "cm_laws demo_cm_api" by (simp add: cm_laws_def demo_cm_api_def)
  have plain: "plain_hosts (cm_copy demo_cm)"
    by (simp add: plain_hosts_def demo_cm_def plain_ip_def is_space_def)
  have wf: "gowf (cm_copy demo_cm)" and st: "\<forall>d. cm_stored demo_cm_api None = Some d \<longrightarrow> gowf d"
    by (simp_all add: demo_cm_def demo_cm_api_def)
  obtain e' where "syncConfigmap sorted_list_of_set demo_cm_api demo_cm None = (True, e')"
    by (simp add: syncConfigmap_def demo_cm_api_def)
  from sync_reads_back [OF laws enumerates_sorted plain wf st this] this show ?thesis by auto
qed

text \<open>
  The comparison trims every address but the reader of the mounted file does not: a value
  with a space after the comma counts as equal to the controller's copy, so no reconciliation
  or synchronisation ever rewrites it, while \<open>readIPFile\<close> hands out the second address with
  its leading space.
\<close>

lemma spaced_value_is_kept:
  assumes "a \<noteq> b" and "plain_ip a" and "plain_ip b" and "a \<noteq> []" and "b \<noteq> []" and "cm_copy s = [(k, {a, b})]"
  shows "\<not> Cm_Reconcile (CmFound [(k, a @ '', '' @ b)] False) s \<and>
    cm_mutate unsorted (cm_copy s) [(k, a @ '', '' @ b)] = [(k, a @ '', '' @ b)] \<and>
    (node f [d, k] = RegFile (a @ '', '' @ b) \<longrightarrow> readIPFile f d k = Some [a, CHR '' '' # b])"
proof -
  have ch: "CHR '','' \<notin> set a" "CHR '','' \<notin> set b" "\<forall>c \<in> set a. \<not> is_space c" "\<forall>c \<in> set b. \<not> is_space c"
    using assms(2,3) by (auto simp: plain_ip_def)
  have sp: "split_on CHR '','' (a @ '', '' @ b) = [a, CHR '' '' # b]"
    using split_on_append_sep [OF ch(1), of "'' '' @ b"] split_on_no_sep [of "CHR '','' " "CHR '' '' # b"] ch(2)
    by simp
  have tr: "trim_space (CHR '' '' # b) = b" using trim_space_id [OF ch(4)] by (simp add: trim_space_def is_space_def)
  have whole: "trim_space (a @ '', '' @ b) = a @ '', '' @ b"
    by (rule trim_ends) (use assms(4,5) ch in auto)
  have "parse_ips (a @ '', '' @ b) = {a, b}"
    unfolding parse_ips_def sp using trim_space_id [OF ch(3)] tr by simp
  then have eq: "deepEqualSets (getIPSetFromConfigmap [(k, a @ '', '' @ b)]) (cm_copy s)"
    using assms(6) by (simp add: getIPSetFromConfigmap_def deepEqualSets_def)
  then show ?thesis
    using sp whole by (auto simp: Cm_Reconcile_def cm_mutate_def readIPFile_def FileExists_def read_file_def)
qed

text \<open>
  C37: The goroutine can block itself for ever: a message that changes the copy, taken while ten
  triggers are pending, makes it wait for room in the channel that only it empties. From then
  on no step, of its own or of others, changes its copy or its channel, and it stays blocked.
\<close>

theorem full_trigger_blocks_forever:
  assumes "length (buf (cm_trigger s)) = 10" and "cap (cm_trigger s) = 10" and "gowf m" and "gowf (cm_copy s)"
    and "map_of (cm_copy s) \<noteq> map_of m"
    and "(cm_step unsorted api)\<^sup>*\<^sup>* (cm_message m s, e) (s', e')"
  shows "s' = cm_message m s \<and> cm_stuck s'"
proof -
  have stuck: "cm_stuck (cm_message m s)" "cm_trigger (cm_message m s) = cm_trigger s"
    using assms(1,2) mirror_hosts_spec(3) [OF assms(3,4)] assms(5)
    by (auto simp: cm_message_def Let_def chan_send_def split: prod.split)
  have "fst p = cm_message m s" if "(cm_step unsorted api)\<^sup>*\<^sup>* (cm_message m s, e) p" for p
    using that
  proof (induction rule: rtranclp_induct)
    case (step p q)
    from step.hyps(2) step.IH stuck show ?case
      by cases (use assms(1,2) in \<open>auto simp: chan_send_def split: if_splits\<close>)
  qed simp
  with assms(6) stuck show ?thesis by fastforce
qed

theorem full_trigger_blocks_forever_witness:
  "cm_stuck (cm_message [] (demo_cm\<lparr>cm_trigger := \<lparr>cap = 10, buf = replicate 10 (), closed = False\<rparr>\<rparr>))"
  using full_trigger_blocks_forever [of "demo_cm\<lparr>cm_trigger := \<lparr>cap = 10, buf = replicate 10 (), closed = False\<rparr>\<rparr>"
      "[]" sorted_list_of_set demo_cm_api None "cm_message [] (demo_cm\<lparr>cm_trigger := \<lparr>cap = 10, buf = replicate 10 (), closed = False\<rparr>\<rparr>)" None]
  by (simp add: demo_cm_def fun_eq_iff)

end
