(* ===== verification/Pub_Sub.thy ===== *)
theory Pub_Sub
  imports Etcd_Prelude
begin

text \<open>
  \<open>pkg/util/pubsub.go\<close>: the in-memory bus between the controllers. Channels live in a heap
  (a list; a channel's address is its index), because the bus and the subscriber share them:
  \<open>Subscribe\<close> hands the subscriber the channel that the bus keeps sending to. The bus is
  generic in the data of a message. Each operation holds the bus mutex for its whole body, so
  it is one step of the model.
\<close>

section \<open>State\<close>

record 'd message =
  Topic :: string
  Data :: 'd

record subscriber =
  sub_id :: string
  sub_chan :: nat

record 'd pubsub =
  subscribers :: "(string, (string, subscriber) gomap) gomap"
  chans :: "'d message chan list"

definition NewPubSub :: "'d pubsub" where
  "NewPubSub = \<lparr>subscribers = [], chans = []\<rparr>"

text \<open>\<open>ps.subscribers[topic]\<close>: a missing topic reads as the nil map.\<close>

definition topic_subs :: "'d pubsub \<Rightarrow> string \<Rightarrow> (string, subscriber) gomap" where
  "topic_subs ps t = (case map_of (subscribers ps) t of None \<Rightarrow> [] | Some m \<Rightarrow> m)"

section \<open>Operations\<close>

datatype pubsub_error = SubscriberExists string string

definition Subscribe ::
    "string \<Rightarrow> string \<Rightarrow> 'd pubsub \<Rightarrow> (pubsub_error, subscriber) gores \<times> 'd pubsub" where
  "Subscribe t i ps =
     (let ps1 = (if map_of (subscribers ps) t = None
                 then ps\<lparr>subscribers := AList.update t [] (subscribers ps)\<rparr> else ps)
      in case map_of (topic_subs ps1 t) i of
           Some _ \<Rightarrow> (GoErr (SubscriberExists i t), ps1)
         | None \<Rightarrow>
             (let s = \<lparr>sub_id = i, sub_chan = length (chans ps1)\<rparr> in
              (GoOk s,
               ps1\<lparr>chans := chans ps1 @ [make_chan 10],
                   subscribers := AList.update t (AList.update i s (topic_subs ps1 t)) (subscribers ps1)\<rparr>)))"

text \<open>Closing a closed channel panics.\<close>

definition close_chan :: "nat \<Rightarrow> 'd pubsub \<Rightarrow> (pubsub_error, 'd pubsub) gores" where
  "close_chan a ps =
     (if closed (chans ps ! a) then GoPanic
      else GoOk (ps\<lparr>chans := (chans ps)[a := (chans ps ! a)\<lparr>closed := True\<rparr>]\<rparr>))"

definition drop_empty_topic :: "string \<Rightarrow> 'd pubsub \<Rightarrow> 'd pubsub" where
  "drop_empty_topic t ps =
     (if topic_subs ps t = [] then ps\<lparr>subscribers := AList.delete t (subscribers ps)\<rparr> else ps)"

definition Unsubscribe ::
    "string \<Rightarrow> string \<Rightarrow> 'd pubsub \<Rightarrow> (pubsub_error, 'd pubsub) gores" where
  "Unsubscribe t i ps =
     (case map_of (subscribers ps) t of
        None \<Rightarrow> GoOk ps
      | Some m \<Rightarrow>
          (case map_of m i of
             None \<Rightarrow> GoOk (drop_empty_topic t ps)
           | Some s \<Rightarrow>
               gores_bind (close_chan (sub_chan s) ps)
                 (\<lambda>ps1. GoOk (drop_empty_topic t
                    (ps1\<lparr>subscribers := AList.update t (AList.delete i m) (subscribers ps1)\<rparr>)))))"

text \<open>The loop of \<open>Publish\<close>: a non-blocking send to each subscriber; a full buffer drops the
  message, a closed channel panics.\<close>

fun publish_loop ::
    "'d message \<Rightarrow> (string, subscriber) gomap \<Rightarrow> 'd message chan list
      \<Rightarrow> (pubsub_error, 'd message chan list) gores" where
  "publish_loop msg [] cs = GoOk cs"
| "publish_loop msg ((i, s) # subs) cs =
     (case chan_send msg (cs ! sub_chan s) of
        Sent c \<Rightarrow> publish_loop msg subs (cs[sub_chan s := c])
      | SendFull \<Rightarrow> publish_loop msg subs cs
      | SendPanic \<Rightarrow> GoPanic)"

definition Publish :: "string \<Rightarrow> 'd \<Rightarrow> 'd pubsub \<Rightarrow> (pubsub_error, 'd pubsub) gores" where
  "Publish t d ps =
     gores_bind (publish_loop \<lparr>Topic = t, Data = d\<rparr> (topic_subs ps t) (chans ps))
       (\<lambda>cs. GoOk (ps\<lparr>chans := cs\<rparr>))"

text \<open>The subscriber's side: a receive on \<open>GetMessage()\<close>.\<close>

definition GetMessage :: "subscriber \<Rightarrow> 'd pubsub \<Rightarrow> 'd message recv_result" where
  "GetMessage s ps = chan_recv (chans ps ! sub_chan s)"

definition receive :: "subscriber \<Rightarrow> 'd pubsub \<Rightarrow> 'd pubsub" where
  "receive s ps =
     (case GetMessage s ps of
        Received m c \<Rightarrow> ps\<lparr>chans := (chans ps)[sub_chan s := c]\<rparr>
      | _ \<Rightarrow> ps)"

section \<open>Invariant\<close>

text \<open>
  No topic is kept without subscribers; a registered subscriber's channel exists, is open and
  has capacity 10; different registrations use different channels; no buffer overflows.
\<close>

definition registered :: "'d pubsub \<Rightarrow> string \<Rightarrow> string \<Rightarrow> subscriber option" where
  "registered ps t i = map_of (topic_subs ps t) i"

definition open_box :: "'d message chan \<Rightarrow> bool" where
  "open_box c \<longleftrightarrow> \<not> closed c \<and> cap c = 10 \<and> length (buf c) \<le> 10"

definition bus_inv :: "'d pubsub \<Rightarrow> bool" where
  "bus_inv ps \<longleftrightarrow>
     gowf (subscribers ps) \<and>
     (\<forall>t m. map_of (subscribers ps) t = Some m \<longrightarrow> gowf m \<and> m \<noteq> []) \<and>
     (\<forall>t i s. registered ps t i = Some s \<longrightarrow>
        sub_chan s < length (chans ps) \<and> open_box (chans ps ! sub_chan s)) \<and>
     (\<forall>t i s t' i' s'. registered ps t i = Some s \<longrightarrow> registered ps t' i' = Some s' \<longrightarrow>
        sub_chan s = sub_chan s' \<longrightarrow> t = t' \<and> i = i') \<and>
     (\<forall>c \<in> set (chans ps). chan_wf c)"


lemma bus_invI:
  assumes "gowf (subscribers ps)"
    and "\<And>t m. map_of (subscribers ps) t = Some m \<Longrightarrow> gowf m \<and> m \<noteq> []"
    and "\<And>t i s. registered ps t i = Some s \<Longrightarrow>
        sub_chan s < length (chans ps) \<and> open_box (chans ps ! sub_chan s)"
    and "\<And>t i s t' i' s'. registered ps t i = Some s \<Longrightarrow> registered ps t' i' = Some s' \<Longrightarrow>
        sub_chan s = sub_chan s' \<Longrightarrow> t = t' \<and> i = i'"
    and "\<And>c. c \<in> set (chans ps) \<Longrightarrow> chan_wf c"
  shows "bus_inv ps"
  using assms unfolding bus_inv_def by blast

lemma bus_inv_new: "bus_inv NewPubSub"
  by (simp add: bus_inv_def NewPubSub_def registered_def topic_subs_def)

lemma topic_subs_update [simp]:
  "topic_subs (ps\<lparr>subscribers := AList.update t m (subscribers ps)\<rparr>) t' =
     (if t' = t then m else topic_subs ps t')"
  by (simp add: topic_subs_def update_conv')

lemma topic_subs_chans [simp]: "topic_subs (ps\<lparr>chans := cs\<rparr>) t = topic_subs ps t"
  by (simp add: topic_subs_def)

lemma registered_chans [simp]: "registered (ps\<lparr>chans := cs\<rparr>) = registered ps"
  by (simp add: registered_def fun_eq_iff)

lemma topic_subs_wf: "bus_inv ps \<Longrightarrow> gowf (topic_subs ps t)"
  by (auto simp: bus_inv_def topic_subs_def split: option.splits)

text \<open>Subscribing twice under the same name is refused and changes nothing.\<close>

lemma Subscribe_taken:
  "registered ps t i \<noteq> None \<Longrightarrow> Subscribe t i ps = (GoErr (SubscriberExists i t), ps)"
  by (auto simp: Subscribe_def registered_def topic_subs_def Let_def split: option.splits)

lemma Subscribe_fresh:
  assumes "registered ps t i = None"
  shows "Subscribe t i ps =
    (let s = \<lparr>sub_id = i, sub_chan = length (chans ps)\<rparr> in
      (GoOk s, ps\<lparr>chans := chans ps @ [make_chan 10],
                  subscribers := AList.update t (AList.update i s (topic_subs ps t)) (subscribers ps)\<rparr>))"
proof (cases "map_of (subscribers ps) t")
  case None
  have "AList.update t m (AList.update t [] (subscribers ps)) = AList.update t m (subscribers ps)" for m
    by (induction "subscribers ps" arbitrary: ps) (auto simp: update_last)
  with None show ?thesis
    by (simp add: Subscribe_def Let_def topic_subs_def update_conv')
next
  case (Some m)
  with assms show ?thesis
    by (simp add: Subscribe_def Let_def topic_subs_def registered_def)
qed

lemma registered_Subscribe:
  assumes "registered ps t i = None" and "Subscribe t i ps = (GoOk s, ps')"
  shows "registered ps' t' i' = (if t' = t \<and> i' = i then Some s else registered ps t' i')"
  using assms by (auto simp: Subscribe_fresh Let_def registered_def topic_subs_def update_conv')

lemma bus_inv_Subscribe:
  assumes inv: "bus_inv ps"
  shows "bus_inv (snd (Subscribe t i ps))"
proof (cases "registered ps t i")
  case (Some s)
  then show ?thesis using inv by (simp add: Subscribe_taken)
next
  case None
  define s where s: "s = \<lparr>sub_id = i, sub_chan = length (chans ps)\<rparr>"
  define ps' where "ps' = snd (Subscribe t i ps)"
  have sub: "Subscribe t i ps = (GoOk s, ps')"
    and cs: "chans ps' = chans ps @ [make_chan 10]"
    and subs: "subscribers ps' = AList.update t (AList.update i s (topic_subs ps t)) (subscribers ps)"
    by (simp_all add: ps'_def Subscribe_fresh [OF None] s Let_def)
  note reg = registered_Subscribe [OF None sub]
  have old: "registered ps u j = Some r \<Longrightarrow>
      sub_chan r < length (chans ps) \<and> open_box (chans ps ! sub_chan r)" for u j r
    using inv unfolding bus_inv_def by blast
  have box: "open_box (make_chan 10)" by (simp add: open_box_def make_chan_def)
  have "bus_inv ps'"
  proof (rule bus_invI)
    show "gowf (subscribers ps')" using inv subs by (simp add: bus_inv_def)
  next
    fix u m assume "map_of (subscribers ps') u = Some m"
    then show "gowf m \<and> m \<noteq> []"
      using inv subs topic_subs_wf [OF inv, of t]
      by (auto simp: update_conv' bus_inv_def split: if_splits)
  next
    fix u j r assume "registered ps' u j = Some r"
    then show "sub_chan r < length (chans ps') \<and> open_box (chans ps' ! sub_chan r)"
      using old [of u j r] box by (auto simp: reg cs s nth_append split: if_splits)
  next
    fix u j r u' j' r'
    assume a: "registered ps' u j = Some r" and b: "registered ps' u' j' = Some r'"
      and c: "sub_chan r = sub_chan r'"
    have new: "registered ps' u j = Some r \<Longrightarrow>
        u = t \<and> j = i \<and> sub_chan r = length (chans ps) \<or>
        registered ps u j = Some r \<and> sub_chan r < length (chans ps)" for u j r
      using old [of u j r] by (cases "u = t \<and> j = i") (simp_all add: reg s, auto)
    have "registered ps u j = Some r \<Longrightarrow> registered ps u' j' = Some r' \<Longrightarrow> u = u' \<and> j = j'"
      using inv c unfolding bus_inv_def by blast
    with new [OF a] new [OF b] c show "u = u' \<and> j = j'" by auto
  next
    fix c assume "c \<in> set (chans ps')"
    then show "chan_wf c" using inv by (auto simp: bus_inv_def cs chan_wf_make)
  qed
  then show ?thesis by (simp add: sub)
qed

section \<open>Publishing\<close>

abbreviation addrs :: "(string, subscriber) gomap \<Rightarrow> nat list" where
  "addrs m \<equiv> map (sub_chan \<circ> snd) m"

lemma chan_send_open:
  "open_box c \<Longrightarrow> chan_send x c = (if length (buf c) < 10 then Sent (chan_offer x c) else SendFull)"
  by (simp add: chan_send_def chan_offer_def open_box_def)

lemma chan_offer_full: "open_box c \<Longrightarrow> \<not> length (buf c) < 10 \<Longrightarrow> chan_offer x c = c"
  by (simp add: chan_send_def chan_offer_def open_box_def)

lemma open_box_offer: "open_box c \<Longrightarrow> open_box (chan_offer x c)"
  by (simp add: open_box_def chan_offer_buf chan_offer_cap)

text \<open>The loop sends to each subscriber's channel once, whatever their order.\<close>

lemma publish_loop_spec:
  assumes "distinct (addrs m)"
    and "\<forall>a \<in> set (addrs m). a < length cs \<and> open_box (cs ! a)"
  shows "\<exists>cs'. publish_loop msg m cs = GoOk cs' \<and> length cs' = length cs \<and>
    (\<forall>a < length cs. cs' ! a = (if a \<in> set (addrs m) then chan_offer msg (cs ! a) else cs ! a))"
  using assms
proof (induction msg m cs rule: publish_loop.induct)
  case (1 msg cs)
  then show ?case by simp
next
  case (2 msg i s subs cs)
  let ?a = "sub_chan s"
  have box: "open_box (cs ! ?a)" and a: "?a < length cs" using "2.prems" by auto
  show ?case
  proof (cases "length (buf (cs ! ?a)) < 10")
    case True
    let ?c = "chan_offer msg (cs ! ?a)"
    have send: "chan_send msg (cs ! ?a) = Sent ?c" using True box by (simp add: chan_send_open)
    have "\<forall>b \<in> set (addrs subs). b < length (cs[?a := ?c]) \<and> open_box (cs[?a := ?c] ! b)"
      using "2.prems" by (auto simp: nth_upd open_box_offer)
    from "2.IH"(1) [OF send _ this] "2.prems" obtain cs' where
      "publish_loop msg subs (cs[?a := ?c]) = GoOk cs'" "length cs' = length cs"
      "\<forall>b < length cs. cs' ! b = (if b \<in> set (addrs subs) then chan_offer msg (cs[?a := ?c] ! b) else cs[?a := ?c] ! b)"
      by auto
    with send "2.prems" show ?thesis by (intro exI [of _ cs']) (auto simp: nth_upd)
  next
    case False
    have send: "chan_send msg (cs ! ?a) = SendFull" using False box by (simp add: chan_send_open)
    from "2.IH"(2) [OF send] "2.prems" obtain cs' where
      "publish_loop msg subs cs = GoOk cs'" "length cs' = length cs"
      "\<forall>b < length cs. cs' ! b = (if b \<in> set (addrs subs) then chan_offer msg (cs ! b) else cs ! b)"
      by auto
    with send False chan_offer_full [OF box] show ?thesis by (intro exI [of _ cs']) auto
  qed
qed

lemma topic_addrs:
  assumes inv: "bus_inv ps"
  shows "distinct (addrs (topic_subs ps t))"
    and "\<forall>a \<in> set (addrs (topic_subs ps t)). a < length (chans ps) \<and> open_box (chans ps ! a)"
    and "a \<in> set (addrs (topic_subs ps t)) \<longleftrightarrow> (\<exists>i s. registered ps t i = Some s \<and> sub_chan s = a)"
proof -
  have wf: "gowf (topic_subs ps t)" by (rule topic_subs_wf [OF inv])
  have reg: "(i, s) \<in> set (topic_subs ps t) \<longleftrightarrow> registered ps t i = Some s" for i s
    using wf by (simp add: registered_def)
  have inj: "inj_on (sub_chan \<circ> snd) (set (topic_subs ps t))"
  proof (rule inj_onI)
    fix x y assume x: "x \<in> set (topic_subs ps t)" and y: "y \<in> set (topic_subs ps t)"
      and eq: "(sub_chan \<circ> snd) x = (sub_chan \<circ> snd) y"
    have rx: "registered ps t (fst x) = Some (snd x)" and ry: "registered ps t (fst y) = Some (snd y)"
      using x y reg [of "fst x" "snd x"] reg [of "fst y" "snd y"] by simp_all
    then have "fst x = fst y" using inv eq unfolding bus_inv_def by fastforce
    with rx ry show "x = y" by (simp add: prod_eq_iff)
  qed
  from wf have "distinct (topic_subs ps t)" by (rule distinct_map [THEN iffD1, THEN conjunct1])
  with inj show "distinct (addrs (topic_subs ps t))" by (simp add: distinct_map)
  show "\<forall>a \<in> set (addrs (topic_subs ps t)). a < length (chans ps) \<and> open_box (chans ps ! a)"
    using inv reg unfolding bus_inv_def by fastforce
  show "a \<in> set (addrs (topic_subs ps t)) \<longleftrightarrow> (\<exists>i s. registered ps t i = Some s \<and> sub_chan s = a)"
    using reg by force
qed

text \<open>What \<open>Publish\<close> does to every channel of a well-formed bus; it never panics there.\<close>

lemma Publish_spec:
  assumes inv: "bus_inv ps"
  obtains ps' where "Publish t d ps = GoOk ps'"
    and "subscribers ps' = subscribers ps" and "length (chans ps') = length (chans ps)"
    and "\<And>a. a < length (chans ps) \<Longrightarrow> chans ps' ! a =
      (if \<exists>i s. registered ps t i = Some s \<and> sub_chan s = a
       then chan_offer \<lparr>Topic = t, Data = d\<rparr> (chans ps ! a) else chans ps ! a)"
proof -
  from publish_loop_spec [OF topic_addrs(1,2) [OF inv], of "\<lparr>Topic = t, Data = d\<rparr>" t]
  obtain cs where ok: "publish_loop \<lparr>Topic = t, Data = d\<rparr> (topic_subs ps t) (chans ps) = GoOk cs"
    and len: "length cs = length (chans ps)"
    and cs: "\<forall>a < length (chans ps). cs ! a =
       (if a \<in> set (addrs (topic_subs ps t)) then chan_offer \<lparr>Topic = t, Data = d\<rparr> (chans ps ! a)
        else chans ps ! a)" by blast
  show thesis
  proof (rule that [of "ps\<lparr>chans := cs\<rparr>"])
    fix a assume "a < length (chans ps)"
    then show "chans (ps\<lparr>chans := cs\<rparr>) ! a =
      (if \<exists>i s. registered ps t i = Some s \<and> sub_chan s = a
       then chan_offer \<lparr>Topic = t, Data = d\<rparr> (chans ps ! a) else chans ps ! a)"
      using cs topic_addrs(3) [OF inv, of a t] by simp
  qed (simp_all add: Publish_def ok len)
qed

lemma registered_cong: "subscribers ps' = subscribers ps \<Longrightarrow> registered ps' = registered ps"
  by (simp add: registered_def topic_subs_def fun_eq_iff)

text \<open>A change of channel contents that keeps the boxes open keeps the invariant.\<close>

lemma bus_inv_contents:
  assumes inv: "bus_inv ps" and subs: "subscribers ps' = subscribers ps"
    and len: "length (chans ps') = length (chans ps)"
    and box: "\<And>a. a < length (chans ps) \<Longrightarrow> open_box (chans ps ! a) \<Longrightarrow> open_box (chans ps' ! a)"
    and wf: "\<And>a. a < length (chans ps) \<Longrightarrow> chan_wf (chans ps ! a) \<Longrightarrow> chan_wf (chans ps' ! a)"
  shows "bus_inv ps'"
proof (rule bus_invI)
  fix c assume "c \<in> set (chans ps')"
  then obtain a where "a < length (chans ps)" "c = chans ps' ! a"
    using len by (auto simp: in_set_conv_nth)
  then show "chan_wf c" using wf inv by (simp add: bus_inv_def)
qed (use inv box subs len registered_cong [OF subs] in \<open>unfold bus_inv_def, auto\<close>)

lemma bus_inv_Publish: "bus_inv ps \<Longrightarrow> Publish t d ps = GoOk ps' \<Longrightarrow> bus_inv ps'"
proof -
  assume inv: "bus_inv ps" and ok: "Publish t d ps = GoOk ps'"
  obtain q where q: "Publish t d ps = GoOk q"
    and subs: "subscribers q = subscribers ps" and len: "length (chans q) = length (chans ps)"
    and at: "\<And>a. a < length (chans ps) \<Longrightarrow> chans q ! a =
      (if \<exists>i s. registered ps t i = Some s \<and> sub_chan s = a
       then chan_offer \<lparr>Topic = t, Data = d\<rparr> (chans ps ! a) else chans ps ! a)"
    by (rule Publish_spec [OF inv, of t d]) blast
  have "bus_inv q"
    by (rule bus_inv_contents [OF inv subs len]) (simp_all add: at open_box_offer chan_wf_offer)
  with ok q show ?thesis by simp
qed

lemma bus_inv_receive:
  assumes inv: "bus_inv ps"
  shows "bus_inv (receive s ps)"
proof (cases "buf (chans ps ! sub_chan s)")
  case Nil
  then show ?thesis using inv by (simp add: receive_def GetMessage_def chan_recv_def)
next
  case (Cons m ms)
  then have r: "receive s ps = ps\<lparr>chans := (chans ps)[sub_chan s := (chans ps ! sub_chan s)\<lparr>buf := ms\<rparr>]\<rparr>"
    by (simp add: receive_def GetMessage_def chan_recv_def)
  show ?thesis unfolding r
    by (rule bus_inv_contents [OF inv]) (use Cons in \<open>auto simp: nth_upd open_box_def chan_wf_def\<close>)
qed

section \<open>Unsubscribing\<close>

lemma drop_empty_topic_facts [simp]:
  "registered (drop_empty_topic t ps) = registered ps"
  "chans (drop_empty_topic t ps) = chans ps"
  by (auto simp: drop_empty_topic_def registered_def topic_subs_def fun_eq_iff delete_conv'
      split: option.splits if_splits)

lemma drop_empty_topic_lookup:
  "map_of (subscribers (drop_empty_topic t ps)) u =
     (if u = t \<and> topic_subs ps t = [] then None else map_of (subscribers ps) u)"
  by (simp add: drop_empty_topic_def delete_conv')

lemma gowf_drop [simp]:
  "gowf (subscribers ps) \<Longrightarrow> gowf (subscribers (drop_empty_topic t ps))"
  by (simp add: drop_empty_topic_def)

text \<open>Unsubscribing removes the one registration, closes its channel and touches no other.\<close>

lemma Unsubscribe_spec:
  assumes inv: "bus_inv ps"
  obtains ps' where "Unsubscribe t i ps = GoOk ps'"
    and "bus_inv ps'"
    and "\<And>u j. registered ps' u j = (if u = t \<and> j = i then None else registered ps u j)"
    and "chans ps' = (case registered ps t i of None \<Rightarrow> chans ps
       | Some s \<Rightarrow> (chans ps)[sub_chan s := (chans ps ! sub_chan s)\<lparr>closed := True\<rparr>])"
proof (cases "registered ps t i")
  case None
  have "drop_empty_topic t ps = ps" if "map_of (subscribers ps) t = Some m" for m
    using inv that by (auto simp: bus_inv_def drop_empty_topic_def topic_subs_def)
  then have "Unsubscribe t i ps = GoOk ps"
    using None by (auto simp: Unsubscribe_def registered_def topic_subs_def split: option.splits)
  then show thesis using that [of ps] None inv by auto
next
  case (Some s)
  then obtain m where m: "map_of (subscribers ps) t = Some m" "map_of m i = Some s"
    by (auto simp: registered_def topic_subs_def split: option.splits)
  let ?cs = "(chans ps)[sub_chan s := (chans ps ! sub_chan s)\<lparr>closed := True\<rparr>]"
  let ?q = "ps\<lparr>chans := ?cs, subscribers := AList.update t (AList.delete i m) (subscribers ps)\<rparr>"
  have box: "\<And>u j r. registered ps u j = Some r \<Longrightarrow>
      sub_chan r < length (chans ps) \<and> open_box (chans ps ! sub_chan r)"
    and inj: "\<And>u j r u' j' r'. registered ps u j = Some r \<Longrightarrow> registered ps u' j' = Some r' \<Longrightarrow>
      sub_chan r = sub_chan r' \<Longrightarrow> u = u' \<and> j = j'"
    using inv unfolding bus_inv_def by blast+
  have run: "Unsubscribe t i ps = GoOk (drop_empty_topic t ?q)"
    using m box [OF Some] by (simp add: Unsubscribe_def close_chan_def open_box_def)
  have sub_q: "topic_subs ?q u = (if u = t then AList.delete i m else topic_subs ps u)" for u
    by (simp add: topic_subs_def update_conv')
  have reg: "registered ?q u j =
      (if u = t \<and> j = i then None else registered ps u j)" for u j
    using m by (auto simp: registered_def sub_q delete_conv' update_conv' topic_subs_def)
  have "bus_inv (drop_empty_topic t ?q)"
  proof (rule bus_invI)
    show "gowf (subscribers (drop_empty_topic t ?q))" using inv by (simp add: bus_inv_def)
  next
    fix u m' assume "map_of (subscribers (drop_empty_topic t ?q)) u = Some m'"
    then show "gowf m' \<and> m' \<noteq> []"
      using inv m(1) sub_q [of t] by (auto simp: drop_empty_topic_lookup update_conv' bus_inv_def split: if_splits)
  next
    fix u j r assume r: "registered (drop_empty_topic t ?q) u j = Some r"
    then have "registered ps u j = Some r" "\<not> (u = t \<and> j = i)" by (auto simp: reg split: if_splits)
    then show "sub_chan r < length (chans (drop_empty_topic t ?q)) \<and>
        open_box (chans (drop_empty_topic t ?q) ! sub_chan r)"
      using box inj [OF Some] by (auto simp: nth_upd)
  next
    fix u j r u' j' r'
    assume "registered (drop_empty_topic t ?q) u j = Some r"
      "registered (drop_empty_topic t ?q) u' j' = Some r'" "sub_chan r = sub_chan r'"
    then show "u = u' \<and> j = j'" using inj by (auto simp: reg split: if_splits)
  next
    fix c assume "c \<in> set (chans (drop_empty_topic t ?q))"
    then obtain a where "a < length (chans ps)" "c = ?cs ! a" by (auto simp: in_set_conv_nth)
    then show "chan_wf c" using inv by (auto simp: bus_inv_def nth_upd chan_wf_def)
  qed
  with run reg Some show thesis by (intro that [of "drop_empty_topic t ?q"]) auto
qed

section \<open>Every reachable bus is well formed\<close>

inductive bus_step :: "'d pubsub \<Rightarrow> 'd pubsub \<Rightarrow> bool" where
  step_subscribe: "bus_step ps (snd (Subscribe t i ps))"
| step_unsubscribe: "Unsubscribe t i ps = GoOk ps' \<Longrightarrow> bus_step ps ps'"
| step_publish: "Publish t d ps = GoOk ps' \<Longrightarrow> bus_step ps ps'"
| step_receive: "bus_step ps (receive s ps)"

abbreviation bus_reach :: "'d pubsub \<Rightarrow> bool" where
  "bus_reach \<equiv> reach (\<lambda>ps. ps = NewPubSub) bus_step"

interpretation bus: invariant_system "\<lambda>ps. ps = NewPubSub" bus_step bus_inv
proof
  fix s t :: "'d pubsub"
  show "s = NewPubSub \<Longrightarrow> bus_inv s" by (simp add: bus_inv_new)
  assume inv: "bus_inv s" and "bus_step s t"
  from this(2) show "bus_inv t"
  proof cases
    case (step_unsubscribe t' i)
    show ?thesis by (rule Unsubscribe_spec [OF inv, of t' i]) (use step_unsubscribe in simp)
  qed (use inv in \<open>auto intro: bus_inv_Subscribe bus_inv_Publish bus_inv_receive\<close>)
qed

text \<open>A topic's subscriber as a mailbox of ten messages that \<open>Publish\<close> fills.\<close>

interpretation sub_box: mailbox open_box chan_offer buf 10
  by unfold_locales (auto simp: open_box_def chan_offer_buf chan_offer_cap)

definition publish_step :: "string \<Rightarrow> 'd \<Rightarrow> 'd pubsub \<Rightarrow> 'd pubsub" where
  "publish_step t d ps = (case Publish t d ps of GoOk ps' \<Rightarrow> ps' | _ \<Rightarrow> ps)"

definition subscribed :: "string \<Rightarrow> string \<Rightarrow> nat \<Rightarrow> 'd pubsub \<Rightarrow> bool" where
  "subscribed t i a ps \<longleftrightarrow> bus_inv ps \<and> (\<exists>s. registered ps t i = Some s \<and> sub_chan s = a)"

definition backlog :: "nat \<Rightarrow> 'd pubsub \<Rightarrow> 'd list" where
  "backlog a ps = map Data (buf (chans ps ! a))"

lemma subscribed_box: "subscribed t i a ps \<Longrightarrow> a < length (chans ps) \<and> open_box (chans ps ! a)"
  unfolding subscribed_def bus_inv_def by blast

lemma publish_step_subscribed:
  assumes sub: "subscribed t i a ps"
  shows "subscribed t i a (publish_step t d ps)"
    and "backlog a (publish_step t d ps) = take 10 (backlog a ps @ [d])"
proof -
  have inv: "bus_inv ps" using sub by (simp add: subscribed_def)
  obtain ps' where p: "Publish t d ps = GoOk ps'" and subs: "subscribers ps' = subscribers ps"
    and at: "\<And>b. b < length (chans ps) \<Longrightarrow> chans ps' ! b =
      (if \<exists>i s. registered ps t i = Some s \<and> sub_chan s = b
       then chan_offer \<lparr>Topic = t, Data = d\<rparr> (chans ps ! b) else chans ps ! b)"
    by (rule Publish_spec [OF inv, of t d]) blast
  show "subscribed t i a (publish_step t d ps)"
    using sub bus_inv_Publish [OF inv p] registered_cong [OF subs]
    by (simp add: subscribed_def publish_step_def p)
  have "chans ps' ! a = chan_offer \<lparr>Topic = t, Data = d\<rparr> (chans ps ! a)"
    using sub subscribed_box [OF sub] at [of a] by (auto simp: subscribed_def)
  then show "backlog a (publish_step t d ps) = take 10 (backlog a ps @ [d])"
    using subscribed_box [OF sub]
    by (simp add: publish_step_def p backlog_def sub_box.contents_put take_map [symmetric] del: take_append)
qed

interpretation topic_box: mailbox "subscribed t i a" "publish_step t" "backlog a" 10
  for t i a
proof
  fix q :: "'d pubsub" and x
  assume q: "subscribed t i a q"
  show "subscribed t i a (publish_step t x q)" by (rule publish_step_subscribed [OF q])
  show "length (backlog a q) \<le> 10" using subscribed_box [OF q] by (simp add: backlog_def open_box_def)
  show "backlog a (publish_step t x q) = take 10 (backlog a q @ [x])"
    by (rule publish_step_subscribed [OF q])
qed

section \<open>Properties\<close>

text \<open>
  C19: On every bus reached from \<open>NewPubSub\<close> by any sequence of subscriptions, unsubscriptions,
  publications and receptions, neither \<open>Publish\<close> (send on a closed channel) nor \<open>Unsubscribe\<close>
  (close of a closed channel) panics: both complete.
\<close>

theorem bus_never_panics:
  assumes "bus_reach ps"
  shows "(\<exists>ps'. Publish t d ps = GoOk ps' \<and> bus_reach ps') \<and>
    (\<exists>ps'. Unsubscribe t i ps = GoOk ps' \<and> bus_reach ps')"
proof -
  note inv = bus.reach_inv [OF assms]
  obtain p where p: "Publish t d ps = GoOk p" by (rule Publish_spec [OF inv, of t d]) blast
  obtain q where q: "Unsubscribe t i ps = GoOk q" by (rule Unsubscribe_spec [OF inv, of t i]) blast
  show ?thesis
    using p q reach_step [OF assms step_publish [OF p]] reach_step [OF assms step_unsubscribe [OF q]]
    by blast
qed

text \<open>A bus with one subscriber, for the witnesses.\<close>

definition one_sub :: "int pubsub" where
  "one_sub = snd (Subscribe ''t'' ''a'' NewPubSub)"

lemma one_sub_facts:
  "bus_reach one_sub" "registered one_sub ''t'' ''a'' = Some \<lparr>sub_id = ''a'', sub_chan = 0\<rparr>"
  "chans one_sub = [make_chan 10]"
proof -
  have "bus_reach (NewPubSub :: int pubsub)" by (rule reach_start) (rule refl)
  then show "bus_reach one_sub"
    unfolding one_sub_def by (rule reach_step) (rule step_subscribe)
qed (simp_all add: one_sub_def Subscribe_def NewPubSub_def topic_subs_def registered_def Let_def)

theorem bus_never_panics_witness:
  "(\<exists>ps'. Publish ''t'' 1 one_sub = GoOk ps' \<and> bus_reach ps') \<and>
   (\<exists>ps'. Unsubscribe ''t'' ''a'' one_sub = GoOk ps' \<and> bus_reach ps')"
  by (rule bus_never_panics) (rule one_sub_facts)

text \<open>
  A subscriber that does not read while \<open>ds\<close> are published on its topic finds afterwards
  the first ten of its old backlog followed by \<open>ds\<close>, in order: what is lost is exactly what
  came last, and \<open>Publish\<close> never blocks.
\<close>

lemma publish_backlog:
  assumes "bus_reach ps" and "registered ps t i = Some s"
  shows "backlog (sub_chan s) (fold (publish_step t) ds ps) = take 10 (backlog (sub_chan s) ps @ ds)"
  by (rule topic_box.contents_put_all) (use assms in \<open>auto simp: subscribed_def intro: bus.reach_inv\<close>)

text \<open>
  \<open>Publish\<close> reaches the topic's subscribers and no one else: a subscriber of another topic
  keeps its channel as it was, and the registrations do not change.
\<close>

lemma publish_isolation:
  assumes "bus_reach ps" and "registered ps u j = Some s" and "u \<noteq> t"
  shows "chans (publish_step t d ps) ! sub_chan s = chans ps ! sub_chan s \<and>
    registered (publish_step t d ps) = registered ps"
proof -
  note inv = bus.reach_inv [OF assms(1)]
  have a: "sub_chan s < length (chans ps)" using inv assms(2) unfolding bus_inv_def by blast
  have other: "\<not> (\<exists>i r. registered ps t i = Some r \<and> sub_chan r = sub_chan s)"
    using inv assms(2,3) unfolding bus_inv_def by blast
  obtain ps' where p: "Publish t d ps = GoOk ps'" and subs: "subscribers ps' = subscribers ps"
    and at: "\<And>a. a < length (chans ps) \<Longrightarrow> chans ps' ! a =
      (if \<exists>i s. registered ps t i = Some s \<and> sub_chan s = a
       then chan_offer \<lparr>Topic = t, Data = d\<rparr> (chans ps ! a) else chans ps ! a)"
    by (rule Publish_spec [OF inv, of t d]) blast
  show ?thesis using at [OF a] other registered_cong [OF subs] by (simp add: publish_step_def p)
qed

text \<open>
  \<open>Unsubscribe\<close> removes exactly the one registration and closes its channel, whose
  buffered messages stay readable; a later \<open>Subscribe\<close> under the same name succeeds with a
  fresh, empty channel.
\<close>

lemma unsubscribe_resubscribe:
  assumes "bus_reach ps" and "registered ps t i = Some s" and "Unsubscribe t i ps = GoOk ps'"
  shows "(\<forall>u j. registered ps' u j = (if u = t \<and> j = i then None else registered ps u j)) \<and>
    chans ps' = (chans ps)[sub_chan s := (chans ps ! sub_chan s)\<lparr>closed := True\<rparr>] \<and>
    (\<exists>s' ps''. Subscribe t i ps' = (GoOk s', ps'') \<and> sub_chan s' = length (chans ps) \<and>
       backlog (sub_chan s') ps'' = [])"
proof -
  note inv = bus.reach_inv [OF assms(1)]
  obtain q where q: "Unsubscribe t i ps = GoOk q"
    and reg: "\<And>u j. registered q u j = (if u = t \<and> j = i then None else registered ps u j)"
    and cs: "chans q = (chans ps)[sub_chan s := (chans ps ! sub_chan s)\<lparr>closed := True\<rparr>]"
    by (rule Unsubscribe_spec [OF inv, of t i]) (use assms(2) in auto)
  have [simp]: "ps' = q" using assms(3) q by simp
  have "registered q t i = None" using reg by simp
  from Subscribe_fresh [OF this] have "\<exists>s' ps''. Subscribe t i q = (GoOk s', ps'') \<and>
      sub_chan s' = length (chans ps) \<and> backlog (sub_chan s') ps'' = []"
    using cs by (simp add: Let_def backlog_def make_chan_def nth_append)
  with reg cs show ?thesis by simp
qed

end
