(* ===== verification/Host_Pipeline.thy ===== *)
theory Host_Pipeline
  imports Ecs_Node Service_Sync Configmap_Sync Pub_Sub
begin

text \<open>
  The ECSNode controller, the bus, its two followers and the service controller put together,
  as \<open>setupControllers\<close> of \<open>cmd/ecsnode/main.go\<close> wires them when a Service and a ConfigMap are
  configured: what \<open>EcsNode.Reconcile\<close> collects reaches \<open>PodCtrl\<close> and \<open>ConfigMapSync\<close> over the
  topic \<open>/ecsnode\<close>, and \<open>PodCtrl\<close> wakes \<open>ServiceSync\<close> over \<open>/pod\<close>. A message of \<open>/ecsnode\<close>
  carries the controller's own map by reference, so a follower sees the map's value at the time
  it takes the message. A handler and the send or publication that it defers are separate steps
  (\<open>pl_sending\<close>, \<open>pl_podpub\<close>). The goroutines run: the end of the context, which stops them, is
  modelled with each controller and not here; the unlocked accesses to shared maps inside a handler, which can
  overlap in the code, are not interleaved here.
\<close>

record 'w pipeline =
  pl_ecs :: EcsNode
  pl_sending :: bool
  pl_bus :: "payload pubsub"
  pl_pod :: PodCtrl
  pl_podpub :: bool
  pl_cm :: ConfigMapSync
  pl_svc :: ServiceSync
  pl_world :: 'w

definition pod_sub :: subscriber where "pod_sub = \<lparr>sub_id = ''pod'', sub_chan = 0\<rparr>"
definition svc_sub :: subscriber where "svc_sub = \<lparr>sub_id = ''service'', sub_chan = 1\<rparr>"
definition cm_sub :: subscriber where "cm_sub = \<lparr>sub_id = ''configmap'', sub_chan = 2\<rparr>"

text \<open>The constructors subscribe before anything runs.\<close>

definition wired_bus :: "payload pubsub" where
  "wired_bus =
     snd (Subscribe EcsNodeTopic ''configmap''
       (snd (Subscribe PodTopic ''service'' (snd (Subscribe EcsNodeTopic ''pod'' NewPubSub)))))"

definition pipeline_start :: "'w pipeline \<Rightarrow> bool" where
  "pipeline_start p \<longleftrightarrow>
     (\<exists>ec pc cc sc. pl_ecs p = NewEcsNode ec \<and> pl_pod p = NewPod pc \<and> pl_cm p = NewConfigMapSync cc \<and>
        pl_svc p = NewServiceSync sc) \<and>
     \<not> pl_sending p \<and> \<not> pl_podpub p \<and> pl_bus p = wired_bus"

inductive pipeline_step ::
    "(string set \<Rightarrow> string list) \<Rightarrow> 'w cm_api \<Rightarrow> 'w svc_api \<Rightarrow> 'w pipeline \<Rightarrow> 'w pipeline \<Rightarrow> bool"
  for unsorted :: "string set \<Rightarrow> string list" and api :: "'w cm_api" and sapi :: "'w svc_api" where
  ecs_reconcile: "\<not> pl_sending p \<Longrightarrow> EcsNode_Reconcile listed got (pl_ecs p) = (r, pub, h) \<Longrightarrow>
    pipeline_step unsorted api sapi p (p\<lparr>pl_ecs := h, pl_sending := pub\<rparr>)"
| ecs_send: "pl_sending p \<Longrightarrow> chan_send () (ecs_trigger (pl_ecs p)) = Sent c \<Longrightarrow>
    pipeline_step unsorted api sapi p (p\<lparr>pl_ecs := (pl_ecs p)\<lparr>ecs_trigger := c\<rparr>, pl_sending := False\<rparr>)"
| ecs_publish: "chan_recv (ecs_trigger (pl_ecs p)) = Received () c \<Longrightarrow>
    Publish EcsNodeTopic HostIPs (pl_bus p) = GoOk b \<Longrightarrow>
    pipeline_step unsorted api sapi p (p\<lparr>pl_ecs := (pl_ecs p)\<lparr>ecs_trigger := c\<rparr>, pl_bus := b\<rparr>)"
| pod_receive: "GetMessage pod_sub (pl_bus p) = Received m c \<Longrightarrow>
    pipeline_step unsorted api sapi p
      (p\<lparr>pl_bus := receive pod_sub (pl_bus p), pl_pod := pod_message (hostips (pl_ecs p)) (pl_pod p)\<rparr>)"
| pod_reconcile: "\<not> pl_podpub p \<Longrightarrow> Pod_Reconcile listed n got (pl_pod p) = (r, pub, h) \<Longrightarrow>
    pipeline_step unsorted api sapi p (p\<lparr>pl_pod := h, pl_podpub := pub\<rparr>)"
| pod_publish: "pl_podpub p \<Longrightarrow> Publish PodTopic NilData (pl_bus p) = GoOk b \<Longrightarrow>
    pipeline_step unsorted api sapi p (p\<lparr>pl_bus := b, pl_podpub := False\<rparr>)"
| cm_take: "\<not> cm_stuck (pl_cm p) \<Longrightarrow> GetMessage cm_sub (pl_bus p) = Received m c \<Longrightarrow>
    pipeline_step unsorted api sapi p
      (p\<lparr>pl_bus := receive cm_sub (pl_bus p), pl_cm := cm_message (hostips (pl_ecs p)) (pl_cm p)\<rparr>)"
| cm_other: "cm_step unsorted api (pl_cm p, pl_world p) (s, e) \<Longrightarrow> cm_copy s = cm_copy (pl_cm p) \<Longrightarrow>
    cm_stuck s = cm_stuck (pl_cm p) \<Longrightarrow> closed (cm_trigger s) = closed (cm_trigger (pl_cm p)) \<Longrightarrow>
    pipeline_step unsorted api sapi p (p\<lparr>pl_cm := s, pl_world := e\<rparr>)"
| svc_take: "\<not> ss_stuck (pl_svc p) \<Longrightarrow> GetMessage svc_sub (pl_bus p) = Received m c \<Longrightarrow>
    pipeline_step unsorted api sapi p
      (p\<lparr>pl_bus := receive svc_sub (pl_bus p), pl_svc := svc_message (pl_svc p)\<rparr>)"
| svc_work: "\<not> ss_stuck (pl_svc p) \<Longrightarrow> chan_recv (ss_trigger (pl_svc p)) = Received () c \<Longrightarrow>
    svc_triggered sapi (\<lambda>notready. ListPodHostIP unsorted notready (pl_pod p)) c (pl_svc p) (pl_world p) = (s, e) \<Longrightarrow>
    pipeline_step unsorted api sapi p (p\<lparr>pl_svc := s, pl_world := e\<rparr>)"
| svc_request: "Service_Reconcile gotService gotEndpoints (pl_svc p) \<Longrightarrow>
    chan_send () (ss_trigger (pl_svc p)) = Sent c \<Longrightarrow>
    pipeline_step unsorted api sapi p (p\<lparr>pl_svc := (pl_svc p)\<lparr>ss_trigger := c\<rparr>\<rparr>)"
| svc_retry: "0 < ss_retries (pl_svc p) \<Longrightarrow> chan_send () (ss_trigger (pl_svc p)) = Sent c \<Longrightarrow>
    pipeline_step unsorted api sapi p
      (p\<lparr>pl_svc := (pl_svc p)\<lparr>ss_trigger := c, ss_retries := ss_retries (pl_svc p) - 1\<rparr>\<rparr>)"

text \<open>A change of the collected map is on its way to subscriber \<open>s\<close>.\<close>

definition on_its_way :: "subscriber \<Rightarrow> 'w pipeline \<Rightarrow> bool" where
  "on_its_way s p \<longleftrightarrow> pl_sending p \<or> buf (ecs_trigger (pl_ecs p)) \<noteq> [] \<or> backlog (sub_chan s) (pl_bus p) \<noteq> []"

text \<open>The service controller has something to do; its desired objects are those of the pods.\<close>

definition svc_pending :: "'w pipeline \<Rightarrow> bool" where
  "svc_pending p \<longleftrightarrow> pl_podpub p \<or> backlog (sub_chan svc_sub) (pl_bus p) \<noteq> [] \<or>
     buf (ss_trigger (pl_svc p)) \<noteq> [] \<or> 0 < ss_retries (pl_svc p) \<or> ss_stuck (pl_svc p)"

definition svc_current :: "(string set \<Rightarrow> string list) \<Rightarrow> PodCtrl \<Rightarrow> ServiceSync \<Rightarrow> bool" where
  "svc_current unsorted h s \<longleftrightarrow>
     (case ListPodHostIP unsorted (PublishNotReady (ss_config s)) h of
        Inl err \<Rightarrow> True
      | Inr ips \<Rightarrow> svcinfo s = serviceEndpoint (ss_config s) ips)"

definition wired :: "payload pubsub \<Rightarrow> bool" where
  "wired b \<longleftrightarrow> bus_inv b \<and> registered b EcsNodeTopic ''pod'' = Some pod_sub \<and>
     registered b EcsNodeTopic ''configmap'' = Some cm_sub \<and> registered b PodTopic ''service'' = Some svc_sub"

definition trigger_ok :: "unit chan \<Rightarrow> bool" where
  "trigger_ok c \<longleftrightarrow> \<not> closed c \<and> cap c = 10 \<and> length (buf c) \<le> 10"

definition pipeline_inv :: "(string set \<Rightarrow> string list) \<Rightarrow> 'w pipeline \<Rightarrow> bool" where
  "pipeline_inv unsorted p \<longleftrightarrow> wired (pl_bus p) \<and> trigger_ok (ecs_trigger (pl_ecs p)) \<and>
     pod_copy.announced (hostips (pl_ecs p)) (on_its_way pod_sub p) (pl_pod p) \<and>
     cm_follower.announced (hostips (pl_ecs p)) (on_its_way cm_sub p) (pl_cm p) \<and>
     (svc_pending p \<or> svc_current unsorted (pl_pod p) (pl_svc p))"

section \<open>The bus under the pipeline's steps\<close>

lemma bus_reach_inv: "bus_reach b \<Longrightarrow> bus_inv b"
  by (rule bus.reach_inv)

lemma topics_differ [simp]: "EcsNodeTopic \<noteq> PodTopic" "PodTopic \<noteq> EcsNodeTopic"
  by (simp_all add: EcsNodeTopic_def PodTopic_def)

lemma wired_start: "wired wired_bus"
proof -
  have "bus_inv (NewPubSub :: payload pubsub)" by (rule bus_inv_new)
  then have "bus_inv wired_bus" unfolding wired_bus_def by (intro bus_inv_Subscribe)
  then show ?thesis
    by (simp add: wired_def wired_bus_def pod_sub_def svc_sub_def cm_sub_def Subscribe_def NewPubSub_def
        registered_def topic_subs_def Let_def)
qed

lemma wired_inv: "wired b \<Longrightarrow> bus_inv b"
  by (simp add: wired_def)

lemma wired_Publish:
  assumes "wired b" and "Publish t d b = GoOk b'"
  shows "wired b'"
proof -
  obtain q where "Publish t d b = GoOk q" and "subscribers q = subscribers b"
    by (rule Publish_spec [of b t d]) (use assms(1) in \<open>simp_all add: wired_def\<close>)
  then have "registered b' = registered b" using assms(2) registered_cong by simp
  then show ?thesis using assms bus_inv_Publish [of b t d b'] by (simp add: wired_def)
qed

text \<open>Publishing leaves a message with every subscriber of the topic, and the others alone.\<close>

lemma publish_fills:
  assumes "bus_inv b" and "Publish t d b = GoOk b'" and "registered b t i = Some s"
  shows "backlog (sub_chan s) b' \<noteq> []"
proof -
  have "subscribed t i (sub_chan s) b" using assms(1,3) by (auto simp: subscribed_def)
  moreover have "publish_step t d b = b'" using assms(2) by (simp add: publish_step_def)
  ultimately have "backlog (sub_chan s) b' = take 10 (backlog (sub_chan s) b @ [d])"
    using publish_step_subscribed(2) by metis
  then show ?thesis by simp
qed

lemma publish_other_keeps:
  assumes inv: "bus_inv b" and "Publish t d b = GoOk b'" and r: "registered b t' j = Some r" and "t' \<noteq> t"
  shows "chans b' ! sub_chan r = chans b ! sub_chan r"
proof -
  have none: "\<not> (\<exists>i s. registered b t i = Some s \<and> sub_chan s = sub_chan r)"
    using inv r \<open>t' \<noteq> t\<close> unfolding bus_inv_def by metis
  obtain q where q: "Publish t d b = GoOk q"
    and at: "\<And>a. a < length (chans b) \<Longrightarrow> chans q ! a =
      (if \<exists>i s. registered b t i = Some s \<and> sub_chan s = a
       then chan_offer \<lparr>Topic = t, Data = d\<rparr> (chans b ! a) else chans b ! a)"
    by (rule Publish_spec [OF inv, of t d]) blast
  have "sub_chan r < length (chans b)" using inv r unfolding bus_inv_def by metis
  from at [OF this] have "chans q ! sub_chan r = chans b ! sub_chan r" unfolding if_not_P [OF none] .
  then show ?thesis using q assms(2) by simp
qed

lemma sub_chans [simp]: "sub_chan pod_sub = 0" "sub_chan cm_sub = 2" "sub_chan svc_sub = 1"
  by (simp_all add: pod_sub_def cm_sub_def svc_sub_def)

lemma publish_ecs:
  assumes w: "wired b" and "Publish EcsNodeTopic d b = GoOk b'"
  shows "backlog 0 b' \<noteq> []" and "backlog 2 b' \<noteq> []" and "backlog 1 b' = backlog 1 b"
proof -
  note w' = w [unfolded wired_def]
  show "backlog 0 b' \<noteq> []" using publish_fills [OF wired_inv [OF w] assms(2)] w' by fastforce
  show "backlog 2 b' \<noteq> []" using publish_fills [OF wired_inv [OF w] assms(2)] w' by fastforce
  show "backlog 1 b' = backlog 1 b"
    using publish_other_keeps [OF wired_inv [OF w] assms(2), of PodTopic "''service''" svc_sub] w'
    by (simp add: backlog_def)
qed

lemma publish_pod:
  assumes w: "wired b" and "Publish PodTopic d b = GoOk b'"
  shows "backlog 0 b' = backlog 0 b" and "backlog 2 b' = backlog 2 b" and "backlog 1 b' \<noteq> []"
proof -
  note w' = w [unfolded wired_def]
  show "backlog 0 b' = backlog 0 b"
    using publish_other_keeps [OF wired_inv [OF w] assms(2), of EcsNodeTopic "''pod''" pod_sub] w'
    by (simp add: backlog_def)
  show "backlog 2 b' = backlog 2 b"
    using publish_other_keeps [OF wired_inv [OF w] assms(2), of EcsNodeTopic "''configmap''" cm_sub] w'
    by (simp add: backlog_def)
  show "backlog 1 b' \<noteq> []" using publish_fills [OF wired_inv [OF w] assms(2)] w' by fastforce
qed

lemma receive_other:
  "a \<noteq> sub_chan s \<Longrightarrow> backlog a (receive s b) = backlog a b"
  by (simp add: receive_def backlog_def split: recv_result.split)

lemma wired_receive: "wired b \<Longrightarrow> wired (receive s b)"
  using bus_inv_receive [of b s]
  by (auto simp: wired_def receive_def split: recv_result.splits)

section \<open>The service controller's part\<close>

lemma svc_current_message [simp]: "svc_current unsorted (pod_message m h) s = svc_current unsorted h s"
  by (simp add: svc_current_def ListPodHostIP_def pod_message_def)

lemma svc_triggered_spec:
  assumes "svc_triggered sapi (\<lambda>b. ListPodHostIP unsorted b h) c s e = (s', e')"
  shows "0 < ss_retries s' \<or> svc_current unsorted h s'"
  using assms
  by (auto simp: svc_triggered_def syncService_def svc_current_def Let_def
      split: sum.splits prod.splits bool.splits option.splits)

lemma svc_message_pending: "ss_stuck (svc_message s) \<or> buf (ss_trigger (svc_message s)) \<noteq> []"
  by (auto simp: svc_message_def chan_send_def)

section \<open>The invariant\<close>

lemma trigger_ok_new: "trigger_ok (make_chan 10)"
  by (simp add: trigger_ok_def make_chan_def)

lemma trigger_ok_send: "chan_send () c = Sent c' \<Longrightarrow> trigger_ok c \<Longrightarrow> trigger_ok c' \<and> length (buf c') = Suc (length (buf c))"
  by (auto simp: chan_send_def trigger_ok_def split: if_splits)

lemma trigger_ok_recv: "chan_recv c = Received () c' \<Longrightarrow> trigger_ok c \<Longrightarrow> trigger_ok c' \<and> length (buf c) = Suc (length (buf c'))"
  by (auto simp: chan_recv_def trigger_ok_def split: list.splits if_splits)

lemma pipeline_inv_start: "pipeline_start p \<Longrightarrow> pipeline_inv unsorted p"
  unfolding pipeline_inv_def
  by (auto simp: pipeline_start_def wired_start pod_copy.announced_def cm_follower.announced_def pod_ok_def
      cm_ok_def NewPod_def NewConfigMapSync_def NewEcsNode_def svc_current_def ListPodHostIP_def
      trigger_ok_new)

lemma inv_facts:
  assumes "pipeline_inv unsorted p"
  shows "wired (pl_bus p)" "gowf (hostips (pl_ecs p))" "pod_ok (pl_pod p)" "cm_ok (pl_cm p)"
    and "svc_pending p \<or> svc_current unsorted (pl_pod p) (pl_svc p)" and "trigger_ok (ecs_trigger (pl_ecs p))"
  using assms by (simp_all add: pipeline_inv_def pod_copy.announced_def cm_follower.announced_def)

text \<open>A step that only keeps or adds announcements keeps the invariant.\<close>

lemma pipeline_inv_frame:
  assumes inv: "pipeline_inv unsorted p" and "wired (pl_bus q)" and wf: "gowf (hostips (pl_ecs q))"
    and "map_of (hostips (pl_ecs q)) = map_of (hostips (pl_ecs p)) \<or> pl_sending q"
    and pod: "hostIPDict (pl_pod q) = hostIPDict (pl_pod p)"
    and cm: "cm_copy (pl_cm q) = cm_copy (pl_cm p)" "cm_stuck (pl_cm q) = cm_stuck (pl_cm p)"
    and way: "\<And>s. s = pod_sub \<or> s = cm_sub \<Longrightarrow> on_its_way s p \<Longrightarrow> on_its_way s q"
    and svc: "svc_pending q \<or> svc_current unsorted (pl_pod q) (pl_svc q)"
    and trig: "trigger_ok (ecs_trigger (pl_ecs q))"
  shows "pipeline_inv unsorted q"
proof -
  have same: "map_of (hostips (pl_ecs q)) = map_of (hostips (pl_ecs p)) \<or> on_its_way s q" for s
    using assms(4) by (auto simp: on_its_way_def)
  have "pod_copy.announced (hostips (pl_ecs q)) (on_its_way pod_sub q) (pl_pod p)"
    by (rule pod_copy.announced_change) (use inv wf same way in \<open>auto simp: pipeline_inv_def\<close>)
  then have 1: "pod_copy.announced (hostips (pl_ecs q)) (on_its_way pod_sub q) (pl_pod q)"
    by (simp add: pod_copy.announced_def pod_ok_def pod)
  have "cm_follower.announced (hostips (pl_ecs q)) (on_its_way cm_sub q) (pl_cm p)"
    by (rule cm_follower.announced_change) (use inv wf same way in \<open>auto simp: pipeline_inv_def\<close>)
  then have 2: "cm_follower.announced (hostips (pl_ecs q)) (on_its_way cm_sub q) (pl_cm q)"
    by (simp add: cm_follower.announced_def cm_ok_def cm)
  show ?thesis unfolding pipeline_inv_def using 1 2 assms(2) svc trig by blast
qed

lemma on_its_way_pod [simp]: "on_its_way s (p\<lparr>pl_pod := h\<rparr>) = on_its_way s p"
  by (simp add: on_its_way_def)

lemma on_its_way_cm [simp]: "on_its_way s (p\<lparr>pl_cm := c\<rparr>) = on_its_way s p"
  by (simp add: on_its_way_def)

lemma on_its_way_svc [simp]: "on_its_way s (p\<lparr>pl_svc := v\<rparr>) = on_its_way s p"
  by (simp add: on_its_way_def)

lemma way_receive: "sub_chan t \<noteq> sub_chan s \<Longrightarrow> on_its_way t (p\<lparr>pl_bus := receive s b\<rparr>) = on_its_way t (p\<lparr>pl_bus := b\<rparr>)"
  by (simp add: on_its_way_def receive_other)

lemma inv_ecs_step:
  assumes inv: "pipeline_inv unsorted p"
  shows "EcsNode_Reconcile listed got (pl_ecs p) = (r, pub, h) \<Longrightarrow> \<not> pl_sending p \<Longrightarrow>
      pipeline_inv unsorted (p\<lparr>pl_ecs := h, pl_sending := pub\<rparr>)"
    and "chan_send () (ecs_trigger (pl_ecs p)) = Sent c \<Longrightarrow>
      pipeline_inv unsorted (p\<lparr>pl_ecs := (pl_ecs p)\<lparr>ecs_trigger := c\<rparr>, pl_sending := False\<rparr>)"
    and "Publish EcsNodeTopic d (pl_bus p) = GoOk b \<Longrightarrow> chan_recv (ecs_trigger (pl_ecs p)) = Received () c \<Longrightarrow>
      pipeline_inv unsorted (p\<lparr>pl_ecs := (pl_ecs p)\<lparr>ecs_trigger := c\<rparr>, pl_bus := b\<rparr>)"
proof -
  note f = inv_facts [OF inv]
  show "pipeline_inv unsorted (p\<lparr>pl_ecs := h, pl_sending := pub\<rparr>)"
    if "EcsNode_Reconcile listed got (pl_ecs p) = (r, pub, h)" and "\<not> pl_sending p"
    by (rule pipeline_inv_frame [OF inv])
      (use f EcsNode_Reconcile_facts [OF that(1)] that(2) in \<open>auto simp: on_its_way_def svc_pending_def\<close>)
  show "pipeline_inv unsorted (p\<lparr>pl_ecs := (pl_ecs p)\<lparr>ecs_trigger := c\<rparr>, pl_sending := False\<rparr>)"
    if "chan_send () (ecs_trigger (pl_ecs p)) = Sent c"
  proof -
    have "buf c \<noteq> []" using that by (auto simp: chan_send_def split: if_splits)
    then show ?thesis
      by (intro pipeline_inv_frame [OF inv])
        (use f trigger_ok_send [OF that] in \<open>auto simp: on_its_way_def svc_pending_def\<close>)
  qed
  show "pipeline_inv unsorted (p\<lparr>pl_ecs := (pl_ecs p)\<lparr>ecs_trigger := c\<rparr>, pl_bus := b\<rparr>)"
    if pub: "Publish EcsNodeTopic d (pl_bus p) = GoOk b" and recv: "chan_recv (ecs_trigger (pl_ecs p)) = Received () c"
    by (rule pipeline_inv_frame [OF inv])
      (use f wired_Publish [OF f(1) pub] publish_ecs [OF f(1) pub] trigger_ok_recv [OF recv] in \<open>auto simp: on_its_way_def svc_pending_def\<close>)
qed

lemma inv_receive:
  assumes inv: "pipeline_inv unsorted p"
  shows "pipeline_inv unsorted
      (p\<lparr>pl_bus := receive pod_sub (pl_bus p), pl_pod := pod_message (hostips (pl_ecs p)) (pl_pod p)\<rparr>)"
    and "pipeline_inv unsorted
      (p\<lparr>pl_bus := receive cm_sub (pl_bus p), pl_cm := cm_message (hostips (pl_ecs p)) (pl_cm p)\<rparr>)"
    and "pipeline_inv unsorted (p\<lparr>pl_bus := receive svc_sub (pl_bus p), pl_svc := svc_message (pl_svc p)\<rparr>)"
proof -
  note f = inv_facts [OF inv] and w = wired_receive [OF inv_facts(1) [OF inv]]
  have ann: "pod_copy.announced (hostips (pl_ecs p)) (on_its_way pod_sub p) (pl_pod p)"
    "cm_follower.announced (hostips (pl_ecs p)) (on_its_way cm_sub p) (pl_cm p)"
    using inv by (simp_all add: pipeline_inv_def)
  show "pipeline_inv unsorted
      (p\<lparr>pl_bus := receive pod_sub (pl_bus p), pl_pod := pod_message (hostips (pl_ecs p)) (pl_pod p)\<rparr>)"
    using f w ann by (auto simp: pipeline_inv_def pod_copy.announced_taken way_receive svc_pending_def receive_other)
  show "pipeline_inv unsorted
      (p\<lparr>pl_bus := receive cm_sub (pl_bus p), pl_cm := cm_message (hostips (pl_ecs p)) (pl_cm p)\<rparr>)"
    using f w ann by (auto simp: pipeline_inv_def cm_follower.announced_taken way_receive svc_pending_def receive_other)
  show "pipeline_inv unsorted (p\<lparr>pl_bus := receive svc_sub (pl_bus p), pl_svc := svc_message (pl_svc p)\<rparr>)"
    using f w ann svc_message_pending [of "pl_svc p"]
    by (auto simp: pipeline_inv_def way_receive svc_pending_def)
qed

lemma inv_pod_step:
  assumes inv: "pipeline_inv unsorted p"
  shows "Pod_Reconcile listed n got (pl_pod p) = (r, pub, h) \<Longrightarrow> \<not> pl_podpub p \<Longrightarrow>
      pipeline_inv unsorted (p\<lparr>pl_pod := h, pl_podpub := pub\<rparr>)"
    and "Publish PodTopic d (pl_bus p) = GoOk b \<Longrightarrow> pipeline_inv unsorted (p\<lparr>pl_bus := b, pl_podpub := False\<rparr>)"
proof -
  note f = inv_facts [OF inv]
  show "pipeline_inv unsorted (p\<lparr>pl_pod := h, pl_podpub := pub\<rparr>)"
    if run: "Pod_Reconcile listed n got (pl_pod p) = (r, pub, h)" and "\<not> pl_podpub p"
  proof -
    have "pub \<or> h = pl_pod p" using Pod_Reconcile_keeps(3) [OF run] by blast
    then have "svc_pending (p\<lparr>pl_pod := h, pl_podpub := pub\<rparr>) \<or> svc_current unsorted h (pl_svc p)"
      using f(5) \<open>\<not> pl_podpub p\<close> by (auto simp: svc_pending_def)
    then show ?thesis
      by (intro pipeline_inv_frame [OF inv])
        (use f Pod_Reconcile_keeps(1) [OF run] in \<open>auto simp: on_its_way_def\<close>)
  qed
  show "pipeline_inv unsorted (p\<lparr>pl_bus := b, pl_podpub := False\<rparr>)" if "Publish PodTopic d (pl_bus p) = GoOk b"
    by (rule pipeline_inv_frame [OF inv])
      (use f wired_Publish [OF f(1) that] publish_pod [OF f(1) that] in \<open>auto simp: on_its_way_def svc_pending_def\<close>)
qed

text \<open>Steps that change nothing but the service controller and the world.\<close>

lemma inv_svc_step:
  assumes "pipeline_inv unsorted p" and "svc_pending (p\<lparr>pl_svc := s\<rparr>) \<or> svc_current unsorted (pl_pod p) s"
  shows "pipeline_inv unsorted (p\<lparr>pl_svc := s, pl_world := e\<rparr>)"
  by (rule pipeline_inv_frame [OF assms(1)])
    (use inv_facts [OF assms(1)] assms(2) in \<open>auto simp: on_its_way_def svc_pending_def\<close>)

lemma pipeline_inv_step:
  assumes inv: "pipeline_inv unsorted p" and step: "pipeline_step unsorted api sapi p q"
  shows "pipeline_inv unsorted q"
  using step
proof cases
  case (svc_work c s e)
  have "0 < ss_retries s \<or> svc_current unsorted (pl_pod p) s" by (rule svc_triggered_spec [OF svc_work(4)])
  then show ?thesis unfolding svc_work(1) by (intro inv_svc_step [OF inv]) (auto simp: svc_pending_def)
next
  case (svc_request gs ge c)
  then have "buf c \<noteq> []" by (auto simp: chan_send_def split: if_splits)
  then show ?thesis unfolding svc_request(1)
    using inv_svc_step [OF inv, of "(pl_svc p)\<lparr>ss_trigger := c\<rparr>" "pl_world p"] by (simp add: svc_pending_def)
next
  case (svc_retry c)
  then have "buf c \<noteq> []" by (auto simp: chan_send_def split: if_splits)
  then show ?thesis unfolding svc_retry(1)
    using inv_svc_step [OF inv, of "(pl_svc p)\<lparr>ss_trigger := c, ss_retries := ss_retries (pl_svc p) - 1\<rparr>" "pl_world p"]
    by (simp add: svc_pending_def)
next
  case (cm_other s e)
  show ?thesis unfolding cm_other(1)
    by (rule pipeline_inv_frame [OF inv])
      (use inv_facts [OF inv] cm_other in \<open>auto simp: on_its_way_def svc_pending_def\<close>)
qed (use inv_ecs_step [OF inv] inv_receive [OF inv] inv_pod_step [OF inv] in auto)

interpretation pipeline: invariant_system pipeline_start "pipeline_step unsorted api sapi" "pipeline_inv unsorted"
  for unsorted api sapi
  by unfold_locales (auto intro: pipeline_inv_start pipeline_inv_step)

end
