(* ===== verification/Host_Delivery.thy ===== *)
theory Host_Delivery
  imports Host_Pipeline
begin

text \<open>
  Progress of the pipeline: the steps that only move announcements on (the deferred send of the
  ECSNode controller, the publication by its goroutine, the receptions of the two followers) end
  after a bounded number of steps, and end only when everything has been delivered. No new input
  arrives meanwhile.
\<close>

inductive delivery_step :: "'w pipeline \<Rightarrow> 'w pipeline \<Rightarrow> bool" where
  deliver_send: "pl_sending p \<Longrightarrow> chan_send () (ecs_trigger (pl_ecs p)) = Sent c \<Longrightarrow>
    delivery_step p (p\<lparr>pl_ecs := (pl_ecs p)\<lparr>ecs_trigger := c\<rparr>, pl_sending := False\<rparr>)"
| deliver_publish: "chan_recv (ecs_trigger (pl_ecs p)) = Received () c \<Longrightarrow>
    Publish EcsNodeTopic HostIPs (pl_bus p) = GoOk b \<Longrightarrow>
    delivery_step p (p\<lparr>pl_ecs := (pl_ecs p)\<lparr>ecs_trigger := c\<rparr>, pl_bus := b\<rparr>)"
| deliver_pod: "GetMessage pod_sub (pl_bus p) = Received m c \<Longrightarrow>
    delivery_step p
      (p\<lparr>pl_bus := receive pod_sub (pl_bus p), pl_pod := pod_message (hostips (pl_ecs p)) (pl_pod p)\<rparr>)"
| deliver_cm: "\<not> cm_stuck (pl_cm p) \<Longrightarrow> GetMessage cm_sub (pl_bus p) = Received m c \<Longrightarrow>
    delivery_step p
      (p\<lparr>pl_bus := receive cm_sub (pl_bus p), pl_cm := cm_message (hostips (pl_ecs p)) (pl_cm p)\<rparr>)"

lemma delivery_is_step: "delivery_step p q \<Longrightarrow> pipeline_step unsorted api sapi p q"
  by (cases rule: delivery_step.cases) (auto intro: pipeline_step.intros)

lemma delivery_reach:
  "(delivery_step ^^ n) p q \<Longrightarrow> reach pipeline_start (pipeline_step unsorted api sapi) p \<Longrightarrow>
     reach pipeline_start (pipeline_step unsorted api sapi) q"
proof (induction n arbitrary: q)
  case (Suc n)
  then show ?case by (auto intro: reach_step delivery_is_step)
qed simp

lemma delivery_keeps_hosts: "(delivery_step ^^ n) p q \<Longrightarrow> hostips (pl_ecs q) = hostips (pl_ecs p)"
proof (induction n arbitrary: q)
  case (Suc n)
  then obtain r where "(delivery_step ^^ n) p r" and "delivery_step r q" by auto
  then show ?case using Suc.IH [of r] by (auto elim!: delivery_step.cases)
qed simp

text \<open>What is still to be moved.\<close>

definition work_left :: "'w pipeline \<Rightarrow> nat" where
  "work_left p = (if pl_sending p then 4 else 0) + 3 * length (buf (ecs_trigger (pl_ecs p))) +
     length (backlog 0 (pl_bus p)) + length (backlog 2 (pl_bus p))"

lemma backlog_length: "length (backlog a b) = length (buf (chans b ! a))"
  by (simp add: backlog_def)

lemma publish_grows:
  assumes "wired b" and "Publish EcsNodeTopic d b = GoOk b'"
  shows "length (backlog 0 b') \<le> Suc (length (backlog 0 b))" and "length (backlog 2 b') \<le> Suc (length (backlog 2 b))"
proof -
  have b': "publish_step EcsNodeTopic d b = b'" using assms(2) by (simp add: publish_step_def)
  have "subscribed EcsNodeTopic ''pod'' 0 b" "subscribed EcsNodeTopic ''configmap'' 2 b"
    using assms(1) by (simp_all add: wired_def subscribed_def pod_sub_def cm_sub_def)
  note g = this [THEN publish_step_subscribed(2), unfolded b']
  show "length (backlog 0 b') \<le> Suc (length (backlog 0 b))" and "length (backlog 2 b') \<le> Suc (length (backlog 2 b))"
    using g(1) [of d] g(2) [of d] b' by simp_all
qed

lemma receive_shrinks:
  assumes "GetMessage s b = Received m c" and "sub_chan s < length (chans b)"
  shows "length (backlog (sub_chan s) b) = Suc (length (backlog (sub_chan s) (receive s b)))"
  using assms by (auto simp: receive_def GetMessage_def chan_recv_def backlog_def split: list.splits if_splits)

lemma wired_chans: "wired b \<Longrightarrow> 0 < length (chans b) \<and> 2 < length (chans b) \<and>
    length (backlog 0 b) \<le> 10 \<and> length (backlog 2 b) \<le> 10"
  unfolding wired_def bus_inv_def open_box_def backlog_length by (metis sub_chans(1,2))

lemma delivery_decreases:
  assumes inv: "pipeline_inv unsorted p" and step: "delivery_step p q"
  shows "work_left q < work_left p"
  using step
proof cases
  case (deliver_send c)
  then show ?thesis using trigger_ok_send [OF deliver_send(3) inv_facts(6) [OF inv]] by (simp add: work_left_def)
next
  case (deliver_publish c b)
  note g = publish_grows [OF inv_facts(1) [OF inv] deliver_publish(3)]
  show ?thesis unfolding deliver_publish(1)
    using trigger_ok_recv [OF deliver_publish(2) inv_facts(6) [OF inv]] g by (simp add: work_left_def)
next
  case (deliver_pod m c)
  have "length (backlog 0 (pl_bus p)) = Suc (length (backlog 0 (receive pod_sub (pl_bus p))))"
    using receive_shrinks [OF deliver_pod(2)] wired_chans [OF inv_facts(1) [OF inv]] by simp
  then show ?thesis unfolding deliver_pod(1) by (simp add: work_left_def receive_other)
next
  case (deliver_cm m c)
  have "length (backlog 2 (pl_bus p)) = Suc (length (backlog 2 (receive cm_sub (pl_bus p))))"
    using receive_shrinks [OF deliver_cm(3)] wired_chans [OF inv_facts(1) [OF inv]] by simp
  then show ?thesis unfolding deliver_cm(1) by (simp add: work_left_def receive_other)
qed

lemma work_bounded: "pipeline_inv unsorted p \<Longrightarrow> work_left p \<le> 54"
  using wired_chans [of "pl_bus p"] inv_facts(1,6) [of unsorted p] by (simp add: work_left_def trigger_ok_def)

lemma delivery_length:
  assumes "pipeline_inv unsorted p" and "(delivery_step ^^ n) p q"
  shows "n + work_left q \<le> work_left p \<and> pipeline_inv unsorted q"
  using assms(2)
proof (induction n arbitrary: q)
  case 0
  then show ?case using assms(1) by simp
next
  case (Suc n)
  then obtain r where r: "(delivery_step ^^ n) p r" and s: "delivery_step r q" by auto
  note ih = Suc.IH [OF r]
  have "pipeline_inv unsorted q"
    using pipeline_inv_step delivery_is_step [OF s] ih by blast
  then show ?case using ih delivery_decreases [of unsorted r q] s by simp
qed

text \<open>Quiet followers are up to date.\<close>

lemma pod_current:
  assumes "pipeline_inv unsorted p" and "\<not> on_its_way pod_sub p"
  shows "map_of (hostIPDict (pl_pod p)) = map_of (hostips (pl_ecs p))"
proof -
  have "pod_copy.announced (hostips (pl_ecs p)) (on_its_way pod_sub p) (pl_pod p)"
    using assms(1) by (simp add: pipeline_inv_def)
  then show ?thesis using assms(2) pod_copy.announced_quiet by simp
qed

lemma cm_current:
  assumes "pipeline_inv unsorted p" and "\<not> on_its_way cm_sub p" and "\<not> cm_stuck (pl_cm p)"
  shows "map_of (cm_copy (pl_cm p)) = map_of (hostips (pl_ecs p))"
proof -
  have "cm_follower.announced (hostips (pl_ecs p)) (on_its_way cm_sub p) (pl_cm p)"
    using assms(1) by (simp add: pipeline_inv_def)
  then show ?thesis using assms(2,3) cm_follower.announced_quiet by simp
qed

lemma quiet_pod:
  assumes "pipeline_inv unsorted p" and "\<not> pl_sending p" and "buf (ecs_trigger (pl_ecs p)) = []"
    and "backlog 0 (pl_bus p) = []"
  shows "map_of (hostIPDict (pl_pod p)) = map_of (hostips (pl_ecs p))"
  by (rule pod_current [OF assms(1)]) (use assms(2-4) in \<open>simp add: on_its_way_def\<close>)

lemma quiet_cm:
  assumes "pipeline_inv unsorted p" and "\<not> pl_sending p" and "buf (ecs_trigger (pl_ecs p)) = []"
    and "backlog 2 (pl_bus p) = []" and "\<not> cm_stuck (pl_cm p)"
  shows "map_of (cm_copy (pl_cm p)) = map_of (hostips (pl_ecs p))"
  by (rule cm_current [OF assms(1) _ assms(5)]) (use assms(2-4) in \<open>simp add: on_its_way_def\<close>)

text \<open>When no delivery is possible, nothing is on its way to a follower that still reads.\<close>

lemma stuck_quiet:
  assumes inv: "pipeline_inv unsorted p" and none: "\<nexists>q. delivery_step p q"
  shows "\<not> pl_sending p" and "buf (ecs_trigger (pl_ecs p)) = []" and "backlog 0 (pl_bus p) = []"
    and "\<not> cm_stuck (pl_cm p) \<Longrightarrow> backlog 2 (pl_bus p) = []"
proof -
  note f = inv_facts [OF inv]
  obtain b where b: "Publish EcsNodeTopic HostIPs (pl_bus p) = GoOk b"
    using Publish_spec [OF wired_inv [OF f(1)]] by metis
  show empty: "buf (ecs_trigger (pl_ecs p)) = []"
  proof (rule ccontr)
    assume "buf (ecs_trigger (pl_ecs p)) \<noteq> []"
    then obtain c where "chan_recv (ecs_trigger (pl_ecs p)) = Received () c"
      by (auto simp: chan_recv_def neq_Nil_conv)
    with deliver_publish [OF _ b] none show False by blast
  qed
  show "\<not> pl_sending p"
  proof
    assume "pl_sending p"
    moreover obtain c where "chan_send () (ecs_trigger (pl_ecs p)) = Sent c"
      using f(6) empty by (simp add: chan_send_def trigger_ok_def)
    ultimately show False using deliver_send none by blast
  qed
  show "backlog 0 (pl_bus p) = []"
  proof (rule ccontr)
    assume "backlog 0 (pl_bus p) \<noteq> []"
    then obtain m c where "GetMessage pod_sub (pl_bus p) = Received m c"
      by (auto simp: GetMessage_def chan_recv_def backlog_def neq_Nil_conv)
    with deliver_pod none show False by blast
  qed
  show "backlog 2 (pl_bus p) = []" if "\<not> cm_stuck (pl_cm p)"
  proof (rule ccontr)
    assume "backlog 2 (pl_bus p) \<noteq> []"
    then obtain m c where "GetMessage cm_sub (pl_bus p) = Received m c"
      by (auto simp: GetMessage_def chan_recv_def backlog_def neq_Nil_conv)
    with deliver_cm that none show False by blast
  qed
qed

end
