(* ===== verification/Ecsnode_Main.thy ===== *)
theory Ecsnode_Main
  imports Host_Delivery Node_Ctrl Secret_Sync
begin

text \<open>
  \<open>cmd/ecsnode/config.go\<close> and \<open>setupControllers\<close> of \<open>cmd/ecsnode/main.go\<close>: the configuration of
  the controllers, its defaults, and which controllers are created, in which order. Reading the
  file and the YAML parser are parameters; so are \<open>mgr.Add\<close> and the creation of the clientset.
\<close>

record ecsnode_config =
  cfg_Cert :: CertConfig
  cfg_Configmap :: ConfigMapConfig
  cfg_PodConfig :: PodConfig
  cfg_EcsNode :: EcsNodeConfig
  cfg_ServiceConfig :: ServiceConfig
  cfg_Node :: NodeConfig

datatype config_error =
  FileNotRead | YamlInvalid | ConfigNil | CertInvalid cert_cfg_error | ConfigmapInvalid | ServiceInvalid
| EcsNodeInvalid ecs_cfg_error | PodInvalid | NodeInvalid node_cfg_error

text \<open>\<open>yaml\<close> yields an error (\<open>None\<close>) or the pointer it has set, which a null document makes nil.\<close>

definition LoadFromYaml ::
    "(string \<Rightarrow> string option) \<Rightarrow> (string \<Rightarrow> ecsnode_config option option) \<Rightarrow> string
      \<Rightarrow> config_error + ecsnode_config option" where
  "LoadFromYaml readFile yaml fp =
     (case readFile fp of
        None \<Rightarrow> Inl FileNotRead
      | Some bytes \<Rightarrow> (case yaml bytes of None \<Rightarrow> Inl YamlInvalid | Some cfg \<Rightarrow> Inr cfg))"

section \<open>Defaults\<close>

definition default_ns :: "string \<Rightarrow> string \<Rightarrow> string" where
  "default_ns self ns = (if ns = [] then self else ns)"

text \<open>The five parts of \<open>ApplyDefault\<close>, in its order.\<close>

definition default_cert :: "string \<Rightarrow> CertConfig \<Rightarrow> config_error + CertConfig" where
  "default_cert self c =
     (if \<not> Enabled c then Inr c
      else
        (let c1 = c\<lparr>CASecretNamespace := default_ns self (CASecretNamespace c)\<rparr>;
             found = (self \<in> set (ClientSecretNamespaces c1));
             c2 = (if \<not> found then c1\<lparr>ClientSecretNamespaces := ClientSecretNamespaces c1 @ [self]\<rparr> else c1)
         in case CertConfig_Valid c2 of Inl e \<Rightarrow> Inl (CertInvalid e) | Inr c3 \<Rightarrow> Inr c3))"

definition default_configmap :: "string \<Rightarrow> ConfigMapConfig \<Rightarrow> config_error + ConfigMapConfig" where
  "default_configmap self c =
     (if cc_Name c \<noteq> [] then
        (let c1 = c\<lparr>cc_Namespace := default_ns self (cc_Namespace c)\<rparr>
         in if ConfigMapConfig_Valid c1 \<noteq> None then Inl ConfigmapInvalid else Inr c1)
      else Inr c)"

definition default_service :: "string \<Rightarrow> ServiceConfig \<Rightarrow> config_error + ServiceConfig" where
  "default_service self c =
     (if sc_Name c \<noteq> [] then
        (let c1 = c\<lparr>sc_Namespace := default_ns self (sc_Namespace c)\<rparr>
         in if ServiceConfig_Valid c1 \<noteq> None then Inl ServiceInvalid else Inr c1)
      else Inr c)"

definition default_hosts :: "string \<Rightarrow> PodConfig \<Rightarrow> EcsNodeConfig \<Rightarrow> config_error + PodConfig \<times> EcsNodeConfig" where
  "default_hosts self pc ec =
     (let pc1 = pc\<lparr>pc_Namespace := default_ns self (pc_Namespace pc)\<rparr>;
          ec1 = ec\<lparr>en_Namespace := default_ns self (en_Namespace ec)\<rparr>
      in case EcsNodeConfig_Valid ec1 of
           Some e \<Rightarrow> Inl (EcsNodeInvalid e)
         | None \<Rightarrow> (if PodConfig_Valid pc1 \<noteq> None then Inl PodInvalid else Inr (pc1, ec1)))"

definition default_node :: "string \<Rightarrow> NodeConfig \<Rightarrow> config_error + NodeConfig" where
  "default_node self c =
     (if StatefulSetName c \<noteq> [] then
        (let c1 = NodeConfig_SetDefaults c;
             c2 = c1\<lparr>StatefulSetNamespace := default_ns self (StatefulSetNamespace c1)\<rparr>
         in case NodeConfig_Valid c2 of Some e \<Rightarrow> Inl (NodeInvalid e) | None \<Rightarrow> Inr c2)
      else Inr c)"

definition ApplyDefault :: "ecsnode_config option \<Rightarrow> string \<Rightarrow> config_error + ecsnode_config" where
  "ApplyDefault newcfg self =
     (case newcfg of
        None \<Rightarrow> Inl ConfigNil
      | Some c \<Rightarrow>
          (case default_cert self (cfg_Cert c) of
             Inl e \<Rightarrow> Inl e
           | Inr cert \<Rightarrow>
               (case default_configmap self (cfg_Configmap c) of
                  Inl e \<Rightarrow> Inl e
                | Inr cm \<Rightarrow>
                    (case default_service self (cfg_ServiceConfig c) of
                       Inl e \<Rightarrow> Inl e
                     | Inr svc \<Rightarrow>
                         (case default_hosts self (cfg_PodConfig c) (cfg_EcsNode c) of
                            Inl e \<Rightarrow> Inl e
                          | Inr (pc, ec) \<Rightarrow>
                              (case default_node self (cfg_Node c) of
                                 Inl e \<Rightarrow> Inl e
                               | Inr nd \<Rightarrow>
                                   Inr \<lparr>cfg_Cert = cert, cfg_Configmap = cm, cfg_PodConfig = pc, cfg_EcsNode = ec,
                                     cfg_ServiceConfig = svc, cfg_Node = nd\<rparr>))))))"

section \<open>Controllers\<close>

datatype ctrl_kind = EcsKind | PodKind | ServiceKind | ConfigMapKind | SecretKind | NodeKind
datatype setup_error = NotAdded ctrl_kind | ClientsetFailed

record 'k controllers =
  ct_ecs :: EcsNode
  ct_pod :: PodCtrl
  ct_svc :: "ServiceSync option"
  ct_cm :: "ConfigMapSync option"
  ct_secret :: "'k SecretSync option"
  ct_node :: "NodeCtrl option"
  ct_bus :: "payload pubsub"

text \<open>A constructor's subscription; a failure ends the process.\<close>

definition ctor_subscribe :: "string \<Rightarrow> string \<Rightarrow> payload pubsub \<Rightarrow> (setup_error, payload pubsub) gores" where
  "ctor_subscribe t i b = (case Subscribe t i b of (GoOk s, b') \<Rightarrow> GoOk b' | (_, b') \<Rightarrow> GoPanic)"

definition mgr_add :: "(ctrl_kind \<Rightarrow> bool) \<Rightarrow> ctrl_kind \<Rightarrow> 'a \<Rightarrow> (setup_error, 'a) gores" where
  "mgr_add added k x = (if added k then GoOk x else GoErr (NotAdded k))"

definition setup_service ::
    "(ctrl_kind \<Rightarrow> bool) \<Rightarrow> ServiceConfig \<Rightarrow> payload pubsub \<Rightarrow> (setup_error, ServiceSync option \<times> payload pubsub) gores" where
  "setup_service added c b =
     (if sc_Name c \<noteq> [] then
        gores_bind (ctor_subscribe PodTopic ''service'' b) (\<lambda>b'. mgr_add added ServiceKind (Some (NewServiceSync c), b'))
      else GoOk (None, b))"

definition setup_configmap ::
    "(ctrl_kind \<Rightarrow> bool) \<Rightarrow> ConfigMapConfig \<Rightarrow> payload pubsub \<Rightarrow> (setup_error, ConfigMapSync option \<times> payload pubsub) gores" where
  "setup_configmap added c b =
     (if cc_Name c \<noteq> [] then
        gores_bind (ctor_subscribe EcsNodeTopic ''configmap'' b)
          (\<lambda>b'. mgr_add added ConfigMapKind (Some (NewConfigMapSync c), b'))
      else GoOk (None, b))"

definition setup_secret ::
    "(ctrl_kind \<Rightarrow> bool) \<Rightarrow> CertConfig \<Rightarrow> string \<Rightarrow> (setup_error, 'k SecretSync option) gores" where
  "setup_secret added c self =
     (if Enabled c then
        (case NewSecretSync c self of None \<Rightarrow> GoOk None | Some s \<Rightarrow> mgr_add added SecretKind (Some s))
      else GoOk None)"

definition setup_node :: "(ctrl_kind \<Rightarrow> bool) \<Rightarrow> NodeConfig \<Rightarrow> (setup_error, NodeCtrl option) gores" where
  "setup_node added c = (if StatefulSetName c \<noteq> [] then mgr_add added NodeKind (Some (NewNodeCtrl c)) else GoOk None)"

text \<open>The rest of the set-up, after the controllers that subscribe.\<close>

definition setup_optional ::
    "(ctrl_kind \<Rightarrow> bool) \<Rightarrow> bool \<Rightarrow> ecsnode_config \<Rightarrow> string \<Rightarrow> EcsNode \<Rightarrow> PodCtrl \<Rightarrow> ServiceSync option
      \<Rightarrow> ConfigMapSync option \<Rightarrow> payload pubsub \<Rightarrow> (setup_error, 'k controllers) gores" where
  "setup_optional added clientsetOk cfg self ecs po svc cm b =
     (let needsClientset = (Enabled (cfg_Cert cfg) \<or> StatefulSetName (cfg_Node cfg) \<noteq> []) in
      if needsClientset \<and> \<not> clientsetOk then GoErr ClientsetFailed
      else
        gores_bind (setup_secret added (cfg_Cert cfg) self) (\<lambda>sec.
        gores_bind (setup_node added (cfg_Node cfg)) (\<lambda>nd.
          GoOk \<lparr>ct_ecs = ecs, ct_pod = po, ct_svc = svc, ct_cm = cm, ct_secret = sec, ct_node = nd, ct_bus = b\<rparr>)))"

definition setupControllers ::
    "(ctrl_kind \<Rightarrow> bool) \<Rightarrow> bool \<Rightarrow> ecsnode_config \<Rightarrow> string \<Rightarrow> (setup_error, 'k controllers) gores" where
  "setupControllers added clientsetOk cfg self =
     gores_bind (ctor_subscribe EcsNodeTopic ''pod'' NewPubSub) (\<lambda>b0.
     gores_bind (mgr_add added EcsKind (NewEcsNode (cfg_EcsNode cfg))) (\<lambda>ecs.
     gores_bind (mgr_add added PodKind (NewPod (cfg_PodConfig cfg))) (\<lambda>po.
     gores_bind (setup_service added (cfg_ServiceConfig cfg) b0) (\<lambda>(svc, b1).
     gores_bind (setup_configmap added (cfg_Configmap cfg) b1) (\<lambda>(cm, b2).
       setup_optional added clientsetOk cfg self ecs po svc cm b2)))))"

section \<open>Lemmas\<close>

lemma default_ns_idem [simp]: "default_ns self (default_ns self ns) = default_ns self ns"
  by (simp add: default_ns_def)

lemma default_ns_nonempty: "self \<noteq> [] \<Longrightarrow> default_ns self ns \<noteq> []"
  by (simp add: default_ns_def)

text \<open>Each part is idempotent.\<close>

lemma CertConfig_Valid_enabled:
  assumes "Enabled c"
  shows "CertConfig_Valid c = Inr c' \<longleftrightarrow>
    CASecretName c \<noteq> [] \<and> ClientSecretName c \<noteq> [] \<and> ClientSecretNamespaces c \<noteq> [] \<and>
    c' = c\<lparr>ValidityYears := (if ValidityYears c \<le> 0 then 100 else ValidityYears c),
           Organization := (if Organization c = [] then ''etcdauto'' else Organization c),
           CommonName := (if CommonName c = [] then ''etcdauto-ca'' else CommonName c),
           clientSecretNamespaceSet := set (ClientSecretNamespaces c)\<rparr>"
  using assms by (simp add: CertConfig_Valid_def eq_commute [of c'] del: if_split)

text \<open>A configuration whose certificate part is complete.\<close>

definition cert_complete :: "string \<Rightarrow> CertConfig \<Rightarrow> bool" where
  "cert_complete self c \<longleftrightarrow> CASecretName c \<noteq> [] \<and> ClientSecretName c \<noteq> [] \<and>
     (CASecretNamespace c \<noteq> [] \<or> self = []) \<and> self \<in> set (ClientSecretNamespaces c) \<and>
     clientSecretNamespaceSet c = set (ClientSecretNamespaces c) \<and>
     0 < ValidityYears c \<and> Organization c \<noteq> [] \<and> CommonName c \<noteq> []"

lemma default_cert_complete:
  assumes "Enabled c" and "default_cert self c = Inr c'"
  shows "Enabled c' \<and> cert_complete self c' \<and>
    set (ClientSecretNamespaces c') = insert self (set (ClientSecretNamespaces c))"
proof -
  define c2 where "c2 = c\<lparr>CASecretNamespace := default_ns self (CASecretNamespace c),
    ClientSecretNamespaces := (if self \<in> set (ClientSecretNamespaces c) then ClientSecretNamespaces c
      else ClientSecretNamespaces c @ [self])\<rparr>"
  have "default_cert self c = (case CertConfig_Valid c2 of Inl e \<Rightarrow> Inl (CertInvalid e) | Inr c3 \<Rightarrow> Inr c3)"
    using assms(1) by (simp add: default_cert_def c2_def Let_def)
  then have v: "CertConfig_Valid c2 = Inr c'" using assms(2) by (simp split: sum.splits)
  have "Enabled c2" using assms(1) by (simp add: c2_def)
  note v [unfolded CertConfig_Valid_enabled [OF this]]
  moreover have "set (ClientSecretNamespaces c2) = insert self (set (ClientSecretNamespaces c))"
    "CASecretNamespace c2 \<noteq> [] \<or> self = []" by (auto simp: c2_def default_ns_def)
  ultimately show ?thesis using \<open>Enabled c2\<close> by (simp add: cert_complete_def)
qed

lemma default_cert_fix:
  assumes "Enabled c" and "cert_complete self c"
  shows "default_cert self c = Inr c"
proof -
  have "c\<lparr>CASecretNamespace := default_ns self (CASecretNamespace c)\<rparr> = c"
    using assms(2) by (cases c) (auto simp: cert_complete_def default_ns_def)
  moreover have "CertConfig_Valid c = Inr c"
    using assms by (cases c) (auto simp: CertConfig_Valid_enabled cert_complete_def)
  ultimately show ?thesis using assms by (simp add: default_cert_def cert_complete_def)
qed

lemma default_cert_disabled: "\<not> Enabled c \<Longrightarrow> default_cert self c = Inr c"
  by (simp add: default_cert_def)

lemma default_configmap_spec:
  "default_configmap self c = Inr c' \<Longrightarrow>
     default_configmap self c' = Inr c' \<and> cc_Name c' = cc_Name c \<and> (cc_Name c \<noteq> [] \<longrightarrow> ConfigMapConfig_Valid c' = None)"
  by (auto simp: default_configmap_def ConfigMapConfig_Valid_def Let_def split: if_splits)

lemma default_service_spec:
  "default_service self c = Inr c' \<Longrightarrow>
     default_service self c' = Inr c' \<and> sc_Name c' = sc_Name c \<and> (sc_Name c \<noteq> [] \<longrightarrow> ServiceConfig_Valid c' = None)"
  by (auto simp: default_service_def Let_def split: if_splits)

lemma default_hosts_spec:
  "default_hosts self pc ec = Inr (pc', ec') \<Longrightarrow>
     default_hosts self pc' ec' = Inr (pc', ec') \<and> PodConfig_Valid pc' = None \<and> EcsNodeConfig_Valid ec' = None"
  by (auto simp: default_hosts_def PodConfig_Valid_def Let_def split: if_splits option.splits)

lemma SetDefaults_idem: "NodeConfig_SetDefaults (NodeConfig_SetDefaults c) = NodeConfig_SetDefaults c"
  by (simp add: NodeConfig_SetDefaults_def Let_def)

lemma SetDefaults_fields [simp]:
  "StatefulSetName (NodeConfig_SetDefaults c) = StatefulSetName c"
  "NodeConfig_SetDefaults (c\<lparr>StatefulSetNamespace := n\<rparr>) = (NodeConfig_SetDefaults c)\<lparr>StatefulSetNamespace := n\<rparr>"
  by (simp_all add: NodeConfig_SetDefaults_def Let_def)

lemma default_node_spec:
  "default_node self c = Inr c' \<Longrightarrow>
     default_node self c' = Inr c' \<and> StatefulSetName c' = StatefulSetName c \<and>
     (StatefulSetName c \<noteq> [] \<longrightarrow> NodeConfig_Valid c' = None)"
  by (auto simp: default_node_def Let_def SetDefaults_idem split: if_splits option.splits)

lemma ApplyDefault_cases:
  assumes "ApplyDefault (Some c) self = Inr c'"
  shows "default_cert self (cfg_Cert c) = Inr (cfg_Cert c')"
    and "default_configmap self (cfg_Configmap c) = Inr (cfg_Configmap c')"
    and "default_service self (cfg_ServiceConfig c) = Inr (cfg_ServiceConfig c')"
    and "default_hosts self (cfg_PodConfig c) (cfg_EcsNode c) = Inr (cfg_PodConfig c', cfg_EcsNode c')"
    and "default_node self (cfg_Node c) = Inr (cfg_Node c')"
  using assms by (auto simp: ApplyDefault_def split: sum.splits prod.splits)

lemma default_cert_idem:
  assumes "default_cert self c = Inr c'"
  shows "default_cert self c' = Inr c'" and "Enabled c' \<Longrightarrow> cert_complete self c'"
proof -
  show "default_cert self c' = Inr c'"
    using assms default_cert_complete [of c self c'] default_cert_fix [of c' self] default_cert_disabled
    by (cases "Enabled c") auto
  show "cert_complete self c'" if "Enabled c'"
    using assms that default_cert_complete [of c self c'] default_cert_disabled [of c self]
    by (cases "Enabled c") auto
qed

text \<open>The subscriptions never clash, whichever of the optional controllers are configured.\<close>

lemma first_subscription: "ctor_subscribe EcsNodeTopic ''pod'' NewPubSub = GoOk (snd (Subscribe EcsNodeTopic ''pod'' NewPubSub))"
  by (simp add: ctor_subscribe_def Subscribe_def NewPubSub_def topic_subs_def Let_def)

lemma second_subscription:
  "ctor_subscribe PodTopic ''service'' (snd (Subscribe EcsNodeTopic ''pod'' NewPubSub)) =
     GoOk (snd (Subscribe PodTopic ''service'' (snd (Subscribe EcsNodeTopic ''pod'' NewPubSub))))"
  by (simp add: ctor_subscribe_def Subscribe_def NewPubSub_def topic_subs_def Let_def)

lemma third_subscription:
  "b = snd (Subscribe EcsNodeTopic ''pod'' NewPubSub) \<or>
   b = snd (Subscribe PodTopic ''service'' (snd (Subscribe EcsNodeTopic ''pod'' NewPubSub))) \<Longrightarrow>
     ctor_subscribe EcsNodeTopic ''configmap'' b = GoOk (snd (Subscribe EcsNodeTopic ''configmap'' b))"
  by (auto simp: ctor_subscribe_def Subscribe_def NewPubSub_def topic_subs_def Let_def)

lemma gores_bind_not_panic:
  "m \<noteq> GoPanic \<Longrightarrow> (\<And>a. m = GoOk a \<Longrightarrow> f a \<noteq> GoPanic) \<Longrightarrow> gores_bind m f \<noteq> GoPanic"
  by (cases m) auto

lemma gores_bind_OkD: "gores_bind m f = GoOk b \<Longrightarrow> \<exists>a. m = GoOk a \<and> f a = GoOk b"
  by (cases m) auto

lemma mgr_add_simps [simp]: "mgr_add added k x \<noteq> GoPanic" "mgr_add added k x = GoOk y \<longleftrightarrow> added k \<and> y = x"
  by (auto simp: mgr_add_def)

lemma setup_service_ok:
  assumes "setup_service added c (snd (Subscribe EcsNodeTopic ''pod'' NewPubSub)) = r"
  shows "r \<noteq> GoPanic"
    and "r = GoOk (svc, b) \<Longrightarrow> (sc_Name c = [] \<and> svc = None \<and> b = snd (Subscribe EcsNodeTopic ''pod'' NewPubSub)) \<or>
      (sc_Name c \<noteq> [] \<and> svc = Some (NewServiceSync c) \<and>
       b = snd (Subscribe PodTopic ''service'' (snd (Subscribe EcsNodeTopic ''pod'' NewPubSub))))"
  using assms by (auto simp: setup_service_def second_subscription split: if_splits)

lemma setup_configmap_ok:
  assumes "setup_configmap added c b = r"
    and "b = snd (Subscribe EcsNodeTopic ''pod'' NewPubSub) \<or>
      b = snd (Subscribe PodTopic ''service'' (snd (Subscribe EcsNodeTopic ''pod'' NewPubSub)))"
  shows "r \<noteq> GoPanic"
    and "r = GoOk (cm, b') \<Longrightarrow> cc_Name c \<noteq> [] \<Longrightarrow>
      cm = Some (NewConfigMapSync c) \<and> b' = snd (Subscribe EcsNodeTopic ''configmap'' b)"
  using assms by (auto simp: setup_configmap_def third_subscription [OF assms(2)] split: if_splits)

lemma setup_rest_not_panic: "setup_secret added c self \<noteq> GoPanic" "setup_node added nc \<noteq> GoPanic"
  by (simp_all add: setup_secret_def setup_node_def NewSecretSync_def)

lemma setup_optional_spec:
  fixes cs :: "'k controllers"
  shows "(setup_optional added ok cfg self ecs po svc cm b :: (setup_error, 'k controllers) gores) \<noteq> GoPanic"
    and "setup_optional added ok cfg self ecs po svc cm b = GoOk cs \<Longrightarrow>
     ct_ecs cs = ecs \<and> ct_pod cs = po \<and> ct_svc cs = svc \<and> ct_cm cs = cm \<and> ct_bus cs = b"
proof -
  define s :: "(setup_error, 'k SecretSync option) gores" where "s = setup_secret added (cfg_Cert cfg) self"
  define n where "n = setup_node added (cfg_Node cfg)"
  have ns: "s \<noteq> GoPanic" "n \<noteq> GoPanic" unfolding s_def n_def by (rule setup_rest_not_panic)+
  have d: "setup_optional added ok cfg self ecs po svc cm b =
     (if (Enabled (cfg_Cert cfg) \<or> StatefulSetName (cfg_Node cfg) \<noteq> []) \<and> \<not> ok then GoErr ClientsetFailed
      else gores_bind s (\<lambda>sec. gores_bind n (\<lambda>nd.
          GoOk \<lparr>ct_ecs = ecs, ct_pod = po, ct_svc = svc, ct_cm = cm, ct_secret = sec, ct_node = nd, ct_bus = b\<rparr>)))"
    by (simp add: setup_optional_def Let_def s_def n_def)
  show "(setup_optional added ok cfg self ecs po svc cm b :: (setup_error, 'k controllers) gores) \<noteq> GoPanic"
    using ns by (cases s; cases n) (auto simp: d Let_def)
  show "ct_ecs cs = ecs \<and> ct_pod cs = po \<and> ct_svc cs = svc \<and> ct_cm cs = cm \<and> ct_bus cs = b"
    if "setup_optional added ok cfg self ecs po svc cm b = GoOk cs"
    using ns that by (cases s; cases n) (auto simp: d Let_def split: if_splits)
qed

text \<open>How the set-up goes when it does not fail on \<open>mgr.Add\<close> or the clientset.\<close>

lemma setup_cases:
  fixes res :: "(setup_error, 'k controllers) gores"
  assumes res: "res = setupControllers added ok cfg self"
  obtains (failed) err where "res = GoErr err"
    | (ready) svc b1 cm b2 cs where "res = GoOk cs"
        and "setup_service added (cfg_ServiceConfig cfg) (snd (Subscribe EcsNodeTopic ''pod'' NewPubSub)) = GoOk (svc, b1)"
        and "setup_configmap added (cfg_Configmap cfg) b1 = GoOk (cm, b2)"
        and "ct_ecs cs = NewEcsNode (cfg_EcsNode cfg)" and "ct_pod cs = NewPod (cfg_PodConfig cfg)"
        and "ct_svc cs = svc" and "ct_cm cs = cm" and "ct_bus cs = b2"
proof -
  let ?b0 = "snd (Subscribe EcsNodeTopic ''pod'' NewPubSub) :: payload pubsub"
  note eq = res [unfolded setupControllers_def first_subscription gores_bind.simps(1)]
  show thesis
  proof (cases "added EcsKind \<and> added PodKind")
    case False
    then show thesis
      using failed [of "NotAdded EcsKind"] failed [of "NotAdded PodKind"] by (cases "added EcsKind") (auto simp: eq mgr_add_def)
  next
    case True
    then have eq1: "res =
        gores_bind (setup_service added (cfg_ServiceConfig cfg) ?b0) (\<lambda>(svc, b1).
        gores_bind (setup_configmap added (cfg_Configmap cfg) b1) (\<lambda>(cm, b2).
          setup_optional added ok cfg self (NewEcsNode (cfg_EcsNode cfg)) (NewPod (cfg_PodConfig cfg)) svc cm b2))"
      by (simp add: eq mgr_add_def)
    show thesis
    proof (cases "setup_service added (cfg_ServiceConfig cfg) ?b0")
      case (GoOk sb)
      obtain svc b1 where sb: "sb = (svc, b1)" by (cases sb)
      have b1: "b1 = ?b0 \<or> b1 = snd (Subscribe PodTopic ''service'' ?b0)"
        using setup_service_ok(2) [OF GoOk] sb by auto
      show thesis
      proof (cases "setup_configmap added (cfg_Configmap cfg) b1")
        case cm: (GoOk cb)
        obtain cm b2 where cb: "cb = (cm, b2)" by (cases cb)
        have rest: "res =
            setup_optional added ok cfg self (NewEcsNode (cfg_EcsNode cfg)) (NewPod (cfg_PodConfig cfg)) svc cm b2"
          by (simp add: eq1 GoOk sb cm cb)
        show thesis
        proof (cases res)
          case all_ok: (GoOk cs)
          show thesis
            using setup_optional_spec(2) [OF all_ok [unfolded rest]] GoOk cm sb cb
            by (intro ready [OF all_ok]) simp_all
        next
          case GoPanic
          then show thesis using rest setup_optional_spec(1) by metis
        qed (rule failed)
      next
        case (GoErr err)
        then show thesis using eq1 \<open>setup_service _ _ _ = _\<close> sb by (intro failed) simp
      next
        case GoPanic
        then show thesis using setup_configmap_ok(1) [OF GoPanic b1] by simp
      qed
    next
      case (GoErr err)
      then show thesis using eq1 by (intro failed) simp
    next
      case GoPanic
      then show thesis using setup_service_ok(1) [OF GoPanic] by simp
    qed
  qed
qed

lemma ApplyDefault_idem:
  assumes "ApplyDefault (Some c) self = Inr c'"
  shows "ApplyDefault (Some c') self = Inr c'"
proof -
  note parts = ApplyDefault_cases [OF assms]
  show ?thesis
    using default_cert_idem(1) [OF parts(1)] default_configmap_spec [OF parts(2)]
      default_service_spec [OF parts(3)] default_hosts_spec [OF parts(4)] default_node_spec [OF parts(5)]
    by (simp add: ApplyDefault_def)
qed

section \<open>Properties\<close>

text \<open>
  C33: A configuration that \<open>ApplyDefault\<close> accepts is complete: applying the defaults again
  changes nothing, every configured controller's own validation succeeds, and with certificate
  management on the CA has a namespace, the controller's own namespace is among the client
  namespaces, the namespace set is that of the list, and the subject and validity are filled in.
\<close>

theorem applied_config_is_complete:
  assumes "ApplyDefault (Some c) self = Inr c'" and "self \<noteq> []"
  shows "ApplyDefault (Some c') self = Inr c' \<and>
    EcsNodeConfig_Valid (cfg_EcsNode c') = None \<and> PodConfig_Valid (cfg_PodConfig c') = None \<and>
    (sc_Name (cfg_ServiceConfig c') \<noteq> [] \<longrightarrow> ServiceConfig_Valid (cfg_ServiceConfig c') = None) \<and>
    (cc_Name (cfg_Configmap c') \<noteq> [] \<longrightarrow> ConfigMapConfig_Valid (cfg_Configmap c') = None) \<and>
    (StatefulSetName (cfg_Node c') \<noteq> [] \<longrightarrow> NodeConfig_Valid (cfg_Node c') = None) \<and>
    (Enabled (cfg_Cert c') \<longrightarrow> cert_complete self (cfg_Cert c') \<and> CASecretNamespace (cfg_Cert c') \<noteq> [])"
proof -
  note parts = ApplyDefault_cases [OF assms(1)]
  note specs = default_cert_idem [OF parts(1)] default_configmap_spec [OF parts(2)]
    default_service_spec [OF parts(3)] default_hosts_spec [OF parts(4)] default_node_spec [OF parts(5)]
  note ApplyDefault_idem [OF assms(1)]
  moreover have "Enabled (cfg_Cert c') \<longrightarrow> cert_complete self (cfg_Cert c') \<and> CASecretNamespace (cfg_Cert c') \<noteq> []"
    using specs(2) assms(2) by (auto simp: cert_complete_def)
  ultimately show ?thesis using specs by simp
qed

definition demo_config :: ecsnode_config where
  "demo_config = \<lparr>cfg_Cert = (sy_config (toy_sync ''kube-system''))\<lparr>CASecretNamespace := [], ValidityYears := 0\<rparr>,
     cfg_Configmap = \<lparr>cc_Namespace = [], cc_Name = ''ips''\<rparr>,
     cfg_PodConfig = \<lparr>pc_Lables = None, pc_Namespace = []\<rparr>, cfg_EcsNode = (ecs_config demo_ecs)\<lparr>en_Namespace := []\<rparr>,
     cfg_ServiceConfig = demo_svc_cfg, cfg_Node = demo_node_cfg\<lparr>MinReplicas := 0\<rparr>\<rparr>"

theorem applied_config_is_complete_witness:
  "\<exists>c'. ApplyDefault (Some demo_config) ''etcd'' = Inr c' \<and> cert_complete ''etcd'' (cfg_Cert c')"
proof -
  have "case ApplyDefault (Some demo_config) ''etcd'' of Inl e \<Rightarrow> False | Inr c' \<Rightarrow> Enabled (cfg_Cert c')" by code_simp
  then obtain c' where "ApplyDefault (Some demo_config) ''etcd'' = Inr c'" and "Enabled (cfg_Cert c')"
    by (auto split: sum.splits)
  with applied_config_is_complete [OF this(1)] show ?thesis by auto
qed

text \<open>
  Setting up the controllers never ends the process on a failed subscription, whichever
  optional controllers are configured; and when it succeeds with a Service and a ConfigMap
  configured, the controllers and the bus it leaves are a start of the pipeline.
\<close>

lemma setup_starts_pipeline:
  "case (setupControllers added clientsetOk cfg self :: (setup_error, 'k controllers) gores) of
     GoPanic \<Rightarrow> False
   | GoErr err \<Rightarrow> True
   | GoOk cs \<Rightarrow> sc_Name (cfg_ServiceConfig cfg) = [] \<or> cc_Name (cfg_Configmap cfg) = [] \<or>
       (\<exists>svc cm. ct_svc cs = Some svc \<and> ct_cm cs = Some cm \<and>
          pipeline_start \<lparr>pl_ecs = ct_ecs cs, pl_sending = False, pl_bus = ct_bus cs, pl_pod = ct_pod cs,
            pl_podpub = False, pl_cm = cm, pl_svc = svc, pl_world = w\<rparr>)"
proof -
  define res :: "(setup_error, 'k controllers) gores" where "res = setupControllers added clientsetOk cfg self"
  from res_def show ?thesis
  proof (cases rule: setup_cases)
    case (failed err)
    then show ?thesis by (simp add: res_def)
  next
  case (ready svc b1 cm b2 cs)
  have svc: "(sc_Name (cfg_ServiceConfig cfg) = [] \<and> b1 = snd (Subscribe EcsNodeTopic ''pod'' NewPubSub)) \<or>
      (svc = Some (NewServiceSync (cfg_ServiceConfig cfg)) \<and>
       b1 = snd (Subscribe PodTopic ''service'' (snd (Subscribe EcsNodeTopic ''pod'' NewPubSub))))"
    using setup_service_ok(2) [OF ready(2)] by auto
  then have b1: "b1 = snd (Subscribe EcsNodeTopic ''pod'' NewPubSub) \<or>
      b1 = snd (Subscribe PodTopic ''service'' (snd (Subscribe EcsNodeTopic ''pod'' NewPubSub)))" by blast
  have "\<exists>s c. ct_svc cs = Some s \<and> ct_cm cs = Some c \<and>
      pipeline_start \<lparr>pl_ecs = ct_ecs cs, pl_sending = False, pl_bus = ct_bus cs, pl_pod = ct_pod cs,
        pl_podpub = False, pl_cm = c, pl_svc = s, pl_world = w\<rparr>"
    if "sc_Name (cfg_ServiceConfig cfg) \<noteq> []" and "cc_Name (cfg_Configmap cfg) \<noteq> []"
    using svc that setup_configmap_ok(2) [OF ready(3) b1 refl that(2)] ready(4-8)
    by (auto simp: pipeline_start_def wired_bus_def)
  then show ?thesis using ready(1) by (auto simp: res_def)
  qed
qed

end
