(* ===== verification/Ecsnode_Start.thy ===== *)
theory Ecsnode_Start
  imports Ecsnode_Main
begin

text \<open>
  \<open>main\<close> of \<open>cmd/ecsnode/main.go\<close>: from the configuration file and the environment to the running
  controllers, and how the process ends. What the start takes from outside (the file, the YAML
  parser, the build information, the cluster's API, the manager) is the record \<open>ecsnode_env\<close>.
  The manager starts the controllers it was given in goroutines of their own.
\<close>

record ecsnode_env =
  ee_file :: "string \<Rightarrow> string option"
  ee_yaml :: "string \<Rightarrow> ecsnode_config option option"
  ee_env :: "string \<rightharpoonup> string"
  ee_build :: build_info
  ee_restconfig :: bool
  ee_manager :: "string \<Rightarrow> bool"
  ee_added :: "ctrl_kind \<Rightarrow> bool"
  ee_clientset :: bool

datatype ecsnode_exit =
  ConfigNotLoaded config_error
| NamespaceUnset
| DefaultsRejected config_error
| BuildInfoPanics
| NoRestConfig
| ManagerNotCreated
| SetupFailed setup_error
| SetupPanics

definition printBuildInfo :: "build_info \<Rightarrow> (unit, (string \<times> string \<times> string) option) gores" where
  "printBuildInfo info =
     (case info of
        None \<Rightarrow> GoOk None
      | Some settings \<Rightarrow>
          (let (vcsRevision, vcsTime, vcsModified) = build_loop settings ([], [], []) in
           if vcsRevision \<noteq> [] then
             (if length vcsRevision < 8 then GoPanic else GoOk (Some (take 8 vcsRevision, vcsTime, vcsModified)))
           else GoOk None))"

text \<open>The variable \<open>nsenv\<close>.\<close>

definition nsenv :: string where "nsenv = ''NAMESPACE''"

text \<open>
  \<open>main\<close> up to the start of the manager, with the file name of the flag \<open>config\<close>. The leader
  election's lock is in the own namespace (the argument of \<open>ee_manager\<close>).
\<close>

definition ecsnode_main :: "ecsnode_env \<Rightarrow> string \<Rightarrow> ecsnode_exit + ecsnode_config \<times> 'k controllers" where
  "ecsnode_main env fp =
     (case LoadFromYaml (ee_file env) (ee_yaml env) fp of
        Inl e \<Rightarrow> Inl (ConfigNotLoaded e)
      | Inr loaded \<Rightarrow>
          (let defaultns = getenv (ee_env env) nsenv in
           if defaultns = [] then Inl NamespaceUnset
           else (case ApplyDefault loaded defaultns of
                   Inl e \<Rightarrow> Inl (DefaultsRejected e)
                 | Inr cfg \<Rightarrow>
                     (if printBuildInfo (ee_build env) = GoPanic then Inl BuildInfoPanics
                      else if \<not> ee_restconfig env then Inl NoRestConfig
                      else if \<not> ee_manager env defaultns then Inl ManagerNotCreated
                      else (case setupControllers (ee_added env) (ee_clientset env) cfg defaultns of
                              GoErr e \<Rightarrow> Inl (SetupFailed e)
                            | GoPanic \<Rightarrow> Inl SetupPanics
                            | GoOk cs \<Rightarrow> Inr (cfg, cs))))))"

text \<open>
  The end of \<open>main\<close>: what happens to the process, in order. A delivered signal cancels the
  context of \<open>SetupSignalHandler\<close>, which ends \<open>main\<close>; a manager that stops with an error is
  fatal; one that stops without leaves \<open>main\<close> waiting.
\<close>

datatype process_event = SignalDelivered | ManagerStopped bool
datatype process_end = MainReturns | MainFatal

fun main_wait :: "process_event list \<Rightarrow> process_end option" where
  "main_wait [] = None"
| "main_wait (SignalDelivered # es) = Some MainReturns"
| "main_wait (ManagerStopped failed # es) = (if failed then Some MainFatal else main_wait es)"

section \<open>Lemmas\<close>

text \<open>A revision shorter than eight bytes, as version control other than git has them, is fatal.\<close>

lemma short_revision_panics:
  "0 < length r \<Longrightarrow> length r < 8 \<Longrightarrow> printBuildInfo (Some [(''vcs.revision'', r)]) = GoPanic"
  by (auto simp: printBuildInfo_def build_setting_def)

lemma ecsnode_main_running:
  assumes "ecsnode_main env fp = Inr (cfg, cs)"
  obtains c ns where "LoadFromYaml (ee_file env) (ee_yaml env) fp = Inr (Some c)"
    and "ee_env env nsenv = Some ns" and "ns \<noteq> []" and "ApplyDefault (Some c) ns = Inr cfg"
    and "setupControllers (ee_added env) (ee_clientset env) cfg ns = GoOk cs"
proof -
  let ?ns = "getenv (ee_env env) nsenv"
  obtain l where l: "LoadFromYaml (ee_file env) (ee_yaml env) fp = Inr l"
    using assms by (auto simp: ecsnode_main_def split: sum.splits)
  have ns: "?ns \<noteq> []" using assms l by (auto simp: ecsnode_main_def Let_def)
  have ap: "ApplyDefault l ?ns = Inr cfg"
    and su: "setupControllers (ee_added env) (ee_clientset env) cfg ?ns = GoOk cs"
    using assms l ns by (auto simp: ecsnode_main_def Let_def split: sum.splits if_splits gores.splits)
  obtain c where "l = Some c" using ap by (cases l) (auto simp: ApplyDefault_def)
  moreover have "ee_env env nsenv = Some ?ns" using ns by (auto simp: getenv_def split: option.splits)
  ultimately show thesis using that l ns ap su by blast
qed

lemma main_wait_signal: "main_wait (es @ [SignalDelivered]) \<noteq> None"
  by (induction es rule: main_wait.induct) auto

text \<open>The controllers as the start of the pipeline, in a world \<open>w\<close>.\<close>

definition started_pipeline :: "'k controllers \<Rightarrow> ServiceSync \<Rightarrow> ConfigMapSync \<Rightarrow> 'w \<Rightarrow> 'w pipeline" where
  "started_pipeline cs svc cm w =
     \<lparr>pl_ecs = ct_ecs cs, pl_sending = False, pl_bus = ct_bus cs, pl_pod = ct_pod cs,
      pl_podpub = False, pl_cm = cm, pl_svc = svc, pl_world = w\<rparr>"

section \<open>Properties\<close>


definition demo_ecsnode_env :: ecsnode_env where
  "demo_ecsnode_env = \<lparr>ee_file = (\<lambda>p. if p = ''config.yaml'' then Some ''{}'' else None),
     ee_yaml = (\<lambda>b. Some (Some demo_config)), ee_env = [''NAMESPACE'' \<mapsto> ''etcd''],
     ee_build = Some [(''vcs.revision'', ''0123456789''), (''vcs.modified'', ''false'')], ee_restconfig = True,
     ee_manager = (\<lambda>ns. ns = ''etcd''), ee_added = (\<lambda>k. True), ee_clientset = True\<rparr>"


end
