(* ===== verification/Service_Delivery.thy ===== *)
theory Service_Delivery
  imports Host_Delivery
begin

text \<open>
  Progress of the service controller: the steps that only carry a pod event on (the publication
  that the pod controller defers, the reception and the work of the service controller's
  goroutine, the triggers of the retries that are due) end after a bounded number of steps when
  the Kubernetes API does not fail, and leave the stored objects at the hosts of the pods.
\<close>

inductive service_step :: "(string set \<Rightarrow> string list) \<Rightarrow> 'w svc_api \<Rightarrow> 'w pipeline \<Rightarrow> 'w pipeline \<Rightarrow> bool"
  for unsorted sapi where
  serve_publish: "pl_podpub p \<Longrightarrow> Publish PodTopic NilData (pl_bus p) = GoOk b \<Longrightarrow>
    service_step unsorted sapi p (p\<lparr>pl_bus := b, pl_podpub := False\<rparr>)"
| serve_take: "\<not> ss_stuck (pl_svc p) \<Longrightarrow> GetMessage svc_sub (pl_bus p) = Received m c \<Longrightarrow>
    service_step unsorted sapi p (p\<lparr>pl_bus := receive svc_sub (pl_bus p), pl_svc := svc_message (pl_svc p)\<rparr>)"
| serve_work: "\<not> ss_stuck (pl_svc p) \<Longrightarrow> chan_recv (ss_trigger (pl_svc p)) = Received () c \<Longrightarrow>
    svc_triggered sapi (\<lambda>notready. ListPodHostIP unsorted notready (pl_pod p)) c (pl_svc p) (pl_world p) = (s, e) \<Longrightarrow>
    service_step unsorted sapi p (p\<lparr>pl_svc := s, pl_world := e\<rparr>)"
| serve_retry: "0 < ss_retries (pl_svc p) \<Longrightarrow> chan_send () (ss_trigger (pl_svc p)) = Sent c \<Longrightarrow>
    service_step unsorted sapi p
      (p\<lparr>pl_svc := (pl_svc p)\<lparr>ss_trigger := c, ss_retries := ss_retries (pl_svc p) - 1\<rparr>\<rparr>)"

lemma service_is_step: "service_step unsorted sapi p q \<Longrightarrow> pipeline_step unsorted api sapi p q"
  by (induction rule: service_step.induct) (blast intro: pod_publish svc_take svc_work svc_retry)+

section \<open>The trigger channel of the service controller\<close>

lemma svc_message_trigger:
  assumes "trigger_ok (ss_trigger s)"
  shows "trigger_ok (ss_trigger (svc_message s))"
    and "length (buf (ss_trigger (svc_message s))) \<le> Suc (length (buf (ss_trigger s)))"
    and "ss_retries (svc_message s) = ss_retries s" and "ss_config (svc_message s) = ss_config s"
  using assms by (auto simp: svc_message_def chan_send_def trigger_ok_def)

lemma svc_triggered_trigger:
  assumes "svc_triggered sapi l c s e = (s', e')"
  shows "ss_trigger s' = c" and "ss_stuck s' = ss_stuck s" and "ss_config s' = ss_config s"
  using assms by (auto simp: svc_triggered_def syncService_def Let_def split: sum.splits prod.splits bool.splits option.splits)

lemma svc_trigger_step:
  assumes "trigger_ok (ss_trigger (pl_svc p))" and "pipeline_step unsorted api sapi p q"
  shows "trigger_ok (ss_trigger (pl_svc q))"
  using assms(2)
proof cases
  case (svc_take m c)
  then show ?thesis using svc_message_trigger [OF assms(1)] by simp
next
  case (svc_work c s e)
  then show ?thesis using trigger_ok_recv [OF svc_work(3) assms(1)] svc_triggered_trigger [OF svc_work(4)] by simp
next
  case (svc_request gs ge c)
  then show ?thesis using trigger_ok_send [OF svc_request(3) assms(1)] by simp
next
  case (svc_retry c)
  then show ?thesis using trigger_ok_send [OF svc_retry(3) assms(1)] by simp
qed (use assms(1) in simp_all)

interpretation svc_channel: invariant_system pipeline_start "pipeline_step unsorted api sapi" "\<lambda>p. trigger_ok (ss_trigger (pl_svc p))"
  for unsorted api sapi
  by unfold_locales (auto simp: pipeline_start_def NewServiceSync_def trigger_ok_new intro: svc_trigger_step)

section \<open>A bound\<close>

definition service_left :: "'w pipeline \<Rightarrow> nat" where
  "service_left p = (if pl_podpub p then 3 else 0) + 2 * length (backlog 1 (pl_bus p)) +
     length (buf (ss_trigger (pl_svc p))) + 2 * ss_retries (pl_svc p)"

text \<open>The API does not fail, and the pods can be listed.\<close>

definition svc_works :: "'w svc_api \<Rightarrow> bool" where
  "svc_works api \<longleftrightarrow> (\<forall>d f e. fst (create_or_update_service api d f e)) \<and> (\<forall>d f e. fst (create_or_update_endpoints api d f e))"

lemma works_sync:
  assumes "svc_works api" and "l (PublishNotReady (ss_config s)) = Inr ips"
  shows "\<exists>e'. syncService api l s e = (None, s\<lparr>svcinfo := serviceEndpoint (ss_config s) ips\<rparr>, e')"
proof -
  let ?sv = "desired_service (ss_config s)" and ?ep = "desired_endpoints (ss_config s) ips"
  obtain e1 where 1: "create_or_update_service api ?sv (mutate_service ?sv) e = (True, e1)"
    using assms(1) unfolding svc_works_def by (metis prod.collapse)
  obtain e2 where "create_or_update_endpoints api ?ep (mutate_endpoints ?ep) e1 = (True, e2)"
    using assms(1) unfolding svc_works_def by (metis prod.collapse)
  with 1 show ?thesis using assms(2) by (simp add: syncService_def)
qed

lemma works_triggered:
  assumes "svc_works sapi" and "l (PublishNotReady (ss_config s)) = Inr ips" and "svc_triggered sapi l c s e = (s', e')"
  shows "syncService sapi l (s\<lparr>ss_trigger := c\<rparr>) e = (None, s', e')" and "ss_retries s' = ss_retries s"
  using works_sync [OF assms(1), of l "s\<lparr>ss_trigger := c\<rparr>" ips e] assms(2,3)
  by (auto simp: svc_triggered_def)

lemma publish_pod_grows:
  assumes "wired b" and "Publish PodTopic d b = GoOk b'"
  shows "length (backlog 1 b') \<le> Suc (length (backlog 1 b))"
proof -
  have b': "publish_step PodTopic d b = b'" using assms(2) by (simp add: publish_step_def)
  have "subscribed PodTopic ''service'' 1 b" using assms(1) by (simp add: wired_def subscribed_def svc_sub_def)
  from publish_step_subscribed(2) [OF this, unfolded b', of d] show ?thesis using b' by simp
qed

lemma service_decreases:
  assumes inv: "pipeline_inv unsorted p" "trigger_ok (ss_trigger (pl_svc p))" and api: "svc_works sapi"
    and list: "ListPodHostIP unsorted (PublishNotReady (ss_config (pl_svc p))) (pl_pod p) = Inr ips"
    and step: "service_step unsorted sapi p q"
  shows "service_left q < service_left p"
  using step
proof cases
  case (serve_publish b)
  then show ?thesis using publish_pod_grows [OF inv_facts(1) [OF inv(1)] serve_publish(3)] by (simp add: service_left_def)
next
  case (serve_take m c)
  have "1 < length (chans (pl_bus p))" using wired_chans [OF inv_facts(1) [OF inv(1)]] by simp
  then have "length (backlog 1 (pl_bus p)) = Suc (length (backlog 1 (receive svc_sub (pl_bus p))))"
    using receive_shrinks [OF serve_take(3)] by simp
  then show ?thesis using svc_message_trigger [OF inv(2)] by (simp add: serve_take(1) service_left_def)
next
  case (serve_work c s e)
  then show ?thesis
    using works_triggered(2) [OF api _ serve_work(4)] list trigger_ok_recv [OF serve_work(3) inv(2)]
      svc_triggered_trigger(1) [OF serve_work(4)] by (simp add: service_left_def)
next
  case (serve_retry c)
  then show ?thesis using trigger_ok_send [OF serve_retry(3) inv(2)] by (simp add: service_left_def)
qed

lemma service_bounded:
  assumes "pipeline_inv unsorted p" and "trigger_ok (ss_trigger (pl_svc p))"
  shows "service_left p \<le> 33 + 2 * ss_retries (pl_svc p)"
proof -
  have "length (backlog 1 (pl_bus p)) \<le> 10"
    using inv_facts(1) [OF assms(1)] unfolding wired_def bus_inv_def open_box_def backlog_length by (metis sub_chans(3))
  then show ?thesis using assms(2) by (simp add: service_left_def trigger_ok_def)
qed

section \<open>What is stored in the end\<close>

text \<open>The objects that the controller writes are again objects it can bring up to date.\<close>

lemma merge_keeps_key:
  assumes "merge_annotations (om_Annotations (desired_meta c)) m = Some a"
  shows "\<exists>v. map_of a ServiceAnnoNotReadyKey = Some v"
  using assms by (auto simp: merge_annotations_def desired_meta_def update_conv')

lemma old_ok_mutate:
  assumes "old_ok c sv_meta o1" and "old_ok c eps_meta o2"
  shows "old_ok c sv_meta (Some (mutate_service (desired_service c) (case o1 of None \<Rightarrow> desired_service c | Some s \<Rightarrow> s)))"
    and "old_ok c eps_meta (Some (mutate_endpoints (desired_endpoints c l) (case o2 of None \<Rightarrow> desired_endpoints c l | Some s \<Rightarrow> s)))"
proof -
  have key: "keyed c m \<Longrightarrow> keyed c (m\<lparr>om_Annotations := x\<rparr>)" for m x by (simp add: keyed_def)
  have new: "om_Annotations (desired_meta c) = Some a \<Longrightarrow> \<exists>v. map_of a ServiceAnnoNotReadyKey = Some v" for a
    by (auto simp: desired_meta_def)
  show "old_ok c sv_meta (Some (mutate_service (desired_service c) (case o1 of None \<Rightarrow> desired_service c | Some s \<Rightarrow> s)))"
    using assms(1) key by (auto simp: old_ok_def mutate_service_def desired_service_def dest: new merge_keeps_key split: option.splits)
  show "old_ok c eps_meta (Some (mutate_endpoints (desired_endpoints c l) (case o2 of None \<Rightarrow> desired_endpoints c l | Some s \<Rightarrow> s)))"
    using assms(2) key by (auto simp: old_ok_def mutate_endpoints_def desired_endpoints_def dest: new merge_keeps_key split: option.splits)
qed

lemma sync_keeps_ok:
  assumes "svc_laws api" and "syncService api l s e = (None, s', e')"
    and "old_ok (ss_config s) sv_meta (stored_service api e)" and "old_ok (ss_config s) eps_meta (stored_endpoints api e)"
  shows "old_ok (ss_config s) sv_meta (stored_service api e')" and "old_ok (ss_config s) eps_meta (stored_endpoints api e')"
proof -
  let ?c = "ss_config s"
  obtain ips e1 where 1: "create_or_update_service api (desired_service ?c) (mutate_service (desired_service ?c)) e = (True, e1)"
    and 2: "create_or_update_endpoints api (desired_endpoints ?c ips) (mutate_endpoints (desired_endpoints ?c ips)) e1 = (True, e')"
    using assms(2) by (auto simp: syncService_def Let_def split: sum.splits prod.splits bool.splits)
  have "stored_service api e' = Some (mutate_service (desired_service ?c) (case stored_service api e of None \<Rightarrow> desired_service ?c | Some s \<Rightarrow> s))"
    "stored_endpoints api e' = Some (mutate_endpoints (desired_endpoints ?c ips) (case stored_endpoints api e of None \<Rightarrow> desired_endpoints ?c ips | Some s \<Rightarrow> s))"
    using assms(1) 1 2 unfolding svc_laws_def by auto
  then show "old_ok ?c sv_meta (stored_service api e')" "old_ok ?c eps_meta (stored_endpoints api e')"
    using old_ok_mutate [OF assms(3,4)] by simp_all
qed

text \<open>The stored objects are those of the pods, and the controller asks for nothing more.\<close>

definition served :: "(string set \<Rightarrow> string list) \<Rightarrow> 'w svc_api \<Rightarrow> PodCtrl \<Rightarrow> ServiceSync \<Rightarrow> 'w \<Rightarrow> bool" where
  "served unsorted api h s e \<longleftrightarrow>
     (\<exists>sv ep. stored_service api e = Some sv \<and> stored_endpoints api e = Some ep \<and>
        svc_ips ep = source_addrs (unsorted, h) (PublishNotReady (ss_config s)) \<and>
        svc_ports sv = svc_ports (desired_service (ss_config s)) \<and>
        \<not> Service_Reconcile (Some sv) (Some ep) s)"

definition serving :: "(string set \<Rightarrow> string list) \<Rightarrow> 'w svc_api \<Rightarrow> 'w pipeline \<Rightarrow> bool" where
  "serving unsorted api p \<longleftrightarrow>
     old_ok (ss_config (pl_svc p)) sv_meta (stored_service api (pl_world p)) \<and>
     old_ok (ss_config (pl_svc p)) eps_meta (stored_endpoints api (pl_world p)) \<and>
     (svc_pending p \<or> served unsorted api (pl_pod p) (pl_svc p) (pl_world p))"

lemma service_step_frame:
  assumes "service_step unsorted sapi p q"
  shows "pl_pod q = pl_pod p" and "ss_config (pl_svc q) = ss_config (pl_svc p)"
  using assms by (auto elim!: service_step.cases simp: svc_message_def svc_triggered_trigger(3) split: send_result.split)

lemma serving_step:
  assumes laws: "svc_laws sapi" and api: "svc_works sapi" and ok: "source_ok (unsorted, pl_pod p)"
    and wired: "wired (pl_bus p)" and inv: "serving unsorted sapi p" and step: "service_step unsorted sapi p q"
  shows "serving unsorted sapi q"
  using step
proof cases
  case (serve_publish b)
  then show ?thesis using publish_pod(3) [OF wired serve_publish(3)] inv by (simp add: serving_def svc_pending_def)
next
  case (serve_take m c)
  have "ss_config (svc_message (pl_svc p)) = ss_config (pl_svc p)" using service_step_frame(2) [OF step] serve_take(1) by simp
  then show ?thesis
    using inv svc_message_pending [of "pl_svc p"] by (auto simp: serve_take(1) serving_def svc_pending_def)
next
  case (serve_work c s e)
  have l: "source_list (unsorted, pl_pod p) = (\<lambda>b. ListPodHostIP unsorted b (pl_pod p))" by (simp add: source_list_def fun_eq_iff)
  obtain ips where "source_list (unsorted, pl_pod p) (PublishNotReady (ss_config (pl_svc p))) = Inr ips"
    using pods.listed [OF ok] by blast
  from works_triggered(1) [OF api this serve_work(4) [folded l]]
  have run: "syncService sapi (source_list (unsorted, pl_pod p)) ((pl_svc p)\<lparr>ss_trigger := c\<rparr>) (pl_world p) = (None, s, e)" .
  have cfg: "ss_config s = ss_config (pl_svc p)" using svc_triggered_trigger(3) [OF serve_work(4)] .
  have o: "old_ok (ss_config (pl_svc p)) sv_meta (stored_service sapi (pl_world p))"
    "old_ok (ss_config (pl_svc p)) eps_meta (stored_endpoints sapi (pl_world p))"
    using inv by (simp_all add: serving_def)
  have "served unsorted sapi (pl_pod p) s e"
    by (rule pods.sync_publishes [OF laws ok run]) (use o cfg in \<open>auto simp: served_def\<close>)
  moreover have "old_ok (ss_config (pl_svc p)) sv_meta (stored_service sapi e)" "old_ok (ss_config (pl_svc p)) eps_meta (stored_endpoints sapi e)"
    using sync_keeps_ok [OF laws run] o by simp_all
  ultimately show ?thesis by (simp add: serve_work(1) serving_def cfg)
next
  case (serve_retry c)
  then have "buf c \<noteq> []" by (auto simp: chan_send_def split: if_splits)
  then show ?thesis using inv by (simp add: serve_retry(1) serving_def svc_pending_def)
qed

text \<open>A run of these steps.\<close>

lemma service_run:
  assumes start: "pipeline_inv unsorted p" "trigger_ok (ss_trigger (pl_svc p))"
    and laws: "svc_laws sapi" and api: "svc_works sapi" and ok: "source_ok (unsorted, pl_pod p)"
    and sv: "serving unsorted sapi p" and run: "(service_step unsorted sapi ^^ n) p q"
  shows "pipeline_inv unsorted q \<and> trigger_ok (ss_trigger (pl_svc q)) \<and> pl_pod q = pl_pod p \<and>
    ss_config (pl_svc q) = ss_config (pl_svc p) \<and> serving unsorted sapi q \<and> n + service_left q \<le> service_left p"
  using run
proof (induction n arbitrary: q)
  case 0
  then show ?case using start sv by simp
next
  case (Suc n)
  then obtain r where r: "(service_step unsorted sapi ^^ n) p r" and s: "service_step unsorted sapi r q" by auto
  note ih = Suc.IH [OF r]
  obtain ips where "ListPodHostIP unsorted (PublishNotReady (ss_config (pl_svc r))) (pl_pod r) = Inr ips"
    using pods.listed [OF ok] ih by (metis fst_conv snd_conv source_list_def)
  then have "service_left q < service_left r" using service_decreases [OF _ _ api _ s] ih by blast
  moreover have "pipeline_inv unsorted q" using pipeline_inv_step service_is_step [OF s] ih by blast
  moreover have "trigger_ok (ss_trigger (pl_svc q))" using svc_trigger_step service_is_step [OF s] ih by blast
  moreover have "serving unsorted sapi q"
    using serving_step [OF laws api _ _ _ s] ok ih inv_facts(1) by metis
  ultimately show ?case using ih service_step_frame [OF s] by simp
qed

text \<open>When none of the steps is possible, nothing is pending.\<close>

lemma service_stuck_idle:
  assumes inv: "pipeline_inv unsorted p" "trigger_ok (ss_trigger (pl_svc p))"
    and none: "\<nexists>q. service_step unsorted sapi p q" and free: "\<not> ss_stuck (pl_svc p)"
  shows "\<not> svc_pending p"
proof -
  obtain b where b: "Publish PodTopic NilData (pl_bus p) = GoOk b"
    using Publish_spec [OF wired_inv [OF inv_facts(1) [OF inv(1)]]] by metis
  have pub: "\<not> pl_podpub p" using serve_publish [OF _ b] none by blast
  have bl: "backlog 1 (pl_bus p) = []"
  proof (rule ccontr)
    assume "backlog 1 (pl_bus p) \<noteq> []"
    then obtain m c where "GetMessage svc_sub (pl_bus p) = Received m c"
      by (auto simp: GetMessage_def chan_recv_def backlog_def neq_Nil_conv)
    with serve_take free none show False by blast
  qed
  have trig: "buf (ss_trigger (pl_svc p)) = []"
  proof (rule ccontr)
    assume "buf (ss_trigger (pl_svc p)) \<noteq> []"
    then obtain c where c: "chan_recv (ss_trigger (pl_svc p)) = Received () c" by (auto simp: chan_recv_def neq_Nil_conv)
    obtain s e where w: "svc_triggered sapi (\<lambda>notready. ListPodHostIP unsorted notready (pl_pod p)) c (pl_svc p) (pl_world p) = (s, e)"
      by fastforce
    from serve_work [OF free c w] none show False by blast
  qed
  then obtain c where "chan_send () (ss_trigger (pl_svc p)) = Sent c"
    using inv(2) by (auto simp: chan_send_def trigger_ok_def)
  then have "ss_retries (pl_svc p) = 0" using serve_retry none by blast
  then show ?thesis using pub bl trig free by (simp add: svc_pending_def)
qed

end
