(* ===== verification/Api_Types.thy ===== *)
theory Api_Types
  imports Ecs_Node
begin

text \<open>
  \<open>pkg/apis/v1\<close>: the ECSNode types of \<open>types_ecsnode.go\<close> and their generated deep copies in
  \<open>zz_generated.deepcopy.go\<close>, over an explicit heap: the endpoint structs that a node points to,
  the arrays behind the slices of such pointers, and the arrays behind the slices of nodes. An
  address is an index, an allocation appends. The copies of \<open>metav1.ObjectMeta\<close> and
  \<open>metav1.ListMeta\<close> are the library's and parameters; \<open>TypeMeta\<close> is two strings.
\<close>

section \<open>Types\<close>

record api_endpoint =
  ae_Name :: string
  ae_Ipnet :: string
  ae_Dev :: string

text \<open>A nil slice is \<open>None\<close>, any other the address of its array.\<close>

record EcsNodeSpec =
  es_Endpoints :: "nat option"
  es_Status :: string
  es_Hostname :: string

record 'm ECSNode =
  no_TypeMeta :: "string \<times> string"
  no_ObjectMeta :: 'm
  no_Spec :: EcsNodeSpec

record 'l ECSNodeList =
  nl_TypeMeta :: "string \<times> string"
  nl_ListMeta :: 'l
  nl_Items :: "nat option"

record 'm api_heap =
  eps :: "api_endpoint list"
  ep_arrays :: "nat option list list"
  node_arrays :: "'m ECSNode list list"

section \<open>Deep copies\<close>

text \<open>The loop over the pointers: a nil stays nil, a struct is copied into a new one.\<close>

fun copy_endpoints :: "nat option list \<Rightarrow> 'm api_heap \<Rightarrow> nat option list \<times> 'm api_heap" where
  "copy_endpoints [] h = ([], h)"
| "copy_endpoints (None # ptrs) h = (let (out, h1) = copy_endpoints ptrs h in (None # out, h1))"
| "copy_endpoints (Some a # ptrs) h =
     (let new = length (eps h);
          (out, h1) = copy_endpoints ptrs (h\<lparr>eps := eps h @ [eps h ! a]\<rparr>)
      in (Some new # out, h1))"

text \<open>\<open>DeepCopyInto\<close> yields what it writes into \<open>*out\<close>.\<close>

definition Spec_DeepCopyInto :: "EcsNodeSpec \<Rightarrow> 'm api_heap \<Rightarrow> EcsNodeSpec \<times> 'm api_heap" where
  "Spec_DeepCopyInto s h =
     (case es_Endpoints s of
        None \<Rightarrow> (s, h)
      | Some a \<Rightarrow>
          (let (ptrs, h1) = copy_endpoints (ep_arrays h ! a) h
           in (s\<lparr>es_Endpoints := Some (length (ep_arrays h1))\<rparr>, h1\<lparr>ep_arrays := ep_arrays h1 @ [ptrs]\<rparr>)))"

definition Spec_DeepCopy :: "EcsNodeSpec option \<Rightarrow> 'm api_heap \<Rightarrow> EcsNodeSpec option \<times> 'm api_heap" where
  "Spec_DeepCopy ptr h =
     (case ptr of None \<Rightarrow> (None, h) | Some s \<Rightarrow> (let (out, h1) = Spec_DeepCopyInto s h in (Some out, h1)))"

definition Node_DeepCopyInto :: "('m \<Rightarrow> 'm) \<Rightarrow> 'm ECSNode \<Rightarrow> 'm api_heap \<Rightarrow> 'm ECSNode \<times> 'm api_heap" where
  "Node_DeepCopyInto copy_meta n h =
     (let out = n\<lparr>no_ObjectMeta := copy_meta (no_ObjectMeta n)\<rparr>;
          (spec, h1) = Spec_DeepCopyInto (no_Spec n) h
      in (out\<lparr>no_Spec := spec\<rparr>, h1))"

definition Node_DeepCopy :: "('m \<Rightarrow> 'm) \<Rightarrow> 'm ECSNode option \<Rightarrow> 'm api_heap \<Rightarrow> 'm ECSNode option \<times> 'm api_heap" where
  "Node_DeepCopy copy_meta ptr h =
     (case ptr of None \<Rightarrow> (None, h) | Some n \<Rightarrow> (let (out, h1) = Node_DeepCopyInto copy_meta n h in (Some out, h1)))"

definition Node_DeepCopyObject :: "('m \<Rightarrow> 'm) \<Rightarrow> 'm ECSNode option \<Rightarrow> 'm api_heap \<Rightarrow> 'm ECSNode option \<times> 'm api_heap" where
  "Node_DeepCopyObject copy_meta ptr h =
     (case Node_DeepCopy copy_meta ptr h of (Some c, h1) \<Rightarrow> (Some c, h1) | (None, h1) \<Rightarrow> (None, h1))"

fun copy_nodes :: "('m \<Rightarrow> 'm) \<Rightarrow> 'm ECSNode list \<Rightarrow> 'm api_heap \<Rightarrow> 'm ECSNode list \<times> 'm api_heap" where
  "copy_nodes copy_meta [] h = ([], h)"
| "copy_nodes copy_meta (n # ns) h =
     (let (out, h1) = Node_DeepCopyInto copy_meta n h;
          (outs, h2) = copy_nodes copy_meta ns h1
      in (out # outs, h2))"

definition List_DeepCopyInto ::
    "('m \<Rightarrow> 'm) \<Rightarrow> ('l \<Rightarrow> 'l) \<Rightarrow> 'l ECSNodeList \<Rightarrow> 'm api_heap \<Rightarrow> 'l ECSNodeList \<times> 'm api_heap" where
  "List_DeepCopyInto copy_meta copy_list_meta l h =
     (let out = l\<lparr>nl_ListMeta := copy_list_meta (nl_ListMeta l)\<rparr> in
      case nl_Items l of
        None \<Rightarrow> (out, h)
      | Some a \<Rightarrow>
          (let (ns, h1) = copy_nodes copy_meta (node_arrays h ! a) h
           in (out\<lparr>nl_Items := Some (length (node_arrays h1))\<rparr>, h1\<lparr>node_arrays := node_arrays h1 @ [ns]\<rparr>)))"

definition List_DeepCopy ::
    "('m \<Rightarrow> 'm) \<Rightarrow> ('l \<Rightarrow> 'l) \<Rightarrow> 'l ECSNodeList option \<Rightarrow> 'm api_heap \<Rightarrow> 'l ECSNodeList option \<times> 'm api_heap" where
  "List_DeepCopy copy_meta copy_list_meta ptr h =
     (case ptr of None \<Rightarrow> (None, h)
      | Some l \<Rightarrow> (let (out, h1) = List_DeepCopyInto copy_meta copy_list_meta l h in (Some out, h1)))"

definition List_DeepCopyObject ::
    "('m \<Rightarrow> 'm) \<Rightarrow> ('l \<Rightarrow> 'l) \<Rightarrow> 'l ECSNodeList option \<Rightarrow> 'm api_heap \<Rightarrow> 'l ECSNodeList option \<times> 'm api_heap" where
  "List_DeepCopyObject copy_meta copy_list_meta ptr h =
     (case List_DeepCopy copy_meta copy_list_meta ptr h of (Some c, h1) \<Rightarrow> (Some c, h1) | (None, h1) \<Rightarrow> (None, h1))"

section \<open>What an object reads as\<close>

definition ptr_values :: "'m api_heap \<Rightarrow> nat option list \<Rightarrow> api_endpoint option list" where
  "ptr_values h ptrs = map (map_option (\<lambda>a. eps h ! a)) ptrs"

definition spec_value :: "'m api_heap \<Rightarrow> EcsNodeSpec \<Rightarrow> api_endpoint option list option \<times> string \<times> string" where
  "spec_value h s = (map_option (\<lambda>a. ptr_values h (ep_arrays h ! a)) (es_Endpoints s), es_Status s, es_Hostname s)"

definition node_value ::
    "'m api_heap \<Rightarrow> 'm ECSNode \<Rightarrow> (string \<times> string) \<times> 'm \<times> api_endpoint option list option \<times> string \<times> string" where
  "node_value h n = (no_TypeMeta n, no_ObjectMeta n, spec_value h (no_Spec n))"

definition list_value ::
    "'m api_heap \<Rightarrow> 'l ECSNodeList \<Rightarrow> (string \<times> string) \<times> 'l \<times>
      ((string \<times> string) \<times> 'm \<times> api_endpoint option list option \<times> string \<times> string) list option" where
  "list_value h l = (nl_TypeMeta l, nl_ListMeta l, map_option (\<lambda>a. map (node_value h) (node_arrays h ! a)) (nl_Items l))"

text \<open>The addresses from which on a heap is unused, and an object inside a region of a heap:
  every address it leads to lies at or above \<open>lo\<close> and below the end.\<close>

type_synonym region = "nat \<times> nat \<times> nat"

definition mark :: "'m api_heap \<Rightarrow> region" where
  "mark h = (length (eps h), length (ep_arrays h), length (node_arrays h))"

definition ptrs_in :: "region \<Rightarrow> 'm api_heap \<Rightarrow> nat option list \<Rightarrow> bool" where
  "ptrs_in lo h ptrs \<longleftrightarrow> (\<forall>a. Some a \<in> set ptrs \<longrightarrow> fst lo \<le> a \<and> a < length (eps h))"

definition spec_in :: "region \<Rightarrow> 'm api_heap \<Rightarrow> EcsNodeSpec \<Rightarrow> bool" where
  "spec_in lo h s \<longleftrightarrow> (\<forall>a. es_Endpoints s = Some a \<longrightarrow>
     fst (snd lo) \<le> a \<and> a < length (ep_arrays h) \<and> ptrs_in lo h (ep_arrays h ! a))"

definition list_in :: "region \<Rightarrow> 'm api_heap \<Rightarrow> 'l ECSNodeList \<Rightarrow> bool" where
  "list_in lo h l \<longleftrightarrow> (\<forall>a. nl_Items l = Some a \<longrightarrow>
     snd (snd lo) \<le> a \<and> a < length (node_arrays h) \<and> (\<forall>n \<in> set (node_arrays h ! a). spec_in lo h (no_Spec n)))"

text \<open>Go programs only hold addresses of what exists.\<close>

abbreviation "valid_list \<equiv> list_in (0, 0, 0)"

text \<open>Writes through an object: to a struct, to a slot of a slice of pointers, to a node of a list.\<close>

datatype 'm heap_write =
  WriteEndpoint nat api_endpoint | WriteSlot nat nat "nat option" | WriteNode nat nat "'m ECSNode"

fun apply_write :: "'m heap_write \<Rightarrow> 'm api_heap \<Rightarrow> 'm api_heap" where
  "apply_write (WriteEndpoint a e) h = h\<lparr>eps := (eps h)[a := e]\<rparr>"
| "apply_write (WriteSlot a i p) h = h\<lparr>ep_arrays := (ep_arrays h)[a := (ep_arrays h ! a)[i := p]]\<rparr>"
| "apply_write (WriteNode a i n) h = h\<lparr>node_arrays := (node_arrays h)[a := (node_arrays h ! a)[i := n]]\<rparr>"

fun write_above :: "region \<Rightarrow> 'm heap_write \<Rightarrow> bool" where
  "write_above lo (WriteEndpoint a e) = (fst lo \<le> a)"
| "write_above lo (WriteSlot a i p) = (fst (snd lo) \<le> a)"
| "write_above lo (WriteNode a i n) = (snd (snd lo) \<le> a)"

fun write_below :: "region \<Rightarrow> 'm heap_write \<Rightarrow> bool" where
  "write_below lo (WriteEndpoint a e) = (a < fst lo)"
| "write_below lo (WriteSlot a i p) = (a < fst (snd lo))"
| "write_below lo (WriteNode a i n) = (a < snd (snd lo))"

section \<open>Lemmas\<close>

text \<open>Two heaps that agree below or above a mark.\<close>

definition same_below :: "region \<Rightarrow> 'm api_heap \<Rightarrow> 'm api_heap \<Rightarrow> bool" where
  "same_below m h h' \<longleftrightarrow> (\<forall>a < fst m. eps h' ! a = eps h ! a) \<and> (\<forall>a < fst (snd m). ep_arrays h' ! a = ep_arrays h ! a) \<and>
     (\<forall>a < snd (snd m). node_arrays h' ! a = node_arrays h ! a)"

definition same_above :: "region \<Rightarrow> 'm api_heap \<Rightarrow> 'm api_heap \<Rightarrow> bool" where
  "same_above m h h' \<longleftrightarrow> mark h' = mark h \<and> (\<forall>a. fst m \<le> a \<longrightarrow> eps h' ! a = eps h ! a) \<and>
     (\<forall>a. fst (snd m) \<le> a \<longrightarrow> ep_arrays h' ! a = ep_arrays h ! a) \<and>
     (\<forall>a. snd (snd m) \<le> a \<longrightarrow> node_arrays h' ! a = node_arrays h ! a)"

lemma list_value_below:
  assumes "valid_list h l" and "same_below (mark h) h h'"
  shows "list_value h' l = list_value h l"
proof -
  have ptrs: "ptr_values h' ptrs = ptr_values h ptrs" if "ptrs_in (0, 0, 0) h ptrs" for ptrs
    using that assms(2) by (auto simp: ptr_values_def ptrs_in_def same_below_def mark_def intro!: option.map_cong0)
  have spec: "spec_value h' s = spec_value h s" if "spec_in (0, 0, 0) h s" for s
    using that assms(2) ptrs by (cases "es_Endpoints s") (auto simp: spec_value_def spec_in_def same_below_def mark_def)
  show ?thesis
    using assms spec by (cases "nl_Items l") (auto simp: list_value_def list_in_def same_below_def mark_def node_value_def)
qed

lemma list_value_above:
  assumes "list_in m h l" and "same_above m h h'"
  shows "list_value h' l = list_value h l"
proof -
  have ptrs: "ptr_values h' ptrs = ptr_values h ptrs" if "ptrs_in m h ptrs" for ptrs
    using that assms(2) by (auto simp: ptr_values_def ptrs_in_def same_above_def intro!: option.map_cong0)
  have spec: "spec_value h' s = spec_value h s" if "spec_in m h s" for s
    using that assms(2) ptrs by (cases "es_Endpoints s") (auto simp: spec_value_def spec_in_def same_above_def)
  show ?thesis
    using assms spec by (cases "nl_Items l") (auto simp: list_value_def list_in_def same_above_def node_value_def)
qed

lemma writes_above:
  assumes "\<And>w. w \<in> set ws \<Longrightarrow> write_above m w"
  shows "same_below m h (fold apply_write ws h)"
  using assms
proof (induction ws arbitrary: h)
  case (Cons w ws)
  have "same_below m h (apply_write w h)" using Cons.prems [of w] by (cases w) (auto simp: same_below_def)
  moreover have "same_below m (apply_write w h) (fold apply_write ws (apply_write w h))" using Cons by simp
  ultimately show ?case by (simp add: same_below_def)
qed (simp add: same_below_def)

lemma writes_below:
  assumes "\<And>w. w \<in> set ws \<Longrightarrow> write_below m w"
  shows "same_above m h (fold apply_write ws h)"
  using assms
proof (induction ws arbitrary: h)
  case (Cons w ws)
  have "same_above m h (apply_write w h)" using Cons.prems [of w] by (cases w) (auto simp: same_above_def mark_def)
  moreover have "same_above m (apply_write w h) (fold apply_write ws (apply_write w h))" using Cons by simp
  ultimately show ?case by (simp add: same_above_def)
qed (simp add: same_above_def)

text \<open>Allocation only appends.\<close>

definition grows :: "'m api_heap \<Rightarrow> 'm api_heap \<Rightarrow> bool" where
  "grows h h' \<longleftrightarrow> (\<exists>xs ys zs. eps h' = eps h @ xs \<and> ep_arrays h' = ep_arrays h @ ys \<and> node_arrays h' = node_arrays h @ zs)"

lemma grows_refl [simp]: "grows h h"
  by (simp add: grows_def)

lemma grows_trans: "grows h h1 \<Longrightarrow> grows h1 h2 \<Longrightarrow> grows h h2"
  by (auto simp: grows_def)

lemma grows_mark:
  assumes "grows h h'"
  shows "fst (mark h) \<le> fst (mark h')" "fst (snd (mark h)) \<le> fst (snd (mark h'))" "snd (snd (mark h)) \<le> snd (snd (mark h'))"
    and "same_below (mark h) h h'"
  using assms by (auto simp: grows_def mark_def same_below_def nth_append)

lemma ptrs_grows:
  assumes "grows h h'" and "ptrs_in lo h ptrs"
  shows "ptrs_in lo h' ptrs" and "ptr_values h' ptrs = ptr_values h ptrs"
  using assms by (auto simp: grows_def ptrs_in_def ptr_values_def nth_append intro!: option.map_cong0)

lemma spec_grows:
  assumes "grows h h'" and "spec_in lo h s"
  shows "spec_in lo h' s" and "spec_value h' s = spec_value h s"
proof -
  have "ep_arrays h' ! a = ep_arrays h ! a" "a < length (ep_arrays h')" if "a < length (ep_arrays h)" for a
    using assms(1) that by (auto simp: grows_def nth_append)
  then show "spec_in lo h' s" "spec_value h' s = spec_value h s"
    using assms(2) ptrs_grows [OF assms(1)] by (cases "es_Endpoints s"; auto simp: spec_in_def spec_value_def)+
qed

lemma spec_in_mono:
  assumes "spec_in lo' h s" and "fst lo \<le> fst lo'" and "fst (snd lo) \<le> fst (snd lo')"
  shows "spec_in lo h s"
  using assms by (fastforce simp: spec_in_def ptrs_in_def)

lemma copy_endpoints_spec:
  "copy_endpoints ptrs h = (out, h') \<Longrightarrow> ptrs_in (0, 0, 0) h ptrs \<Longrightarrow>
     grows h h' \<and> ep_arrays h' = ep_arrays h \<and> ptrs_in (mark h) h' out \<and> ptr_values h' out = ptr_values h ptrs"
proof (induction ptrs h arbitrary: out h' rule: copy_endpoints.induct)
  case (1 h)
  then show ?case by (simp add: ptrs_in_def ptr_values_def)
next
  case (2 ptrs h)
  obtain o1 h1 where c: "copy_endpoints ptrs h = (o1, h1)" by (cases "copy_endpoints ptrs h")
  have "ptrs_in (0, 0, 0) h ptrs" using "2.prems"(2) by (simp add: ptrs_in_def)
  with "2.IH" [OF c] show ?case using "2.prems"(1) c by (auto simp: ptrs_in_def ptr_values_def)
next
  case (3 a ptrs h)
  let ?h = "h\<lparr>eps := eps h @ [eps h ! a]\<rparr>"
  obtain o1 h1 where c: "copy_endpoints ptrs ?h = (o1, h1)" by (cases "copy_endpoints ptrs ?h")
  have g: "grows h ?h" by (simp add: grows_def)
  have rest: "ptrs_in (0, 0, 0) h ptrs" using "3.prems"(2) by (simp add: ptrs_in_def)
  then have "ptrs_in (0, 0, 0) ?h ptrs" by (rule ptrs_grows(1) [OF g])
  then have ih: "grows ?h h1" "ep_arrays h1 = ep_arrays ?h" "ptrs_in (mark ?h) h1 o1" "ptr_values h1 o1 = ptr_values ?h ptrs"
    using "3.IH" [OF refl c] by blast+
  have out: "out = Some (length (eps h)) # o1" "h' = h1" using "3.prems"(1) c by (simp_all add: Let_def)
  have "ptr_values h1 o1 = ptr_values h ptrs" using ih(4) ptrs_grows(2) [OF g rest] by simp
  moreover obtain xs where "eps h1 = (eps h @ [eps h ! a]) @ xs" using ih(1) by (auto simp: grows_def)
  moreover have "ptrs_in (mark h) h1 o1" using ih(3) by (fastforce simp: ptrs_in_def mark_def)
  ultimately show ?case
    using out ih(2) grows_trans [OF g ih(1)] by (auto simp: ptrs_in_def ptr_values_def mark_def nth_append)
qed

lemma Spec_DeepCopyInto_spec:
  assumes "Spec_DeepCopyInto s h = (out, h')" and "spec_in (0, 0, 0) h s"
  shows "grows h h'" and "node_arrays h' = node_arrays h" and "spec_in (mark h) h' out" and "spec_value h' out = spec_value h s"
proof -
  have same: "copy_endpoints ptrs h = (o1, h1) \<Longrightarrow> node_arrays h1 = node_arrays h" for ptrs h o1 and h1 :: "'a api_heap"
    by (induction ptrs h arbitrary: o1 h1 rule: copy_endpoints.induct) (auto simp: Let_def split: prod.splits)
  have "grows h h' \<and> node_arrays h' = node_arrays h \<and> spec_in (mark h) h' out \<and> spec_value h' out = spec_value h s"
  proof (cases "es_Endpoints s")
    case None
    then show ?thesis using assms(1) by (auto simp: Spec_DeepCopyInto_def spec_in_def spec_value_def)
  next
    case (Some a)
    obtain o1 h1 where c: "copy_endpoints (ep_arrays h ! a) h = (o1, h1)" by (cases "copy_endpoints (ep_arrays h ! a) h")
    let ?h = "h1\<lparr>ep_arrays := ep_arrays h1 @ [o1]\<rparr>"
    have out: "out = s\<lparr>es_Endpoints := Some (length (ep_arrays h1))\<rparr>" "h' = ?h"
      using assms(1) Some c by (simp_all add: Spec_DeepCopyInto_def)
    have "ptrs_in (0, 0, 0) h (ep_arrays h ! a)" using assms(2) Some by (simp add: spec_in_def)
    note sp = copy_endpoints_spec [OF c this]
    have g: "grows h1 ?h" by (simp add: grows_def)
    have "ptrs_in (mark h) ?h o1" "ptr_values ?h o1 = ptr_values h (ep_arrays h ! a)"
      using ptrs_grows [OF g] sp by metis+
    then show ?thesis
      using out Some sp same [OF c] grows_trans [OF _ g, of h] by (auto simp: spec_in_def spec_value_def mark_def)
  qed
  then show "grows h h'" and "node_arrays h' = node_arrays h" and "spec_in (mark h) h' out" and "spec_value h' out = spec_value h s"
    by blast+
qed

lemma Node_DeepCopyInto_spec:
  assumes "Node_DeepCopyInto copy_meta n h = (out, h')" and "spec_in (0, 0, 0) h (no_Spec n)"
  shows "grows h h'" and "node_arrays h' = node_arrays h" and "spec_in (mark h) h' (no_Spec out)"
    and "node_value h' out = (no_TypeMeta n, copy_meta (no_ObjectMeta n), spec_value h (no_Spec n))"
proof -
  obtain s h1 where c: "Spec_DeepCopyInto (no_Spec n) h = (s, h1)" by (cases "Spec_DeepCopyInto (no_Spec n) h")
  note sp = Spec_DeepCopyInto_spec [OF c assms(2)]
  show "grows h h'" and "node_arrays h' = node_arrays h" and "spec_in (mark h) h' (no_Spec out)"
    and "node_value h' out = (no_TypeMeta n, copy_meta (no_ObjectMeta n), spec_value h (no_Spec n))"
    using assms(1) c sp by (auto simp: Node_DeepCopyInto_def Let_def node_value_def)
qed

text \<open>What the ECSNode controller reads of a node, and that a copy reads the same to it.\<close>

definition controller_view :: "bool \<Rightarrow> 'm api_heap \<Rightarrow> EcsNodeSpec \<Rightarrow> ecsnode" where
  "controller_view deleting h s =
     \<lparr>Endpoints = (case fst (spec_value h s) of
        None \<Rightarrow> []
      | Some es \<Rightarrow> map (map_option (\<lambda>e. \<lparr>ep_Name = ae_Name e, ep_Ipnet = ae_Ipnet e\<rparr>)) es), Deleting = deleting\<rparr>"

lemma copy_same_view:
  assumes "Node_DeepCopyObject copy_meta (Some n) h = (Some c, h')" and "spec_in (0, 0, 0) h (no_Spec n)"
  shows "controller_view d h' (no_Spec c) = controller_view d h (no_Spec n)"
proof -
  have "Node_DeepCopyInto copy_meta n h = (c, h')"
    using assms(1) by (auto simp: Node_DeepCopyObject_def Node_DeepCopy_def Let_def split: prod.splits)
  from Node_DeepCopyInto_spec(4) [OF this assms(2)] have "spec_value h' (no_Spec c) = spec_value h (no_Spec n)"
    by (simp add: node_value_def)
  then show ?thesis by (simp add: controller_view_def)
qed

lemma copy_nodes_spec:
  "copy_nodes copy_meta ns h = (outs, h') \<Longrightarrow> \<forall>n \<in> set ns. spec_in (0, 0, 0) h (no_Spec n) \<Longrightarrow>
     grows h h' \<and> node_arrays h' = node_arrays h \<and> (\<forall>n \<in> set outs. spec_in (mark h) h' (no_Spec n)) \<and>
     map (node_value h') outs = map (\<lambda>n. (no_TypeMeta n, copy_meta (no_ObjectMeta n), spec_value h (no_Spec n))) ns"
proof (induction ns arbitrary: h outs h')
  case (Cons n ns)
  obtain o1 h1 where c: "Node_DeepCopyInto copy_meta n h = (o1, h1)" by (cases "Node_DeepCopyInto copy_meta n h")
  obtain os where r: "copy_nodes copy_meta ns h1 = (os, h')" and outs: "outs = o1 # os"
    using Cons.prems(1) c by (auto split: prod.splits)
  have "spec_in (0, 0, 0) h (no_Spec n)" using Cons.prems(2) by simp
  note sp = Node_DeepCopyInto_spec [OF c this]
  have "\<forall>n \<in> set ns. spec_in (0, 0, 0) h1 (no_Spec n)" using Cons.prems(2) spec_grows(1) [OF sp(1)] by simp
  note ih = Cons.IH [OF r this]
  have g: "grows h1 h'" using ih by blast
  have "\<forall>n \<in> set os. spec_in (mark h) h' (no_Spec n)"
    using ih spec_in_mono grows_mark(1,2) [OF sp(1)] by blast
  moreover have "node_value h' o1 = node_value h1 o1" "spec_in (mark h) h' (no_Spec o1)"
    using spec_grows [OF g sp(3)] by (simp_all add: node_value_def)
  moreover have "map (\<lambda>n. (no_TypeMeta n, copy_meta (no_ObjectMeta n), spec_value h1 (no_Spec n))) ns =
      map (\<lambda>n. (no_TypeMeta n, copy_meta (no_ObjectMeta n), spec_value h (no_Spec n))) ns"
    using Cons.prems(2) spec_grows(2) [OF sp(1), where lo = "(0, 0, 0)"] by simp
  ultimately show ?case using ih sp outs grows_trans [OF sp(1) g] by simp
qed (simp add: node_value_def)

text \<open>The value of a copied list: that of the list, with the library's copies of the metadata.\<close>

definition copied_value ::
    "('m \<Rightarrow> 'm) \<Rightarrow> ('l \<Rightarrow> 'l) \<Rightarrow> 'm api_heap \<Rightarrow> 'l ECSNodeList \<Rightarrow> (string \<times> string) \<times> 'l \<times>
      ((string \<times> string) \<times> 'm \<times> api_endpoint option list option \<times> string \<times> string) list option" where
  "copied_value copy_meta copy_list_meta h l =
     (case list_value h l of (t, m, items) \<Rightarrow>
        (t, copy_list_meta m, map_option (map (\<lambda>(t, m, s). (t, copy_meta m, s))) items))"

lemma List_DeepCopyInto_spec:
  assumes run: "List_DeepCopyInto copy_meta copy_list_meta l h = (out, h')" and ok: "valid_list h l"
  shows "grows h h'" and "list_in (mark h) h' out" and "list_value h' out = copied_value copy_meta copy_list_meta h l"
proof -
  have "grows h h' \<and> list_in (mark h) h' out \<and> list_value h' out = copied_value copy_meta copy_list_meta h l"
  proof (cases "nl_Items l")
    case None
    then show ?thesis
      using run by (auto simp: List_DeepCopyInto_def list_in_def list_value_def copied_value_def Let_def)
  next
    case (Some a)
    obtain ns h1 where c: "copy_nodes copy_meta (node_arrays h ! a) h = (ns, h1)"
      by (cases "copy_nodes copy_meta (node_arrays h ! a) h")
    let ?h = "h1\<lparr>node_arrays := node_arrays h1 @ [ns]\<rparr>"
    have out: "out = l\<lparr>nl_ListMeta := copy_list_meta (nl_ListMeta l), nl_Items := Some (length (node_arrays h1))\<rparr>" "h' = ?h"
      using run Some c by (simp_all add: List_DeepCopyInto_def Let_def)
    have "\<forall>n \<in> set (node_arrays h ! a). spec_in (0, 0, 0) h (no_Spec n)" using ok Some by (simp add: list_in_def)
    note sp = copy_nodes_spec [OF c this]
    have g: "grows h1 ?h" by (simp add: grows_def)
    have sv: "spec_in (mark h) ?h (no_Spec n)" "node_value ?h n = node_value h1 n" if "n \<in> set ns" for n
      using spec_grows [OF g, where lo = "mark h" and s = "no_Spec n"] sp that by (simp_all add: node_value_def)
    have "map (node_value ?h) ns = map (\<lambda>(t, m, s). (t, copy_meta m, s)) (map (node_value h) (node_arrays h ! a))"
      using sv(2) sp by (simp add: node_value_def cong: map_cong)
    then show ?thesis
      using out Some sp sv(1) grows_trans [OF _ g, of h]
      by (auto simp: list_in_def list_value_def copied_value_def mark_def)
  qed
  then show "grows h h'" and "list_in (mark h) h' out" and "list_value h' out = copied_value copy_meta copy_list_meta h l"
    by blast+
qed

section \<open>Properties\<close>

text \<open>
  C29: A deep copy of a list of ECSNodes, as the client's cache hands it to a controller, reads
  like the list and shares nothing with it: the copy lies in fresh memory, no sequence of writes
  into that memory changes what the original reads as, and no sequence of writes into the memory
  that existed before changes the copy. A nil list gives nil.
\<close>

theorem deep_copy_independent:
  assumes "valid_list h l" and "List_DeepCopyObject copy_meta copy_list_meta (Some l) h = (r, h')"
  shows "\<exists>c. r = Some c \<and> list_value h' c = copied_value copy_meta copy_list_meta h l \<and>
    list_value h' l = list_value h l \<and> list_in (mark h) h' c \<and>
    (\<forall>ws. (\<forall>w \<in> set ws. write_above (mark h) w) \<longrightarrow> list_value (fold apply_write ws h') l = list_value h l) \<and>
    (\<forall>ws. (\<forall>w \<in> set ws. write_below (mark h) w) \<longrightarrow> list_value (fold apply_write ws h') c = list_value h' c)"
proof -
  obtain c where run: "List_DeepCopyInto copy_meta copy_list_meta l h = (c, h')" and r: "r = Some c"
    using assms(2) by (auto simp: List_DeepCopyObject_def List_DeepCopy_def Let_def split: prod.splits)
  note sp = List_DeepCopyInto_spec [OF run assms(1)]
  have old: "list_value (fold apply_write ws h') l = list_value h l" if "\<forall>w \<in> set ws. write_above (mark h) w" for ws
  proof -
    have "same_below (mark h) h' (fold apply_write ws h')" using that by (intro writes_above) blast
    then have "same_below (mark h) h (fold apply_write ws h')" using grows_mark(4) [OF sp(1)] by (simp add: same_below_def)
    then show ?thesis by (rule list_value_below [OF assms(1)])
  qed
  have "list_value (fold apply_write ws h') c = list_value h' c" if "\<forall>w \<in> set ws. write_below (mark h) w" for ws
    using that by (intro list_value_above [OF sp(2)] writes_below) blast
  then show ?thesis using r sp(2,3) old old [of "[]"] by auto
qed

text \<open>A list of one node with an endpoint, a nil endpoint and the endpoint again.\<close>

definition demo_heap :: "string api_heap" where
  "demo_heap = \<lparr>eps = [\<lparr>ae_Name = ''eth0'', ae_Ipnet = ''10.0.0.1/24'', ae_Dev = []\<rparr>],
     ep_arrays = [[Some 0, None, Some 0]],
     node_arrays = [[\<lparr>no_TypeMeta = ([], []), no_ObjectMeta = ''n1'',
       no_Spec = \<lparr>es_Endpoints = Some 0, es_Status = [], es_Hostname = ''n1''\<rparr>\<rparr>]]\<rparr>"

definition demo_list :: "string ECSNodeList" where
  "demo_list = \<lparr>nl_TypeMeta = ([], []), nl_ListMeta = ''7'', nl_Items = Some 0\<rparr>"

theorem deep_copy_independent_witness:
  "\<exists>c h'. List_DeepCopyObject id id (Some demo_list) demo_heap = (Some c, h') \<and> list_value h' c = list_value demo_heap demo_list \<and>
     (let h2 = apply_write (WriteEndpoint 1 \<lparr>ae_Name = ''x'', ae_Ipnet = [], ae_Dev = []\<rparr>) h' in
      list_value h2 demo_list = list_value demo_heap demo_list \<and> list_value h2 c \<noteq> list_value h' c)"
proof -
  let ?w = "WriteEndpoint 1 \<lparr>ae_Name = ''x'', ae_Ipnet = [], ae_Dev = []\<rparr> :: string heap_write"
  obtain r h' where run: "List_DeepCopyObject id id (Some demo_list) demo_heap = (r, h')"
    by (cases "List_DeepCopyObject id id (Some demo_list) demo_heap")
  have "valid_list demo_heap demo_list" by (auto simp: list_in_def spec_in_def ptrs_in_def demo_heap_def demo_list_def)
  from deep_copy_independent [OF this run] obtain c where c: "r = Some c"
    and v: "list_value h' c = copied_value id id demo_heap demo_list"
    and keep: "\<forall>ws. (\<forall>w \<in> set ws. write_above (mark demo_heap) w) \<longrightarrow>
      list_value (fold apply_write ws h') demo_list = list_value demo_heap demo_list" by blast
  have "copied_value id id demo_heap demo_list = list_value demo_heap demo_list"
    by (simp add: copied_value_def list_value_def demo_list_def demo_heap_def node_value_def)
  moreover have "list_value (apply_write ?w h') demo_list = list_value demo_heap demo_list"
    using keep [rule_format, of "[?w]"] by (simp add: mark_def demo_heap_def)
  moreover have "(case List_DeepCopyObject id id (Some demo_list) demo_heap of
      (Some c, h') \<Rightarrow> list_value (apply_write ?w h') c \<noteq> list_value h' c | _ \<Rightarrow> False)" by code_simp
  then have "list_value (apply_write ?w h') c \<noteq> list_value h' c" by (simp add: run c)
  ultimately show ?thesis using run c v by auto
qed

end
