(* ===== verification/Api_Register.thy ===== *)
theory Api_Register
  imports Api_Types
begin

text \<open>
  \<open>pkg/apis/v1/register.go\<close>: the group and version of the API and what is registered with the
  scheme, and the \<open>init\<close> of \<open>cmd/ecsnode/main.go\<close> that runs it before \<open>main\<close>. The scheme of
  apimachinery, its builder and the registration of the Kubernetes types are parameters.
\<close>

record GroupVersion =
  gv_Group :: string
  gv_Version :: string

definition SchemeGroupVersion :: GroupVersion where
  "SchemeGroupVersion = \<lparr>gv_Group = ''cluster.ecas.io'', gv_Version = ''v1''\<rparr>"

text \<open>
  The library over a scheme \<open>'s\<close>: \<open>AddKnownTypes\<close> (the types given by their Go names, which are
  the kinds), \<open>metav1.AddToGroupVersion\<close>, \<open>SchemeBuilder.AddToScheme\<close> for a list of functions, which
  may fail (no scheme), the registration of client-go, \<open>WithResource\<close> with \<open>GroupResource\<close>, and the
  kinds that a scheme recognises.
\<close>

record 's scheme_lib =
  sl_AddKnownTypes :: "GroupVersion \<Rightarrow> string list \<Rightarrow> 's \<Rightarrow> 's"
  sl_AddToGroupVersion :: "GroupVersion \<Rightarrow> 's \<Rightarrow> 's"
  sl_Builder :: "('s \<Rightarrow> 's option) list \<Rightarrow> 's \<Rightarrow> 's option"
  sl_clientgo :: "'s \<Rightarrow> 's option"
  sl_kinds :: "'s \<Rightarrow> (GroupVersion \<times> string) set"

text \<open>A resource qualified by its group.\<close>

definition Resource :: "string \<Rightarrow> string \<times> string" where
  "Resource resource = (gv_Group SchemeGroupVersion, resource)"

definition addKnownTypes :: "'s scheme_lib \<Rightarrow> 's \<Rightarrow> 's option" where
  "addKnownTypes lib s =
     (let s1 = sl_AddKnownTypes lib SchemeGroupVersion [''ECSNodeList'', ''ECSNode''] s
      in Some (sl_AddToGroupVersion lib SchemeGroupVersion s1))"

definition SchemeBuilder :: "'s scheme_lib \<Rightarrow> ('s \<Rightarrow> 's option) list" where
  "SchemeBuilder lib = [addKnownTypes lib]"

definition AddToScheme :: "'s scheme_lib \<Rightarrow> 's \<Rightarrow> 's option" where
  "AddToScheme lib = sl_Builder lib (SchemeBuilder lib)"

text \<open>\<open>utilruntime.Must\<close> panics on an error.\<close>

definition ecsnode_init :: "'s scheme_lib \<Rightarrow> 's \<Rightarrow> (unit, 's) gores" where
  "ecsnode_init lib scheme =
     (case sl_clientgo lib scheme of
        None \<Rightarrow> GoPanic
      | Some s1 \<Rightarrow> (case AddToScheme lib s1 of None \<Rightarrow> GoPanic | Some s2 \<Rightarrow> GoOk s2))"

text \<open>What apimachinery documents: registrations only add, and a builder runs its functions in order.\<close>

definition scheme_laws :: "'s scheme_lib \<Rightarrow> bool" where
  "scheme_laws lib \<longleftrightarrow>
     (\<forall>gv ks s. sl_kinds lib (sl_AddKnownTypes lib gv ks s) = sl_kinds lib s \<union> {gv} \<times> set ks) \<and>
     (\<forall>gv s. sl_kinds lib s \<subseteq> sl_kinds lib (sl_AddToGroupVersion lib gv s)) \<and>
     (\<forall>f s. sl_Builder lib [f] s = f s)"

text \<open>
  \<open>init\<close> panics only when the Kubernetes types cannot be registered; otherwise \<open>main\<close> starts with
  a scheme that recognises these types still and both kinds of the API.
\<close>

lemma ecsnode_init_registers:
  assumes "scheme_laws lib"
  shows "case ecsnode_init lib s of
      GoOk s' \<Rightarrow> (\<exists>s1. sl_clientgo lib s = Some s1 \<and> sl_kinds lib s1 \<subseteq> sl_kinds lib s') \<and>
        (\<forall>k \<in> {''ECSNode'', ''ECSNodeList''}. (SchemeGroupVersion, k) \<in> sl_kinds lib s') \<and>
        gv_Group SchemeGroupVersion = fst (Resource r)
    | GoErr e \<Rightarrow> False
    | GoPanic \<Rightarrow> sl_clientgo lib s = None"
proof (cases "sl_clientgo lib s")
  case (Some s1)
  let ?s2 = "sl_AddKnownTypes lib SchemeGroupVersion [''ECSNodeList'', ''ECSNode''] s1"
  have "sl_kinds lib ?s2 \<subseteq> sl_kinds lib (sl_AddToGroupVersion lib SchemeGroupVersion ?s2)"
    using assms unfolding scheme_laws_def by blast
  moreover have "sl_kinds lib ?s2 = sl_kinds lib s1 \<union> {SchemeGroupVersion} \<times> {''ECSNodeList'', ''ECSNode''}"
    "ecsnode_init lib s = GoOk (sl_AddToGroupVersion lib SchemeGroupVersion ?s2)"
    using assms Some
    by (simp_all add: scheme_laws_def ecsnode_init_def AddToScheme_def SchemeBuilder_def addKnownTypes_def)
  ultimately show ?thesis using Some by (auto simp: Resource_def)
qed (simp add: ecsnode_init_def)

end
