(* ===== verification/Spec2Isabelle.thy ===== *)
theory Spec2Isabelle
  imports Node_Scaling Full_Restart Split_Recovery Cluster_Forms Cluster_Trust Cert_Rotation Ecsnode_Start Service_Delivery Api_Register
begin

text \<open>
  etcdauto runs an etcd cluster on Kubernetes nodes with several network interfaces. It is two
  programs. \<open>ecsnode\<close> (\<open>cmd/ecsnode\<close>, \<open>pkg/controller\<close>, \<open>pkg/cert\<close>) is a set of controllers: they
  collect the addresses of all nodes from ECSNode objects, write them into a ConfigMap, publish
  the addresses of the nodes that carry etcd pods in a Service with Endpoints, scale the
  StatefulSet with the number of nodes, and keep a CA and client certificates in secrets.
  \<open>etcdcluster\<close> (\<open>cmd/etcdcluster\<close>, \<open>pkg/cluster\<close>, \<open>pkg/init\<close>) runs in every etcd pod: it prepares
  certificates and environment, finds the other nodes through the mounted ConfigMap (the node-IP
  directory), and joins their cluster or, in pod 0 only, bootstraps one, and then watches for a
  split brain. \<open>pkg/util\<close> has the publish/subscribe bus that connects the controllers.

  Theories, each with its state as records and one definition per function of its file:

  \<^item> \<open>Etcd_Prelude\<close>: results of Go code (\<open>gores\<close>: value, error, panic), Go maps as
    association lists, bounded channels, strings, and the locales \<open>invariant_system\<close> (step
    relations), \<open>mailbox\<close> (bounded channels) and \<open>bounded_retry\<close> with their lemmas; \<open>Go_Net\<close>: \<open>net.ParseIP\<close>,
    \<open>net.JoinHostPort\<close>; \<open>Util_Tool\<close>: \<open>pkg/util/tool.go\<close> over a file system with faults; \<open>Pub_Sub\<close>:
    \<open>pkg/util/pubsub.go\<close>, channels in a heap that subscribers and bus share.
  \<^item> \<open>Discovery\<close> (\<open>pkg/cluster/discovery.go\<close>); \<open>Membership\<close> and \<open>Brain_Split\<close>
    (\<open>pkg/cluster/manager.go\<close>): joining, bootstrapping and promoting over a \<open>world\<close> of environment,
    files, processes and an arbitrary etcd cluster, and the checker.
  \<^item> \<open>Init_Net\<close>, \<open>Init_Cert\<close>, \<open>Init_Env\<close> (\<open>pkg/init\<close>); \<open>Cluster_Config\<close>, \<open>Cluster_Loop\<close>,
    \<open>Cluster_Main\<close> (\<open>cmd/etcdcluster/main.go\<close>): configuration, one iteration of the management loop
    and the loop as a step relation, and the start of the program; \<open>Split_Recovery\<close>: two iterations
    in a row, around a detected split; \<open>Full_Restart\<close>: all pods restarting at once;
    \<open>Shared_Members\<close>: the loop among other pods, as what it relies on and what it guarantees;
    \<open>Cluster_Forms\<close>: pods starting one after the other.
  \<^item> \<open>Host_Mirror\<close> (the copy loops of two controllers and their contract, the locale \<open>follower\<close>),
    \<open>Ecs_Node\<close>, \<open>Pod_Ctrl\<close>, \<open>Configmap_Sync\<close>, \<open>Service_Sync\<close> (which relies on the pod controller
    only through the locale \<open>address_source\<close>), \<open>Node_Ctrl\<close> and \<open>Node_Scaling\<close>, \<open>Secret_Sync\<close>
    (\<open>pkg/controller\<close>, file by file), \<open>Cert_Secret\<close> and \<open>Cert_Rotation\<close> (\<open>pkg/cert\<close>), \<open>Ecsnode_Main\<close> and
    \<open>Ecsnode_Start\<close> (\<open>cmd/ecsnode\<close>: configuration and set-up, and \<open>main\<close>), \<open>Api_Types\<close>
    (\<open>pkg/apis/v1\<close>: the ECSNode types and their deep copies over a heap), \<open>Api_Register\<close> (their
    registration);
    \<open>Host_Pipeline\<close>, \<open>Host_Delivery\<close> and \<open>Service_Delivery\<close>: four controllers and the bus as one step
    relation, and its progress towards the followers and towards the Service;
    \<open>Cluster_Trust\<close>: the secret controller as a step relation, together with a pod that starts on
    the CA secret it keeps.

  What the lemmas show:

  \<^item> Joining refines an abstract plan (\<open>join_implements_plan\<close>); around it, who is recognised,
    removed, counted, promoted and started with which environment, on every error path.
  \<^item> Whatever other pods do between its calls, a pod never has two members in the cluster and adds
    only its own addresses (\<open>one_member_per_pod\<close>). Pods that start one after the other form a
    cluster of exactly these pods, all of them voters (\<open>cluster_forms\<close>).
  \<^item> Only pod 0 bootstraps, from \<open>main\<close> on (\<open>replicas_never_bootstrap\<close>), by an invariant of the
    loop; the environment etcd gets and the paths the manager uses agree
    (\<open>environment_matches_manager\<close>); what a loaded configuration guarantees.
  \<^item> Discovery and the checker of brain splits are characterised by what the nodes answer, in
    any order of the goroutines.
  \<^item> The bus never panics and a slow subscriber keeps the first ten messages; the controllers
    over it have an invariant (\<open>pipeline_inv\<close>) from which follows that announcements are delivered
    (\<open>announcements_are_delivered\<close>), that pod events are carried to the stored Endpoints
    (\<open>pod_changes_reach_service\<close>) and that the etcd pods read what was collected
    (\<open>hosts_reach_etcd_pods\<close>); \<open>ecsnode_main_drives_pipeline\<close> has this from \<open>main\<close> on.
  \<^item> The two programs trust each other: what the secret controller stores and what a pod makes of
    it verify against one CA (\<open>pods_and_clients_trust_each_other\<close>).
  \<^item> The scaling controller brings the StatefulSet to the intended size once nodes and StatefulSet
    rest, unless a relabelling took a node out of the selection (\<open>scaling_settles\<close>).
  \<^item> Each controller alone: tracking of ECSNodes and pods, the ConfigMap reading back,
    the Endpoints being the hosts of the pods, the CA in use being the one stored, client secrets
    validating, rotation becoming due; configurations with their defaults; deep copies that share
    nothing (\<open>deep_copy_independent\<close>).
  \<^item> What modelling showed to be wrong is stated too: \<open>failed_read_forks_ca\<close>,
    \<open>interrupted_generation_accepted\<close>, \<open>full_trigger_blocks_forever\<close>, \<open>desired_exact_iff_int32\<close>,
    \<open>split_survives_rejoin\<close> (rejoining keeps the data of the split cluster),
    \<open>full_restart_loses_data\<close> (no pod keeps its data when all restart), and lemmas such as \<open>dead_prefix_removes_live_member\<close>, \<open>terminated_pod_stays\<close>,
    \<open>endpoints_never_enqueue\<close>, \<open>tls_failure_disables_checking\<close>, \<open>stopped_reconcile_panics\<close>,
    \<open>shared_name_loses_ca_key\<close>, \<open>relabelled_node_unnoticed\<close> and \<open>short_revision_panics\<close>.

  Bounds: 100 promotions and 3 scaling attempts are the code's own loops, modelled by recursion
  on the number of attempts left; channels hold 10 messages; an announcement needs at most 54
  steps (4 for a deferred send, 3 for each of 10 triggers, 10 for each follower's channel), a pod
  event at most 33 and two for each retry due (3 for the publication, 2 for each of 10 messages, 10
  triggers), the scaling controller 27 and three for each queued request. No
  definition has fuel beyond these. Integers are \<open>int\<close> with Go's 64-bit range checked where a
  string becomes a number, and words where a field has a width (member IDs, replicas, ports).

  Parameters, with what is assumed of them only where a theorem says so: the etcd client
  (\<open>etcd_api\<close>, with no law but \<open>pod_relies\<close> in \<open>Shared_Members\<close> and, in \<open>Cluster_Forms\<close>,
  \<open>etcd_serves\<close>: additions, promotions and starts do what etcd documents), the network during a discovery or a check (\<open>probe\<close>, \<open>split_env\<close>), the host's
  interfaces (\<open>host_net\<close>), disk faults (\<open>os_faults\<close>), the cryptography (\<open>signer\<close>; \<open>pki\<close> with
  \<open>pki_laws\<close>: PEM and key texts read back, a CA's signature verifies; \<open>one_library\<close>: both programs
  use the same one), the copies of object metadata, the Kubernetes API for
  StatefulSets, ConfigMaps, Services and secrets (\<open>sts_laws\<close>, \<open>cm_laws\<close>, \<open>svc_laws\<close>, \<open>secret_laws\<close>: a
  successful write is what is stored; \<open>writes_local\<close>: and nothing else changes), the enumeration order of sets and maps (\<open>enumerates\<close>, \<open>sp_order\<close>),
  the YAML parser, the scheme and the manager of controller-runtime.

  Not modelled: log lines, flags and leader election, which only call libraries; real time (periods, timeouts and
  retry delays are steps that may happen); data races: a handler of a controller is one step, so
  overlapping unlocked accesses to \<open>hostips\<close> or \<open>h.ca\<close> are not interleaved. Paths are lists of the
  components that the code joins, so two spellings of one file are different paths, except in
  \<open>Init_Env\<close>, where \<open>filepath.Join\<close> is modelled on the text. The end of the
  context, which stops the goroutines, is modelled with each controller and not in the pipeline.
\<close>

section \<open>From an ECSNode to the etcd pods\<close>

text \<open>The two example APIs over one store.\<close>

type_synonym demo_world = "cm_data option \<times> service option \<times> endpoints option"

definition demo_cms :: "demo_world cm_api" where
  "demo_cms = \<lparr>cm_stored = (\<lambda>w. cm_stored demo_cm_api (fst w)),
     create_or_update = (\<lambda>f w. let (ok, d) = create_or_update demo_cm_api f (fst w) in (ok, d, snd w))\<rparr>"

definition demo_svcs :: "demo_world svc_api" where
  "demo_svcs = \<lparr>stored_service = (\<lambda>w. stored_service demo_svc_api (snd w)),
     stored_endpoints = (\<lambda>w. stored_endpoints demo_svc_api (snd w)),
     create_or_update_service = (\<lambda>d f w. let (ok, v) = create_or_update_service demo_svc_api d f (snd w) in (ok, fst w, v)),
     create_or_update_endpoints = (\<lambda>d f w. let (ok, v) = create_or_update_endpoints demo_svc_api d f (snd w) in (ok, fst w, v))\<rparr>"

definition demo_pipeline :: "demo_world pipeline" where
  "demo_pipeline = \<lparr>pl_ecs = NewEcsNode (ecs_config demo_ecs), pl_sending = False, pl_bus = wired_bus,
     pl_pod = NewPod (pd_config demo_pods), pl_podpub = False, pl_cm = NewConfigMapSync (cm_config demo_cm),
     pl_svc = NewServiceSync demo_svc_cfg, pl_world = (None, None, None)\<rparr>"

lemma demo_pipeline_reach: "reach pipeline_start (pipeline_step sorted_list_of_set demo_cms demo_svcs) demo_pipeline"
  by (rule reach_start) (auto simp: pipeline_start_def demo_pipeline_def)

text \<open>A run for the witnesses: one node is collected, announced, published and taken.\<close>

definition run_ecs :: EcsNode where
  "run_ecs = snd (snd (EcsNode_Reconcile (Some [demo_ecsnode]) EcsNotFound (pl_ecs demo_pipeline)))"

definition run_bus :: "payload pubsub" where
  "run_bus = publish_step EcsNodeTopic HostIPs wired_bus"

definition run_end :: "demo_world pipeline" where
  "run_end = demo_pipeline\<lparr>pl_ecs := run_ecs, pl_bus := receive cm_sub (receive pod_sub run_bus),
     pl_pod := pod_message (hostips run_ecs) (pl_pod demo_pipeline),
     pl_cm := cm_message (hostips run_ecs) (pl_cm demo_pipeline)\<rparr>"

lemma run_end_reach: "reach pipeline_start (pipeline_step sorted_list_of_set demo_cms demo_svcs) run_end"
proof -
  let ?step = "pipeline_step sorted_list_of_set demo_cms demo_svcs"
  let ?c = "\<lparr>cap = 10, buf = [()], closed = False\<rparr>"
  let ?p1 = "demo_pipeline\<lparr>pl_ecs := run_ecs, pl_sending := True\<rparr>"
  let ?p2 = "?p1\<lparr>pl_ecs := run_ecs\<lparr>ecs_trigger := ?c\<rparr>, pl_sending := False\<rparr>"
  let ?p3 = "?p2\<lparr>pl_ecs := run_ecs, pl_bus := run_bus\<rparr>"
  let ?p4 = "?p3\<lparr>pl_bus := receive pod_sub run_bus, pl_pod := pod_message (hostips run_ecs) (pl_pod demo_pipeline)\<rparr>"
  have t: "ecs_trigger run_ecs = make_chan 10" by code_simp
  have run: "EcsNode_Reconcile (Some [demo_ecsnode]) EcsNotFound (pl_ecs demo_pipeline) = (ReconcileDone, True, run_ecs)"
    unfolding run_ecs_def by code_simp
  have 1: "?step demo_pipeline ?p1" by (rule ecs_reconcile [OF _ run]) (simp add: demo_pipeline_def)
  have "?step ?p1 (?p1\<lparr>pl_ecs := (pl_ecs ?p1)\<lparr>ecs_trigger := ?c\<rparr>, pl_sending := False\<rparr>)"
    by (rule ecs_send) (simp_all add: t make_chan_def chan_send_def)
  then have 2: "?step ?p1 ?p2" by simp
  have pub: "Publish EcsNodeTopic HostIPs wired_bus = GoOk run_bus"
  proof (rule Publish_spec)
    show "bus_inv wired_bus" using wired_start by (simp add: wired_def)
    fix b assume "Publish EcsNodeTopic HostIPs wired_bus = GoOk b"
    then show ?thesis by (simp add: run_bus_def publish_step_def)
  qed
  have "?step ?p2 (?p2\<lparr>pl_ecs := (pl_ecs ?p2)\<lparr>ecs_trigger := make_chan 10\<rparr>, pl_bus := run_bus\<rparr>)"
    by (rule ecs_publish) (simp_all add: chan_recv_def make_chan_def pub demo_pipeline_def)
  moreover have "run_ecs\<lparr>ecs_trigger := make_chan 10\<rparr> = run_ecs" by (simp add: t [symmetric])
  ultimately have 3: "?step ?p2 ?p3" by simp
  obtain m c where m: "GetMessage pod_sub run_bus = Received m c"
    using publish_ecs(1) [OF wired_start pub] by (auto simp: GetMessage_def chan_recv_def backlog_def neq_Nil_conv)
  have 4: "?step ?p3 ?p4"
    using pod_receive [of ?p3 m c sorted_list_of_set demo_cms demo_svcs] m by simp
  obtain m' c' where m': "GetMessage cm_sub (receive pod_sub run_bus) = Received m' c'"
    using publish_ecs(2) [OF wired_start pub] receive_other [of 2 pod_sub run_bus]
    by (auto simp: GetMessage_def chan_recv_def backlog_def neq_Nil_conv)
  have "?step ?p4 (?p4\<lparr>pl_bus := receive cm_sub (pl_bus ?p4), pl_cm := cm_message (hostips (pl_ecs ?p4)) (pl_cm ?p4)\<rparr>)"
    by (rule cm_take [OF _ ]) (use m' in \<open>simp_all add: demo_pipeline_def NewConfigMapSync_def\<close>)
  then have 5: "?step ?p4 run_end" by (simp add: run_end_def demo_pipeline_def)
  show ?thesis
    by (rule reach_step, rule reach_step, rule reach_step, rule reach_step, rule reach_step,
        rule demo_pipeline_reach, rule 1, rule 2, rule 3, rule 4, rule 5)
qed

lemma run_end_facts:
  "\<not> pl_sending run_end" "buf (ecs_trigger (pl_ecs run_end)) = []"
  "backlog (sub_chan pod_sub) (pl_bus run_end) = []" "backlog (sub_chan cm_sub) (pl_bus run_end) = []"
  "\<not> cm_stuck (pl_cm run_end)" "pl_world run_end = (None, None, None)"
  by code_simp+

lemma run_end_hosts:
  "hostips (pl_ecs run_end) = [(''10.0.0.1'', {''10.0.0.1'', ''10.1.0.1''})]"
  "cm_copy (pl_cm run_end) = [(''10.0.0.1'', {''10.0.0.1'', ''10.1.0.1''})]"
  by code_simp+

text \<open>
  C5: Announcements are always delivered: with no new input, the deferred send, the publications
  and the receptions end after at most 54 steps whatever their order, and when none of them is
  possible any more, the pod controller's copy equals the map that was to be announced, and so
  does the ConfigMap controller's unless its goroutine has blocked itself.
\<close>

theorem announcements_are_delivered:
  assumes "reach pipeline_start (pipeline_step unsorted api sapi) p" and "(delivery_step ^^ n) p q"
  shows "n \<le> 54 \<and>
    ((\<nexists>r. delivery_step q r) \<longrightarrow>
       map_of (hostIPDict (pl_pod q)) = map_of (hostips (pl_ecs p)) \<and>
       (\<not> cm_stuck (pl_cm q) \<longrightarrow> map_of (cm_copy (pl_cm q)) = map_of (hostips (pl_ecs p))))"
proof -
  have inv: "pipeline_inv unsorted p" by (rule pipeline.reach_inv [OF assms(1)])
  note len = delivery_length [OF inv assms(2)]
  have "n \<le> 54" using len work_bounded [OF inv] by simp
  moreover have inv': "pipeline_inv unsorted q" using len by blast
  note quiet = stuck_quiet [OF inv']
  have "map_of (hostIPDict (pl_pod q)) = map_of (hostips (pl_ecs p)) \<and>
       (\<not> cm_stuck (pl_cm q) \<longrightarrow> map_of (cm_copy (pl_cm q)) = map_of (hostips (pl_ecs p)))"
    if none: "\<nexists>r. delivery_step q r"
    using quiet_pod [OF inv' quiet(1-3) [OF none]] quiet_cm [OF inv' quiet(1,2,4) [OF none]]
    unfolding delivery_keeps_hosts [OF assms(2)] by blast
  ultimately show ?thesis by blast
qed

theorem announcements_are_delivered_witness:
  "(delivery_step ^^ 0) run_end run_end \<and> (\<nexists>r. delivery_step run_end r) \<and>
     map_of (hostIPDict (pl_pod run_end)) ''10.0.0.1'' = Some {''10.0.0.1'', ''10.1.0.1''}"
proof -
  have "\<not> delivery_step run_end r" for r
  proof
    assume "delivery_step run_end r"
    then show False
      by cases (use run_end_facts in \<open>auto simp: chan_recv_def GetMessage_def backlog_def split: list.splits if_splits\<close>)
  qed
  then show ?thesis
    using announcements_are_delivered [OF run_end_reach, of 0 run_end] by (auto simp: run_end_hosts)
qed

text \<open>
  The service follows the pods: when no pod event is pending for the service controller (its
  publication done, its message and trigger taken, no retry due, the goroutine not blocked), the
  objects it has last written and compares with are those for the current address list of the
  pod controller.
\<close>

lemma service_follows_pods:
  assumes "reach pipeline_start (pipeline_step unsorted api sapi) p"
    and "\<not> pl_podpub p" and "backlog (sub_chan svc_sub) (pl_bus p) = []"
    and "buf (ss_trigger (pl_svc p)) = []" and "ss_retries (pl_svc p) = 0" and "\<not> ss_stuck (pl_svc p)"
    and "ListPodHostIP unsorted (PublishNotReady (ss_config (pl_svc p))) (pl_pod p) = Inr ips"
  shows "svcinfo (pl_svc p) = serviceEndpoint (ss_config (pl_svc p)) ips"
  using inv_facts(5) [OF pipeline.reach_inv [OF assms(1)]] assms(2-7)
  by (simp add: svc_pending_def svc_current_def)

text \<open>The run goes on: a pod is listed on the node and its event reaches the service.\<close>

definition run_pod :: PodCtrl where
  "run_pod = snd (snd (Pod_Reconcile (Some [demo_pod False]) ''etcd-0'' (PodFound (demo_pod False)) (pl_pod run_end)))"

definition run_pod_bus :: "payload pubsub" where
  "run_pod_bus = publish_step PodTopic NilData (pl_bus run_end)"

definition run_svc :: "ServiceSync \<times> demo_world" where
  "run_svc = svc_triggered demo_svcs (\<lambda>b. ListPodHostIP sorted_list_of_set b run_pod) (make_chan 10)
     (svc_message (pl_svc run_end)) (pl_world run_end)"

definition run_served :: "demo_world pipeline" where
  "run_served = run_end\<lparr>pl_pod := run_pod, pl_bus := receive svc_sub run_pod_bus,
     pl_svc := fst run_svc, pl_world := snd run_svc\<rparr>"

text \<open>The pod controller has taken the pod in, and its publication is due.\<close>

definition run_pub :: "demo_world pipeline" where
  "run_pub = run_end\<lparr>pl_pod := run_pod, pl_podpub := True\<rparr>"

lemma run_pub_reach: "reach pipeline_start (pipeline_step sorted_list_of_set demo_cms demo_svcs) run_pub"
proof (rule reach_step [OF run_end_reach])
  have "Pod_Reconcile (Some [demo_pod False]) ''etcd-0'' (PodFound (demo_pod False)) (pl_pod run_end) = (None, True, run_pod)"
    unfolding run_pod_def by code_simp
  moreover have "\<not> pl_podpub run_end" by code_simp
  ultimately show "pipeline_step sorted_list_of_set demo_cms demo_svcs run_end run_pub"
    unfolding run_pub_def by (intro pod_reconcile)
qed

lemma run_serves: "(service_step sorted_list_of_set demo_svcs ^^ 3) run_pub run_served"
proof -
  let ?step = "service_step sorted_list_of_set demo_svcs"
  let ?p2 = "run_end\<lparr>pl_pod := run_pod, pl_bus := run_pod_bus\<rparr>"
  let ?p3 = "?p2\<lparr>pl_bus := receive svc_sub run_pod_bus, pl_svc := svc_message (pl_svc run_end)\<rparr>"
  have quiet: "pl_podpub run_end = False" by code_simp
  have w: "wired (pl_bus run_end)" by (rule inv_facts(1) [OF pipeline.reach_inv [OF run_end_reach]])
  have pub: "Publish PodTopic NilData (pl_bus run_end) = GoOk run_pod_bus"
  proof (rule Publish_spec [OF wired_inv [OF w]])
    fix b assume "Publish PodTopic NilData (pl_bus run_end) = GoOk b"
    then show ?thesis by (simp add: run_pod_bus_def publish_step_def)
  qed
  have "?step run_pub (run_pub\<lparr>pl_bus := run_pod_bus, pl_podpub := False\<rparr>)" by (rule serve_publish) (simp_all add: pub run_pub_def)
  moreover have "run_pub\<lparr>pl_bus := run_pod_bus, pl_podpub := False\<rparr> = ?p2"
  proof -
    have same: "run_end\<lparr>pl_podpub := False\<rparr> = run_end" using quiet by (cases run_end) simp
    have "run_pub\<lparr>pl_bus := run_pod_bus, pl_podpub := False\<rparr> =
        (run_end\<lparr>pl_podpub := False\<rparr>)\<lparr>pl_pod := run_pod, pl_bus := run_pod_bus\<rparr>" by (simp add: run_pub_def)
    also have "\<dots> = ?p2" unfolding same ..
    finally show ?thesis .
  qed
  ultimately have 2: "?step run_pub ?p2" by simp
  obtain m c where m: "GetMessage svc_sub run_pod_bus = Received m c"
    using publish_pod(3) [OF w pub] by (auto simp: GetMessage_def chan_recv_def backlog_def neq_Nil_conv)
  have free: "\<not> ss_stuck (pl_svc run_end)" "ss_stuck (svc_message (pl_svc run_end)) = False"
    "ss_trigger (svc_message (pl_svc run_end)) = (make_chan 10)\<lparr>buf := [()]\<rparr>" by code_simp+
  have 3: "?step ?p2 ?p3"
    using serve_take [of ?p2 m c sorted_list_of_set demo_svcs] m free(1) by simp
  obtain s w where sw: "run_svc = (s, w)" by (cases run_svc)
  have "?step ?p3 (?p3\<lparr>pl_svc := s, pl_world := w\<rparr>)"
  proof (rule serve_work)
    show "chan_recv (ss_trigger (pl_svc ?p3)) = Received () (make_chan 10)"
      by (simp add: free chan_recv_def make_chan_def)
  qed (use sw in \<open>simp_all add: free run_svc_def\<close>)
  then have "?step ?p3 run_served" by (simp add: run_served_def sw)
  with 2 3 show ?thesis by (auto simp: numeral_3_eq_3 intro: relcomppI)
qed

lemma run_served_reach: "reach pipeline_start (pipeline_step sorted_list_of_set demo_cms demo_svcs) run_served"
proof -
  have "(service_step sorted_list_of_set demo_svcs ^^ n) p q \<Longrightarrow> reach pipeline_start (pipeline_step sorted_list_of_set demo_cms demo_svcs) p \<Longrightarrow>
     reach pipeline_start (pipeline_step sorted_list_of_set demo_cms demo_svcs) q" for n p q
    by (induction n arbitrary: q) (auto intro: reach_step service_is_step)
  from this [OF run_serves run_pub_reach] show ?thesis .
qed

lemma run_served_facts:
  "\<not> pl_podpub run_served" "backlog (sub_chan svc_sub) (pl_bus run_served) = []"
  "buf (ss_trigger (pl_svc run_served)) = []" "ss_retries (pl_svc run_served) = 0" "\<not> ss_stuck (pl_svc run_served)"
proof -
  have "pl_podpub run_end = False" by code_simp
  then show "\<not> pl_podpub run_served" by (simp add: run_served_def)
  show "backlog (sub_chan svc_sub) (pl_bus run_served) = []" by code_simp
  obtain s w where sw: "run_svc = (s, w)" by (cases run_svc)
  have c: "(case run_svc of (s, w) \<Rightarrow> buf (ss_trigger s) = [] \<and> ss_retries s = 0 \<and> \<not> ss_stuck s)" by code_simp
  show "buf (ss_trigger (pl_svc run_served)) = []" "ss_retries (pl_svc run_served) = 0" "\<not> ss_stuck (pl_svc run_served)"
    using c [unfolded sw prod.case] by (simp_all add: run_served_def sw)
qed

text \<open>
  C7: Pod changes always reach the Service: with the pods listed and an API that does not fail,
  the publication, the receptions, the synchronisations and the retries that are due end after
  at most 33 steps and two more for each retry, whatever their order; and when something was
  pending and none of them is possible any more, the stored Endpoints object has exactly the
  addresses of the hosts of the pods, the stored Service has the configured ports, and the
  controller asks for no further change, unless its goroutine has blocked itself. (The objects
  found in the store are not in deletion and have the controller's annotation if any.)
\<close>

theorem pod_changes_reach_service:
  assumes "reach pipeline_start (pipeline_step unsorted api sapi) p" and "(service_step unsorted sapi ^^ n) p q"
    and "svc_laws sapi" and "svc_works sapi" and "pd_done (pl_pod p)" and "enumerates unsorted"
    and "\<forall>(name, st) \<in> set (podInfo (pl_pod p)). finite (st_HostIP st)"
    and "old_ok (ss_config (pl_svc p)) sv_meta (stored_service sapi (pl_world p))"
    and "old_ok (ss_config (pl_svc p)) eps_meta (stored_endpoints sapi (pl_world p))"
    and "svc_pending p"
  shows "n \<le> 33 + 2 * ss_retries (pl_svc p) \<and>
    ((\<nexists>r. service_step unsorted sapi q r) \<longrightarrow> \<not> ss_stuck (pl_svc q) \<longrightarrow>
      (\<exists>sv ep. stored_service sapi (pl_world q) = Some sv \<and> stored_endpoints sapi (pl_world q) = Some ep \<and>
        svc_ips ep = (\<Union>(name, st) \<in> set (podInfo (pl_pod p)).
          if PublishNotReady (ss_config (pl_svc p)) \<or> st_Ready st then st_HostIP st else {}) \<and>
        svc_ports sv = svc_ports (desired_service (ss_config (pl_svc p))) \<and>
        \<not> Service_Reconcile (Some sv) (Some ep) (pl_svc q)))"
proof -
  have inv: "pipeline_inv unsorted p" "trigger_ok (ss_trigger (pl_svc p))"
    using pipeline.reach_inv [OF assms(1)] svc_channel.reach_inv [OF assms(1)] by blast+
  have ok: "source_ok (unsorted, pl_pod p)" using assms(5-7) by (simp add: source_ok_def)
  have "serving unsorted sapi p" using assms(8-10) by (simp add: serving_def)
  note run = service_run [OF inv assms(3,4) ok this assms(2)]
  then have "n \<le> 33 + 2 * ss_retries (pl_svc p)" using service_bounded [OF inv] by simp
  moreover have "served unsorted sapi (pl_pod p) (pl_svc q) (pl_world q)"
    if "\<nexists>r. service_step unsorted sapi q r" and "\<not> ss_stuck (pl_svc q)"
    using service_stuck_idle [OF _ _ that] run by (auto simp: serving_def)
  ultimately show ?thesis using run by (auto simp: served_def source_addrs_def)
qed

theorem pod_changes_reach_service_witness:
  "\<exists>ep. (service_step sorted_list_of_set demo_svcs ^^ 3) run_pub run_served \<and>
     stored_endpoints demo_svcs (pl_world run_served) = Some ep \<and> svc_ips ep = {''10.0.0.1'', ''10.1.0.1''}"
proof -
  have laws: "svc_laws demo_svcs" "svc_works demo_svcs"
    by (simp_all add: svc_laws_def svc_works_def demo_svcs_def demo_svc_api_def)
  have d: "pd_done (pl_pod run_pub)" by code_simp
  have info: "podInfo (pl_pod run_pub) = [(''etcd-0'', \<lparr>st_Ready = True, st_NodeIP = ''10.0.0.1'', st_HostIP = {''10.0.0.1'', ''10.1.0.1''}\<rparr>)]"
    by code_simp
  have w: "pl_world run_pub = (None, None, None)" by code_simp
  have old: "old_ok (ss_config (pl_svc run_pub)) sv_meta (stored_service demo_svcs (pl_world run_pub))"
    "old_ok (ss_config (pl_svc run_pub)) eps_meta (stored_endpoints demo_svcs (pl_world run_pub))"
    by (simp_all add: old_ok_def w demo_svcs_def demo_svc_api_def)
  have pend: "svc_pending run_pub" by (simp add: svc_pending_def run_pub_def)
  have fin: "\<forall>(name, st) \<in> set (podInfo (pl_pod run_pub)). finite (st_HostIP st)" by (simp add: info)
  have none: "\<nexists>r. service_step sorted_list_of_set demo_svcs run_served r"
  proof
    assume "\<exists>r. service_step sorted_list_of_set demo_svcs run_served r"
    then obtain r where "service_step sorted_list_of_set demo_svcs run_served r" by blast
    then show False
      by cases (use run_served_facts in \<open>auto simp: chan_recv_def GetMessage_def backlog_def split: list.splits if_splits\<close>)
  qed
  from pod_changes_reach_service [OF run_pub_reach run_serves laws d enumerates_sorted fin old pend] none run_served_facts(5) run_serves
  show ?thesis by (auto simp: info)
qed

text \<open>
  C6: What the ECSNode controller has collected reaches the etcd pods: in a quiet pipeline, after
  a successful synchronisation that found no ConfigMap or a different one, every key of the
  stored ConfigMap, mounted as a file of the node-IP directory, is read by \<open>readIPFile\<close> as a
  list of exactly the addresses collected for that master address, and there is one for each
  collected master address.
\<close>

theorem hosts_reach_etcd_pods:
  assumes "reach pipeline_start (pipeline_step unsorted api sapi) p"
    and "\<not> pl_sending p" and "buf (ecs_trigger (pl_ecs p)) = []"
    and "backlog (sub_chan cm_sub) (pl_bus p) = []" and "\<not> cm_stuck (pl_cm p)"
    and "cm_laws api" and "enumerates unsorted" and "plain_hosts (cm_copy (pl_cm p))"
    and "\<not> deepEqualSets (getIPSetFromConfigmap (case cm_stored api (pl_world p) of None \<Rightarrow> [] | Some d \<Rightarrow> d))
      (cm_copy (pl_cm p))"
    and "syncConfigmap unsorted api (pl_cm p) (pl_world p) = (True, e')"
    and "cm_stored api e' = Some d" and "\<forall>k content. map_of d k = Some content \<longrightarrow> node f [dir, k] = RegFile content"
  shows "case map_of (hostips (pl_ecs p)) k of
      None \<Rightarrow> map_of d k = None
    | Some v \<Rightarrow> (\<exists>ips. readIPFile f dir k = Some ips \<and> set ips = v)"
proof -
  have copy: "map_of (cm_copy (pl_cm p)) = map_of (hostips (pl_ecs p))"
    using quiet_cm [OF pipeline.reach_inv [OF assms(1)] assms(2,3)] assms(4,5) by simp
  have d: "d = render_hosts unsorted (cm_copy (pl_cm p))"
    using sync_stored [OF assms(6,10)] assms(9,11) by (simp add: cm_mutate_def)
  show ?thesis
  proof (cases "map_of (hostips (pl_ecs p)) k")
    case None
    then show ?thesis by (simp add: d render_map_of copy)
  next
    case (Some v)
    then obtain content where c: "map_of (render_hosts unsorted (cm_copy (pl_cm p))) k = Some content"
      by (simp add: render_map_of copy)
    then have "node f [dir, k] = RegFile content" using assms(12) d by simp
    from render_read [OF assms(7,8) _ c this] Some copy show ?thesis by simp
  qed
qed

theorem hosts_reach_etcd_pods_witness:
  "\<exists>d. syncConfigmap sorted_list_of_set demo_cms (pl_cm run_end) (pl_world run_end) = (True, Some d, None, None) \<and>
     (\<exists>ips. readIPFile \<lparr>node = (\<lambda>p. case map_of d (last p) of None \<Rightarrow> Absent | Some c \<Rightarrow> RegFile c), sticky = (\<lambda>p. False)\<rparr>
        ''/d'' ''10.0.0.1'' = Some ips \<and> set ips = {''10.0.0.1'', ''10.1.0.1''})"
proof -
  have laws: "cm_laws demo_cms" by (simp add: cm_laws_def demo_cms_def demo_cm_api_def)
  let ?d = "render_hosts sorted_list_of_set (cm_copy (pl_cm run_end))"
  let ?f = "\<lparr>node = (\<lambda>p. case map_of ?d (last p) of None \<Rightarrow> Absent | Some c \<Rightarrow> RegFile c), sticky = (\<lambda>p. False)\<rparr>"
  have ne: "\<not> deepEqualSets (getIPSetFromConfigmap (case cm_stored demo_cms (pl_world run_end) of None \<Rightarrow> [] | Some d \<Rightarrow> d))
      (cm_copy (pl_cm run_end))"
    by (simp add: run_end_facts run_end_hosts demo_cms_def demo_cm_api_def getIPSetFromConfigmap_def deepEqualSets_def)
  then have sync: "syncConfigmap sorted_list_of_set demo_cms (pl_cm run_end) (pl_world run_end) = (True, Some ?d, None, None)"
    by (simp add: syncConfigmap_def demo_cms_def demo_cm_api_def cm_mutate_def run_end_facts(6))
  have plain: "plain_hosts (cm_copy (pl_cm run_end))"
    by (simp add: run_end_hosts plain_hosts_def plain_ip_def is_space_def)
  have "case map_of (hostips (pl_ecs run_end)) ''10.0.0.1'' of
      None \<Rightarrow> map_of ?d ''10.0.0.1'' = None
    | Some v \<Rightarrow> (\<exists>ips. readIPFile ?f ''/d'' ''10.0.0.1'' = Some ips \<and> set ips = v)"
    by (rule hosts_reach_etcd_pods [OF run_end_reach run_end_facts(1,2,4,5) laws enumerates_sorted plain ne sync])
      (simp_all add: demo_cms_def demo_cm_api_def)
  with sync show ?thesis by (simp add: run_end_hosts)
qed

end
